theory Spec2Isabelle
  imports Main "HOL-Library.Sublist"
begin

section \<open>JavaScript strings\<close>

text \<open>
  Strings are modelled as lists of ASCII characters.  The JavaScript operations used by
  the sources are written out over that representation: \<open>String.prototype.includes\<close>
  is the contiguous-sublist test, \<open>trim\<close> and the regular-expression class \<open>\s\<close> use the
  ASCII white-space characters, \<open>\d\<close> is \<open>[0-9]\<close> and \<open>toLowerCase\<close> maps \<open>A-Z\<close> to \<open>a-z\<close>.
\<close>

definition str_includes :: "string \<Rightarrow> string \<Rightarrow> bool" where
  "str_includes s pat = sublist pat s"

definition isSpace :: "char \<Rightarrow> bool" where
  "isSpace c = (c \<in> set [CHR '' '', CHR 0x09, CHR 0x0A, CHR 0x0B, CHR 0x0C, CHR 0x0D])"

definition isDigit :: "char \<Rightarrow> bool" where
  "isDigit c = (c \<in> set ''0123456789'')"

definition trim :: "string \<Rightarrow> string" where
  "trim s = rev (dropWhile isSpace (rev (dropWhile isSpace s)))"

definition toLowerChar :: "char \<Rightarrow> char" where
  "toLowerChar c =
     (case map_of (zip ''ABCDEFGHIJKLMNOPQRSTUVWXYZ'' ''abcdefghijklmnopqrstuvwxyz'') c of
        Some l \<Rightarrow> l
      | None \<Rightarrow> c)"

definition toLowerCase :: "string \<Rightarrow> string" where
  "toLowerCase s = map toLowerChar s"

text \<open>\<open>s.replace(/[:\*]/g, '')\<close>: every colon and asterisk is deleted.\<close>

definition stripColonStar :: "string \<Rightarrow> string" where
  "stripColonStar s = filter (\<lambda>c. c \<noteq> CHR '':'' \<and> c \<noteq> CHR ''*'') s"

text \<open>
  \<open>s.replace(/\s+/g, '_')\<close>: every maximal run of white space becomes one underscore.
  The flag records that the previous character belonged to a run already replaced.
\<close>

fun replaceSpaceRuns :: "bool \<Rightarrow> string \<Rightarrow> string" where
  "replaceSpaceRuns inRun [] = []"
| "replaceSpaceRuns inRun (c # cs) =
     (if isSpace c
      then (if inRun then replaceSpaceRuns True cs else CHR ''_'' # replaceSpaceRuns True cs)
      else c # replaceSpaceRuns False cs)"

text \<open>\<open>Array.prototype.join\<close>.\<close>

fun join :: "string \<Rightarrow> string list \<Rightarrow> string" where
  "join sep [] = []"
| "join sep [x] = x"
| "join sep (x # y # ys) = x @ sep @ join sep (y # ys)"

text \<open>
  \<open>/\d+:\d+/.test(s)\<close>.  \<open>digitsColonDigitsAt\<close> is the match anchored at the start of
  its argument: a non-empty run of digits (the greedy run is the only one a colon can
  follow), a colon, and at least one more digit.  The test succeeds when the anchored
  match succeeds at some position.
\<close>

definition digitsColonDigitsAt :: "string \<Rightarrow> bool" where
  "digitsColonDigitsAt s =
     (takeWhile isDigit s \<noteq> [] \<and>
      (case dropWhile isDigit s of
         c # d # _ \<Rightarrow> c = CHR '':'' \<and> isDigit d
       | _ \<Rightarrow> False))"

fun testDigitsColonDigits :: "string \<Rightarrow> bool" where
  "testDigitsColonDigits [] = False"
| "testDigitsColonDigits (c # cs) = (digitsColonDigitsAt (c # cs) \<or> testDigitsColonDigits cs)"

text \<open>The decimal rendering of a non-negative number inside a template literal.\<close>

fun decimal :: "nat \<Rightarrow> string" where
  "decimal n =
     (if n < 10 then [''0123456789'' ! n]
      else decimal (n div 10) @ [''0123456789'' ! (n mod 10)])"

declare decimal.simps [simp del]

text \<open>\<open>a || b\<close> on strings, and \<open>el.getAttribute(..) || b\<close> on an attribute that may be absent.\<close>

definition str_or :: "string \<Rightarrow> string \<Rightarrow> string" where
  "str_or a b = (if a \<noteq> [] then a else b)"

definition attr_or :: "string option \<Rightarrow> string \<Rightarrow> string" where
  "attr_or a b = (case a of Some v \<Rightarrow> str_or v b | None \<Rightarrow> b)"


section \<open>Field-name inference (formFiller.ts)\<close>

text \<open>
  A form control as the in-page scripts of \<open>getFormFields\<close> and \<open>getFieldName\<close> read it:
  the \<open>tagName\<close>, the reflected \<open>name\<close> and \<open>id\<close> properties (empty when the
  attribute is absent), the attributes read with \<open>getAttribute\<close> (\<open>None\<close> for
  \<open>null\<close>), the \<open>textContent\<close> of the element \<open>document.querySelector('label[for="<id>"]')\<close>
  finds and of the one \<open>closest('label')\<close> finds (\<open>None\<close> when there is none), and
  the \<open>text\<close> of every entry of \<open>select.options\<close>.
\<close>

record control =
  tagName :: string
  nameProp :: string
  idProp :: string
  ariaLabel :: "string option"
  labelForText :: "string option"
  parentLabelText :: "string option"
  dataName :: "string option"
  dataField :: "string option"
  optionTexts :: "string list"

text \<open>
  \<open>const labelFor = element.id ? document.querySelector(..) : null;
  const label = labelFor || element.closest('label')\<close>.
\<close>

definition associatedLabel :: "control \<Rightarrow> string option" where
  "associatedLabel element =
     (case (if idProp element \<noteq> [] then labelForText element else None) of
        Some l \<Rightarrow> Some l
      | None \<Rightarrow> parentLabelText element)"

text \<open>
  \<open>Array.from(select.options).map(opt => opt.text || '').filter(t => t.trim()).join(' ')\<close>
\<close>

definition allOptionsText :: "control \<Rightarrow> string" where
  "allOptionsText element =
     join '' '' (filter (\<lambda>t. trim t \<noteq> []) (map (\<lambda>t. str_or t []) (optionTexts element)))"

definition looksLikeTime :: "string \<Rightarrow> bool" where
  "looksLikeTime t =
     (str_includes t ''AM'' \<or> str_includes t ''PM'' \<or> testDigitsColonDigits t)"

text \<open>
  The naming block of the \<open>forEach\<close> callback of \<open>getFormFields\<close> (lines 469-512); the
  specification calls it \<open>inferFieldName\<close>.  Each \<open>let\<close> is one of the source's
  reassignments of \<open>name\<close>.
\<close>

definition inferFieldName :: "nat \<Rightarrow> control \<Rightarrow> string" where
  "inferFieldName index element =
     (let name = str_or (nameProp element) (idProp element);
          name = (if name = [] then attr_or (ariaLabel element) [] else name);
          name = (if name = [] then
                    (case associatedLabel element of
                       Some txt \<Rightarrow>
                         str_or (replaceSpaceRuns False (toLowerCase (stripColonStar (trim txt)))) []
                     | None \<Rightarrow> name)
                  else name);
          name = (if name = [] then
                    str_or (attr_or (dataName element) []) (attr_or (dataField element) [])
                  else name);
          name = (if name = [] \<and> toLowerCase (tagName element) = ''select'' then
                    (let t = allOptionsText element in
                     if looksLikeTime t then ''appointment_time''
                     else if str_includes t ''Checkup'' \<or> str_includes t ''Cleaning''
                             \<or> str_includes t ''Consultation'' then ''service_type''
                     else if str_includes t ''Extraction'' \<or> str_includes t ''Root Canal''
                             \<or> str_includes t ''Whitening'' then ''service_type''
                     else name)
                  else name);
          name = (if name = [] then ''field_'' @ decimal index else name)
      in name)"

text \<open>
  \<open>inputs.forEach((input, index) => ...)\<close>: the names given to the controls of the form,
  in document order.
\<close>

definition formFieldNames :: "control list \<Rightarrow> string list" where
  "formFieldNames inputs = map (\<lambda>(index, input). inferFieldName index input) (enumerate 0 inputs)"

text \<open>
  The private helper \<open>getFieldName\<close> (lines 399-431), used for logging only.  A label,
  once found, decides the result even when its text is empty.
\<close>

definition getFieldName :: "control \<Rightarrow> string" where
  "getFieldName element =
     (let fieldName = str_or (nameProp element) (idProp element) in
      if fieldName = [] then
        (case associatedLabel element of
           Some txt \<Rightarrow> str_or (stripColonStar (trim txt)) []
         | None \<Rightarrow>
             if toLowerCase (tagName element) = ''select'' then
               (let t = allOptionsText element in
                if looksLikeTime t then ''appointment_time''
                else if str_includes t ''Checkup'' \<or> str_includes t ''Cleaning''
                        \<or> str_includes t ''Consultation'' \<or> str_includes t ''Extraction''
                        \<or> str_includes t ''Root Canal'' \<or> str_includes t ''Whitening''
                     then ''service_type''
                else [])
             else [])
      else fieldName)"

text \<open>
  The signal chain as the specification words it (section 4.1): seven signals in a fixed
  order, the first non-empty one wins.  \<open>signalChain\<close> lists them, \<open>firstNonEmpty\<close>
  picks the winner.
\<close>

definition sniffedName :: "control \<Rightarrow> string" where
  "sniffedName element =
     (if toLowerCase (tagName element) \<noteq> ''select'' then []
      else if looksLikeTime (allOptionsText element) then ''appointment_time''
      else if (\<exists>w \<in> set [''Checkup'', ''Cleaning'', ''Consultation'', ''Extraction'',
                            ''Root Canal'', ''Whitening''].
                 str_includes (allOptionsText element) w) then ''service_type''
      else [])"

definition labelSignal :: "control \<Rightarrow> string" where
  "labelSignal element =
     (case associatedLabel element of
        Some txt \<Rightarrow> replaceSpaceRuns False (toLowerCase (stripColonStar (trim txt)))
      | None \<Rightarrow> [])"

definition signalChain :: "nat \<Rightarrow> control \<Rightarrow> string list" where
  "signalChain index element =
     [nameProp element, idProp element, attr_or (ariaLabel element) [], labelSignal element,
      attr_or (dataName element) [], attr_or (dataField element) [], sniffedName element,
      ''field_'' @ decimal index]"

fun firstNonEmpty :: "string list \<Rightarrow> string" where
  "firstNonEmpty [] = []"
| "firstNonEmpty (s # ss) = (if s \<noteq> [] then s else firstNonEmpty ss)"

text \<open>A control that carries no attribute, label or data signal at all.\<close>

definition bareControl :: "string \<Rightarrow> string list \<Rightarrow> control" where
  "bareControl tag opts =
     \<lparr>tagName = tag, nameProp = [], idProp = [], ariaLabel = None, labelForText = None,
      parentLabelText = None, dataName = None, dataField = None, optionTexts = opts\<rparr>"


text \<open>
  What the specification asks of the concatenated option texts: it "contains AM or PM or
  a digits:digits pattern", respectively "contains any of" the six service words.
\<close>

definition mentionsTime :: "string \<Rightarrow> bool" where
  "mentionsTime t =
     (sublist ''AM'' t \<or> sublist ''PM'' t
      \<or> (\<exists>pre d1 d2 post. isDigit d1 \<and> isDigit d2 \<and> t = pre @ [d1, CHR '':'', d2] @ post))"

definition mentionsService :: "string \<Rightarrow> bool" where
  "mentionsService t =
     (\<exists>w \<in> set [''Checkup'', ''Cleaning'', ''Consultation'', ''Extraction'', ''Root Canal'',
                  ''Whitening'']. sublist w t)"

text \<open>
  A control reaches the option-sniffing stage of \<open>getFormFields\<close> when it is a \<open>select\<close>
  and every earlier signal is empty; in \<open>getFieldName\<close> when it is a \<open>select\<close> without
  name, id and label.
\<close>

definition reachesSniffing :: "control \<Rightarrow> bool" where
  "reachesSniffing element =
     (toLowerCase (tagName element) = ''select'' \<and> nameProp element = [] \<and> idProp element = []
      \<and> attr_or (ariaLabel element) [] = [] \<and> labelSignal element = []
      \<and> attr_or (dataName element) [] = [] \<and> attr_or (dataField element) [] = [])"

definition reachesSniffingInGetFieldName :: "control \<Rightarrow> bool" where
  "reachesSniffingInGetFieldName element =
     (toLowerCase (tagName element) = ''select'' \<and> nameProp element = [] \<and> idProp element = []
      \<and> associatedLabel element = None)"

text \<open>Example controls.\<close>

definition timeSelect :: control where
  "timeSelect = bareControl ''SELECT'' [''-'', ''9:00 AM'', ''10:00 AM'']"

definition serviceSelect :: control where
  "serviceSelect = bareControl ''SELECT'' [''-'', ''Checkup'', ''Cleaning'']"

definition clockSelect :: control where
  "clockSelect = bareControl ''SELECT'' [''Choose'', ''14:30'', ''15:00'']"

definition annotatedSelect :: control where
  "annotatedSelect =
     \<lparr>tagName = ''SELECT'', nameProp = ''slot'', idProp = ''time-select'',
      ariaLabel = Some ''Preferred time'', labelForText = Some ''Time:'',
      parentLabelText = None, dataName = Some ''time'', dataField = None,
      optionTexts = [''-'', ''9:00 AM'']\<rparr>"


section \<open>Errors\<close>

text \<open>A thrown \<open>Error\<close> with its message.\<close>

datatype js_error = Error string

fun message :: "js_error \<Rightarrow> string" where
  "message (Error m) = m"


section \<open>Intent analysis (openaiService.ts)\<close>

text \<open>
  A value produced by \<open>JSON.parse\<close>.  A property read that finds nothing yields
  \<open>undefined\<close>, modelled as \<open>None\<close> of \<open>json option\<close>.  Of a number only
  whether it is zero matters below, so numbers are kept as integers.
\<close>

datatype json =
    JNull
  | JBool bool
  | JNumber int
  | JString string
  | JArray "json list"
  | JObject "(string \<times> json) list"

text \<open>
  \<open>ret.key\<close> on a parsed value: reading a property of \<open>null\<close> throws a \<open>TypeError\<close>
  (the \<open>Inl\<close> result); an object yields the member (the last one, should the text
  repeat a key) or \<open>undefined\<close>; the keys \<open>intent\<close> and \<open>response\<close> are \<open>undefined\<close>
  on every other kind of value.
\<close>

fun getProperty :: "json \<Rightarrow> string \<Rightarrow> js_error + json option" where
  "getProperty JNull key = Inl (Error (''Cannot read properties of null (reading '' @ key @ '')''))"
| "getProperty (JObject members) key = Inr (map_of (rev members) key)"
| "getProperty _ key = Inr None"

text \<open>JavaScript truthiness of a value that may be \<open>undefined\<close>.\<close>

fun truthy :: "json option \<Rightarrow> bool" where
  "truthy None = False"
| "truthy (Some JNull) = False"
| "truthy (Some (JBool b)) = b"
| "truthy (Some (JNumber n)) = (n \<noteq> 0)"
| "truthy (Some (JString s)) = (s \<noteq> [])"
| "truthy (Some _) = True"

text \<open>\<open>list.includes(v)\<close> for a list of strings: only a string can be a member.\<close>

fun includesValue :: "string list \<Rightarrow> json option \<Rightarrow> bool" where
  "includesValue list (Some (JString s)) = (s \<in> set list)"
| "includesValue list _ = False"

record IntentResult =
  intent :: "json option"
  response :: "json option"
  status :: string

text \<open>
  The services \<open>OpenAIService\<close> calls: \<open>fs.pathExists\<close>, the transcription endpoint
  (given the path of the audio file), the chat endpoint (given the user message; its
  result is \<open>response.choices[0]?.message?.content\<close>, \<open>None\<close> when that is \<open>undefined\<close> or
  \<open>null\<close>) and \<open>JSON.parse\<close> (\<open>None\<close> when it throws a \<open>SyntaxError\<close>).
\<close>

record openai_env =
  pathExists :: "string \<Rightarrow> bool"
  transcriptionsCreate :: "string \<Rightarrow> js_error + string"
  chatCompletionsContent :: "string \<Rightarrow> js_error + string option"
  jsonParse :: "string \<Rightarrow> json option"

definition transcribeAudio :: "openai_env \<Rightarrow> string \<Rightarrow> js_error + string" where
  "transcribeAudio env audioFilePath =
     (if \<not> pathExists env audioFilePath
      then Inl (Error (''Audio file not found: '' @ audioFilePath))
      else transcriptionsCreate env audioFilePath)"

text \<open>The result built in the \<open>catch (parseError)\<close> branch of \<open>analyzeIntent\<close>.\<close>

definition parseFallback :: IntentResult where
  "parseFallback =
     \<lparr>intent = Some (JString ''unclear''),
      response = Some (JString ''Could not parse AI response''), status = ''error''\<rparr>"

text \<open>
  The \<open>try\<close> block around \<open>JSON.parse\<close>: a syntax error and the type error of reading
  a property of \<open>null\<close> both end in the \<open>catch\<close> branch.
\<close>

definition parseIntent :: "openai_env \<Rightarrow> string \<Rightarrow> IntentResult" where
  "parseIntent env content =
     (case jsonParse env content of
        None \<Rightarrow> parseFallback
      | Some ret \<Rightarrow>
          (case getProperty ret ''intent'' of
             Inl e \<Rightarrow> parseFallback
           | Inr i \<Rightarrow>
               (case getProperty ret ''response'' of
                  Inl e \<Rightarrow> parseFallback
                | Inr r \<Rightarrow> \<lparr>intent = i, response = r, status = ''success''\<rparr>)))"

text \<open>The user message of the chat request: \<open>`Patient said: "${transcription}"`\<close>.\<close>

definition userMessage :: "string \<Rightarrow> string" where
  "userMessage transcription = ''Patient said: \"'' @ transcription @ ''\"''"

text \<open>
  \<open>`${v}`\<close>: the conversion of a value to a string inside a template literal.  It
  throws a \<open>TypeError\<close> on an object that has a key \<open>toString\<close> of its own (a parsed
  value is never callable, and the inherited \<open>valueOf\<close> returns the object itself), and on
  an array that holds such an object, since \<open>Array.prototype.join\<close> converts the elements;
  every other parsed value and \<open>undefined\<close> convert.
\<close>

fun canStringify :: "json \<Rightarrow> bool" where
  "canStringify (JObject members) = (''toString'' \<notin> set (map fst members))"
| "canStringify (JArray elements) = list_all canStringify elements"
| "canStringify _ = True"

definition templateConvertible :: "json option \<Rightarrow> bool" where
  "templateConvertible v = (case v of None \<Rightarrow> True | Some j \<Rightarrow> canStringify j)"

text \<open>
  \<open>analyzeIntent\<close>, lines 37-96.  The last step is the \<open>console.log\<close> of line 93, whose
  template literal converts \<open>result.intent\<close> and \<open>result.response\<close>.
\<close>

definition analyzeIntent :: "openai_env \<Rightarrow> string \<Rightarrow> js_error + IntentResult" where
  "analyzeIntent env transcription =
     (case chatCompletionsContent env (userMessage transcription) of
        Inl e \<Rightarrow> Inl e
      | Inr content \<Rightarrow>
          (case content of
             None \<Rightarrow> Inl (Error ''No response from OpenAI'')
           | Some c \<Rightarrow>
               if c = [] then Inl (Error ''No response from OpenAI'')
               else
                 (let result = parseIntent env c;
                      result =
                        (if \<not> truthy (intent result)
                            \<or> \<not> includesValue [''book_appointment'', ''other'', ''unclear'']
                                  (intent result)
                         then result\<lparr>intent := Some (JString ''unclear'')\<rparr>
                         else result)
                  in if templateConvertible (intent result)
                        \<and> templateConvertible (response result)
                     then Inr result
                     else Inl (Error ''Cannot convert object to primitive value''))))"

text \<open>The result built in the \<open>catch\<close> branch of \<open>processAudioCommand\<close>.\<close>

definition failureResult :: "js_error \<Rightarrow> IntentResult" where
  "failureResult error =
     \<lparr>intent = Some (JString ''unclear''),
      response = Some (JString (''Failed to process audio command: '' @ message error)),
      status = ''error''\<rparr>"

definition processAudioCommand :: "openai_env \<Rightarrow> string \<Rightarrow> js_error + IntentResult" where
  "processAudioCommand env audioFilePath =
     (case (case transcribeAudio env audioFilePath of
              Inl e \<Rightarrow> Inl e
            | Inr transcription \<Rightarrow> analyzeIntent env transcription) of
        Inr intentResult \<Rightarrow> Inr intentResult
      | Inl error \<Rightarrow> Inr (failureResult error))"


text \<open>The three intents of the \<open>IntentResult\<close> type.\<close>

definition allowedIntents :: "json option set" where
  "allowedIntents =
     {Some (JString ''book_appointment''), Some (JString ''other''), Some (JString ''unclear'')}"

text \<open>
  The outcomes the theorem on \<open>processAudioCommand\<close> speaks of: the error outcome, and the
  result built from a parsed reply with intent \<open>i\<close> and response \<open>rsp\<close>, in which an
  intent outside the three is replaced by \<open>unclear\<close>.
\<close>

definition errorOutcome :: "IntentResult \<Rightarrow> bool" where
  "errorOutcome r = (status r = ''error'' \<and> intent r = Some (JString ''unclear''))"

definition validatedResult :: "json option \<Rightarrow> json option \<Rightarrow> IntentResult" where
  "validatedResult i rsp =
     \<lparr>intent = (if i \<in> allowedIntents then i else Some (JString ''unclear'')),
      response = rsp, status = ''success''\<rparr>"

text \<open>
  Example services.  In \<open>cancelEnv\<close> every call succeeds and the model answers with the
  intent \<open>cancel\<close>; the others differ from it in one answer: the file is missing, the
  transcription request fails, the chat request fails, the reply is no JSON, the reply is
  the JSON text \<open>null\<close>, and the reply's \<open>response\<close> is the object \<open>{"toString":1}\<close>.
\<close>

definition recordingPath :: string where
  "recordingPath = ''temp/recording_1.wav''"

definition cancelTranscript :: string where
  "cancelTranscript = ''cancel my appointment''"

definition cancelReply :: string where
  "cancelReply = ''{\"intent\":\"cancel\",\"response\":\"ok\"}''"

definition cancelJson :: json where
  "cancelJson = JObject [(''intent'', JString ''cancel''), (''response'', JString ''ok'')]"

definition garbledReply :: string where
  "garbledReply = ''Sure, I can help''"

definition nullReply :: string where
  "nullReply = ''null''"

definition toStringReply :: string where
  "toStringReply = ''{\"intent\":\"book_appointment\",\"response\":{\"toString\":1}}''"

definition toStringResponse :: json where
  "toStringResponse = JObject [(''toString'', JNumber 1)]"

definition toStringJson :: json where
  "toStringJson =
     JObject [(''intent'', JString ''book_appointment''), (''response'', toStringResponse)]"

definition serviceDown :: js_error where
  "serviceDown = Error ''Connection error.''"

definition cancelEnv :: openai_env where
  "cancelEnv =
     \<lparr>pathExists = (\<lambda>p. True),
      transcriptionsCreate = (\<lambda>p. Inr cancelTranscript),
      chatCompletionsContent = (\<lambda>m. Inr (Some cancelReply)),
      jsonParse = (\<lambda>c. Some cancelJson)\<rparr>"

definition noFileEnv :: openai_env where
  "noFileEnv = cancelEnv\<lparr>pathExists := (\<lambda>p. False)\<rparr>"

definition whisperDownEnv :: openai_env where
  "whisperDownEnv = cancelEnv\<lparr>transcriptionsCreate := (\<lambda>p. Inl serviceDown)\<rparr>"

definition chatDownEnv :: openai_env where
  "chatDownEnv = cancelEnv\<lparr>chatCompletionsContent := (\<lambda>m. Inl serviceDown)\<rparr>"

definition emptyReplyEnv :: openai_env where
  "emptyReplyEnv = cancelEnv\<lparr>chatCompletionsContent := (\<lambda>m. Inr None)\<rparr>"

definition garbledEnv :: openai_env where
  "garbledEnv =
     cancelEnv\<lparr>chatCompletionsContent := (\<lambda>m. Inr (Some garbledReply)),
               jsonParse := (\<lambda>c. None)\<rparr>"

definition nullReplyEnv :: openai_env where
  "nullReplyEnv =
     cancelEnv\<lparr>chatCompletionsContent := (\<lambda>m. Inr (Some nullReply)),
               jsonParse := (\<lambda>c. Some JNull)\<rparr>"

definition toStringEnv :: openai_env where
  "toStringEnv =
     cancelEnv\<lparr>chatCompletionsContent := (\<lambda>m. Inr (Some toStringReply)),
               jsonParse := (\<lambda>c. Some toStringJson)\<rparr>"

text \<open>The validation step of \<open>analyzeIntent\<close> as a function of the parsed result.\<close>

definition validated :: "IntentResult \<Rightarrow> IntentResult" where
  "validated result =
     (if intent result \<in> allowedIntents then result
      else result\<lparr>intent := Some (JString ''unclear'')\<rparr>)"


section \<open>Audio recorder (audioRecorder.ts)\<close>

text \<open>
  The fields of \<open>NodeAudioRecorder\<close>.  A child process is identified by a number;
  \<open>None\<close> is the \<open>null\<close> handle.
\<close>

type_synonym child_process = nat

record recorder =
  isCurrentlyRecording :: bool
  recordingProcess :: "child_process option"
  audioFilePath :: string
  startTime :: int

definition newRecorder :: recorder where
  "newRecorder =
     \<lparr>isCurrentlyRecording = False, recordingProcess = None, audioFilePath = [], startTime = 0\<rparr>"

text \<open>
  What the library calls of \<open>startRecording\<close> answer: \<open>process.cwd()\<close>, the error of
  \<open>fs.ensureDir\<close> if it rejects, the two readings of \<open>Date.now()\<close>, and the result of
  \<open>spawn\<close> (an error when building the argument list or spawning throws).
  \<open>path.join\<close> is taken to put one separator between its arguments.
\<close>

record start_env =
  cwd :: string
  ensureDirError :: "js_error option"
  nowForPath :: nat
  nowForStart :: int
  spawned :: "js_error + child_process"

definition pathJoin :: "string \<Rightarrow> string \<Rightarrow> string" where
  "pathJoin a b = a @ ''/'' @ b"

text \<open>The \<open>catch\<close> block of \<open>startRecording\<close>.\<close>

definition startFailed :: "js_error \<Rightarrow> recorder \<Rightarrow> (js_error + unit) \<times> recorder" where
  "startFailed error s =
     (Inl (Error (''Failed to start recording: '' @ message error)),
      s\<lparr>isCurrentlyRecording := False\<rparr>)"

definition startRecording :: "start_env \<Rightarrow> recorder \<Rightarrow> (js_error + unit) \<times> recorder" where
  "startRecording env s =
     (if isCurrentlyRecording s then (Inl (Error ''Recording is already in progress''), s)
      else
        (let audioDir = pathJoin (cwd env) ''temp'' in
         case ensureDirError env of
           Some e \<Rightarrow> startFailed e s
         | None \<Rightarrow>
             (let s = s\<lparr>audioFilePath :=
                          pathJoin audioDir (''recording_'' @ decimal (nowForPath env) @ ''.wav'')\<rparr>;
                  s = s\<lparr>startTime := nowForStart env\<rparr>
              in case spawned env of
                   Inl e \<Rightarrow> startFailed e s
                 | Inr process \<Rightarrow>
                     (let s = s\<lparr>recordingProcess := Some process\<rparr>;
                          s = s\<lparr>isCurrentlyRecording := True\<rparr>
                      in (Inr (), s)))))"

text \<open>The handler \<open>startRecording\<close> registers for the \<open>error\<close> event of the child process.\<close>

definition onProcessError :: "recorder \<Rightarrow> recorder" where
  "onProcessError s = s\<lparr>isCurrentlyRecording := False\<rparr>"

text \<open>
  What the library calls of \<open>stopRecording\<close> answer: the error of \<open>kill\<close> if it throws,
  \<open>fs.pathExists\<close> of the stored path, and \<open>fs.stat\<close> (the size, or the error it rejects
  with).
\<close>

record stop_env =
  killError :: "js_error option"
  fileExists :: "string \<Rightarrow> bool"
  statSize :: "string \<Rightarrow> js_error + nat"

text \<open>The \<open>catch\<close> block of \<open>stopRecording\<close>.\<close>

definition stopFailed :: "js_error \<Rightarrow> recorder \<Rightarrow> (js_error + string) \<times> recorder" where
  "stopFailed error s =
     (Inl (Error (''Failed to stop recording: '' @ message error)),
      s\<lparr>isCurrentlyRecording := False, recordingProcess := None, audioFilePath := []\<rparr>)"

definition stopRecording :: "stop_env \<Rightarrow> recorder \<Rightarrow> (js_error + string) \<times> recorder" where
  "stopRecording env s =
     (if \<not> isCurrentlyRecording s \<or> recordingProcess s = None
      then (Inl (Error ''No recording in progress''), s)
      else
        (case killError env of
           Some e \<Rightarrow> stopFailed e s
         | None \<Rightarrow>
             (let path = audioFilePath s in
              if fileExists env path then
                (case statSize env path of
                   Inl e \<Rightarrow> stopFailed e s
                 | Inr bytes \<Rightarrow>
                     (Inr path,
                      s\<lparr>isCurrentlyRecording := False, recordingProcess := None,
                        audioFilePath := []\<rparr>))
              else stopFailed (Error ''Recording file was not created'') s)))"

definition isRecording :: "recorder \<Rightarrow> bool" where
  "isRecording s = isCurrentlyRecording s"

text \<open>The states a recorder can be in: any sequence of the two methods and the event handler.\<close>

inductive reachable :: "recorder \<Rightarrow> bool" where
  init: "reachable newRecorder"
| start: "reachable s \<Longrightarrow> reachable (snd (startRecording env s))"
| stop: "reachable s \<Longrightarrow> reachable (snd (stopRecording env' s))"
| error_event: "reachable s \<Longrightarrow> reachable (onProcessError s)"

text \<open>The recorder is fully reset.\<close>

definition fullyReset :: "recorder \<Rightarrow> bool" where
  "fullyReset s = (\<not> isRecording s \<and> recordingProcess s = None \<and> audioFilePath s = [])"

text \<open>
  Example: \<open>sox\<close> is spawned as process 4242 and then reports an error (it is not
  installed); the file is never written.
\<close>

definition soxStart :: start_env where
  "soxStart =
     \<lparr>cwd = ''/app'', ensureDirError = None, nowForPath = 1759550400000,
      nowForStart = 1759550400000, spawned = Inr 4242\<rparr>"

definition noFile :: stop_env where
  "noFile = \<lparr>killError = None, fileExists = (\<lambda>p. False), statSize = (\<lambda>p. Inr 0)\<rparr>"

definition afterSoxError :: recorder where
  "afterSoxError = onProcessError (snd (startRecording soxStart newRecorder))"

definition whileRecording :: recorder where
  "whileRecording = snd (startRecording soxStart newRecorder)"


section \<open>Dates (the \<open>Date\<close> object)\<close>

text \<open>
  A \<open>Date\<close> is its time value, the milliseconds since 1970-01-01T00:00:00Z.  The
  functions below are the abstract operations of the ECMAScript specification over
  integers, with floor division.  \<open>civilFromDays\<close> and \<open>daysFromCivil\<close> convert between a
  day number and a proleptic Gregorian date (year, month 1-12, day of month).  The local
  time zone is the function \<open>LocalTZA(t, isUTC)\<close> of the specification: the offset of local
  time from UTC, in milliseconds, at the UTC time \<open>t\<close> or at the local time \<open>t\<close>.
\<close>

definition msPerDay :: int where
  "msPerDay = 86400000"

definition Day :: "int \<Rightarrow> int" where
  "Day t = t div msPerDay"

definition TimeWithinDay :: "int \<Rightarrow> int" where
  "TimeWithinDay t = t mod msPerDay"

definition civilFromDays :: "int \<Rightarrow> int \<times> int \<times> int" where
  "civilFromDays days =
     (let z = days + 719468;
          era = z div 146097;
          doe = z - era * 146097;
          yoe = (doe - doe div 1460 + doe div 36524 - doe div 146096) div 365;
          doy = doe - (365 * yoe + yoe div 4 - yoe div 100);
          mp = (5 * doy + 2) div 153;
          d = doy - (153 * mp + 2) div 5 + 1;
          m = (if mp < 10 then mp + 3 else mp - 9);
          y = yoe + era * 400
      in (if m \<le> 2 then y + 1 else y, m, d))"

definition daysFromCivil :: "int \<Rightarrow> int \<Rightarrow> int \<Rightarrow> int" where
  "daysFromCivil year m d =
     (let y = (if m \<le> 2 then year - 1 else year);
          era = y div 400;
          yoe = y - era * 400;
          doy = (153 * (if m > 2 then m - 3 else m + 9) + 2) div 5 + d - 1;
          doe = yoe * 365 + yoe div 4 - yoe div 100 + doy
      in era * 146097 + doe - 719468)"

definition YearFromTime :: "int \<Rightarrow> int" where
  "YearFromTime t = fst (civilFromDays (Day t))"

definition MonthFromTime :: "int \<Rightarrow> int" where
  "MonthFromTime t = fst (snd (civilFromDays (Day t))) - 1"

definition DateFromTime :: "int \<Rightarrow> int" where
  "DateFromTime t = snd (snd (civilFromDays (Day t)))"

definition MakeDay :: "int \<Rightarrow> int \<Rightarrow> int \<Rightarrow> int" where
  "MakeDay year month date =
     daysFromCivil (year + month div 12) (month mod 12 + 1) 1 + date - 1"

definition MakeDate :: "int \<Rightarrow> int \<Rightarrow> int" where
  "MakeDate day time = day * msPerDay + time"

record clock =
  now :: int
  localTZA :: "int \<Rightarrow> bool \<Rightarrow> int"

definition LocalTime :: "clock \<Rightarrow> int \<Rightarrow> int" where
  "LocalTime clk t = t + localTZA clk t True"

definition UTC :: "clock \<Rightarrow> int \<Rightarrow> int" where
  "UTC clk t = t - localTZA clk t False"

text \<open>\<open>Date.prototype.getDate\<close> and \<open>setDate\<close> work in local time.\<close>

definition getDate :: "clock \<Rightarrow> int \<Rightarrow> int" where
  "getDate clk t = DateFromTime (LocalTime clk t)"

definition setDate :: "clock \<Rightarrow> int \<Rightarrow> int \<Rightarrow> int" where
  "setDate clk t dt =
     (let lt = LocalTime clk t;
          newDate = MakeDate (MakeDay (YearFromTime lt) (MonthFromTime lt) dt) (TimeWithinDay lt)
      in UTC clk newDate)"

text \<open>\<open>String(n).padStart(width, '0')\<close> for a non-negative number.\<close>

definition padded :: "nat \<Rightarrow> int \<Rightarrow> string" where
  "padded width n = replicate (width - length (decimal (nat n))) (CHR ''0'') @ decimal (nat n)"

text \<open>The date part \<open>YYYY-MM-DD\<close> of a time value read as UTC, with the expanded years of the specification.\<close>

definition isoDate :: "int \<Rightarrow> string" where
  "isoDate t =
     (let y = YearFromTime t in
      (if 0 \<le> y \<and> y \<le> 9999 then padded 4 y
       else if y < 0 then ''-'' @ padded 6 (- y) else ''+'' @ padded 6 y)
      @ ''-'' @ padded 2 (MonthFromTime t + 1) @ ''-'' @ padded 2 (DateFromTime t))"

text \<open>\<open>Date.prototype.toISOString\<close>: always UTC.\<close>

definition toISOString :: "int \<Rightarrow> string" where
  "toISOString t =
     (let ms = TimeWithinDay t in
      isoDate t @ ''T'' @ padded 2 (ms div 3600000) @ '':'' @ padded 2 (ms div 60000 mod 60)
      @ '':'' @ padded 2 (ms div 1000 mod 60) @ ''.'' @ padded 3 (ms mod 1000) @ ''Z'')"

text \<open>
  Lines 107-109 of formFiller.ts:
  \<open>const defaultDate = new Date(); defaultDate.setDate(defaultDate.getDate() + 7);
  const dateString = defaultDate.toISOString().split('T')[0]\<close>.
\<close>

definition defaultDateString :: "clock \<Rightarrow> string" where
  "defaultDateString clk =
     (let defaultDate = now clk;
          defaultDate = setDate clk defaultDate (getDate clk defaultDate + 7)
      in takeWhile (\<lambda>c. c \<noteq> CHR ''T'') (toISOString defaultDate))"

text \<open>
  An example clock: Saturday 2025-10-04, 20:00 in a zone seven hours behind UTC
  (2025-10-05T03:00:00Z).
\<close>

definition pacificEvening :: clock where
  "pacificEvening = \<lparr>now = 1759633200000, localTZA = (\<lambda>t isUTC. - 25200000)\<rparr>"

section \<open>Browser automation (the Playwright calls of formFiller.ts)\<close>

text \<open>
  Locators are built as the source builds them: \<open>page.locator(css)\<close>, \<open>filter({hasText})\<close>,
  \<open>or\<close>, \<open>first()\<close> and \<open>nth(i)\<close>.  The selectors stay the strings of the source.
\<close>

datatype locator =
    Css string
  | HasText locator string
  | Or locator locator
  | First locator
  | Nth locator nat

datatype select_by = ByLabel string | ByIndex nat

text \<open>
  The calls \<open>fillAppointmentForm\<close> makes on the page and the file system.
  \<open>EvaluateScrollToForm\<close>, \<open>EvaluateOptions\<close> and \<open>EvaluateClickSubmit\<close> are the three
  in-page scripts passed to \<open>evaluate\<close>; \<open>NativeClick i\<close> is the \<open>click()\<close> the last of
  them invokes on the \<open>i\<close>-th button of the form.
\<close>

datatype api_call =
    Goto string
  | WaitForSelector string
  | EvaluateScrollToForm
  | WaitForTimeout nat
  | IsVisible locator
  | Fill locator string
  | SelectOption locator select_by
  | InputValue locator
  | EvaluateOptions locator
  | ScrollIntoViewIfNeeded locator
  | Click locator
  | AllOf locator
  | TextContent locator
  | EvaluateClickSubmit
  | NativeClick nat
  | EnsureDir
  | Screenshot

text \<open>What an invocation leaves behind: the calls it made, each completed or rejected.\<close>

datatype event = Done api_call | Failed api_call

record select_option =
  optionText :: string
  optionValue :: string

record form_button =
  buttonText :: string
  buttonType :: "string option"

text \<open>
  The page as the calls observe it.  \<open>fault\<close> gives the error a call rejects with (a
  timeout of an actionability check, a closed page, ...), \<open>None\<close> when it completes;
  \<open>visible\<close> answers \<open>isVisible()\<close>; \<open>optionsOf\<close> lists the options of the \<open>select\<close> a
  locator resolves to; \<open>countOf\<close> is the number of elements \<open>all()\<close> returns;
  \<open>firstFormButtons\<close> lists, for the first \<open>form\<close> of the document (\<open>None\<close> when there is
  none), the elements matching \<open>button, input[type="submit"]\<close> with their \<open>textContent\<close> and
  \<open>type\<close> attribute.  The answers do not change during one invocation.
\<close>

record page =
  fault :: "api_call \<Rightarrow> js_error option"
  visible :: "locator \<Rightarrow> bool"
  optionsOf :: "locator \<Rightarrow> select_option list"
  countOf :: "locator \<Rightarrow> nat"
  firstFormButtons :: "form_button list option"
  pageClock :: clock

subsection \<open>Computations that may throw and that leave events\<close>

type_synonym 'a io = "(js_error + 'a) \<times> event list"

definition io_return :: "'a \<Rightarrow> 'a io" where
  "io_return x = (Inr x, [])"

definition io_throw :: "js_error \<Rightarrow> 'a io" where
  "io_throw e = (Inl e, [])"

definition io_bind :: "'a io \<Rightarrow> ('a \<Rightarrow> 'b io) \<Rightarrow> 'b io" where
  "io_bind m f =
     (case m of
        (Inl e, w) \<Rightarrow> (Inl e, w)
      | (Inr x, w) \<Rightarrow> (case f x of (r, w') \<Rightarrow> (r, w @ w')))"

definition io_then :: "'a io \<Rightarrow> 'b io \<Rightarrow> 'b io" where
  "io_then m k = io_bind m (\<lambda>_. k)"

text \<open>\<open>try { m } catch (e) { h e }\<close>\<close>

definition try_catch :: "'a io \<Rightarrow> (js_error \<Rightarrow> 'a io) \<Rightarrow> 'a io" where
  "try_catch m h =
     (case m of
        (Inl e, w) \<Rightarrow> (case h e of (r, w') \<Rightarrow> (r, w @ w'))
      | (Inr x, w) \<Rightarrow> (Inr x, w))"

text \<open>A sequence of awaited statements.\<close>

fun io_seq :: "unit io list \<Rightarrow> unit io" where
  "io_seq [] = io_return ()"
| "io_seq (m # ms) = io_then m (io_seq ms)"

text \<open>One call: it completes with the value \<open>v\<close>, or rejects with the page's fault.\<close>

definition perform :: "page \<Rightarrow> api_call \<Rightarrow> 'a \<Rightarrow> 'a io" where
  "perform pg c v =
     (case fault pg c of
        Some e \<Rightarrow> (Inl e, [Failed c])
      | None \<Rightarrow> (Inr v, [Done c]))"

subsection \<open>The Playwright methods\<close>

definition isVisible :: "page \<Rightarrow> locator \<Rightarrow> bool io" where
  "isVisible pg l = perform pg (IsVisible l) (visible pg l)"

definition fill :: "page \<Rightarrow> locator \<Rightarrow> string \<Rightarrow> unit io" where
  "fill pg l v = perform pg (Fill l v) ()"

definition click :: "page \<Rightarrow> locator \<Rightarrow> unit io" where
  "click pg l = perform pg (Click l) ()"

definition scrollIntoViewIfNeeded :: "page \<Rightarrow> locator \<Rightarrow> unit io" where
  "scrollIntoViewIfNeeded pg l = perform pg (ScrollIntoViewIfNeeded l) ()"

definition waitForTimeout :: "page \<Rightarrow> nat \<Rightarrow> unit io" where
  "waitForTimeout pg ms = perform pg (WaitForTimeout ms) ()"

definition inputValue :: "page \<Rightarrow> locator \<Rightarrow> unit io" where
  "inputValue pg l = perform pg (InputValue l) ()"

definition textContent :: "page \<Rightarrow> locator \<Rightarrow> unit io" where
  "textContent pg l = perform pg (TextContent l) ()"

text \<open>\<open>locator.all()\<close>: one \<open>nth\<close> locator per element.\<close>

definition allOf :: "page \<Rightarrow> locator \<Rightarrow> locator list io" where
  "allOf pg l = perform pg (AllOf l) (map (Nth l) [0..<countOf pg l])"

text \<open>
  \<open>selectOption\<close> picks the first option whose label is the given one (the label of an
  option is its text), or the option at the given index; when the \<open>select\<close> has no such
  option the call times out and rejects.
\<close>

definition hasOption :: "select_option list \<Rightarrow> select_by \<Rightarrow> bool" where
  "hasOption opts by =
     (case by of
        ByLabel l \<Rightarrow> l \<in> set (map optionText opts)
      | ByIndex i \<Rightarrow> i < length opts)"

definition optionNotFound :: js_error where
  "optionNotFound = Error ''locator.selectOption: Timeout exceeded: did not find some options''"

definition selectOption :: "page \<Rightarrow> locator \<Rightarrow> select_by \<Rightarrow> unit io" where
  "selectOption pg l by =
     (if hasOption (optionsOf pg l) by then perform pg (SelectOption l by) ()
      else (Inl optionNotFound, [Failed (SelectOption l by)]))"

subsection \<open>\<open>takeScreenshot\<close>\<close>

definition takeScreenshot :: "page \<Rightarrow> unit io" where
  "takeScreenshot pg =
     try_catch (io_then (perform pg EnsureDir ()) (perform pg Screenshot ()))
       (\<lambda>error. io_throw (Error (''Failed to take screenshot: '' @ message error)))"

subsection \<open>\<open>fillAppointmentForm\<close>: the fields\<close>

record AppointmentData =
  name :: string
  email :: string
  phone :: string
  appointmentDate :: string
  appointmentTime :: string
  serviceType :: string
  comments :: "string option"

record PlaywrightConfig =
  headless :: bool
  timeout :: nat
  dentistUrl :: string

text \<open>Lines 38-59: navigation, waiting for the form, scrolling to it.\<close>

definition openForm :: "PlaywrightConfig \<Rightarrow> page \<Rightarrow> unit io" where
  "openForm config pg =
     io_seq [perform pg (Goto (dentistUrl config)) (),
             perform pg (WaitForSelector ''form'') (),
             perform pg EvaluateScrollToForm (),
             waitForTimeout pg 500]"

text \<open>\<open>if (await field.isVisible()) { await field.fill(value); }\<close>\<close>

definition fillIfVisible :: "page \<Rightarrow> locator \<Rightarrow> string \<Rightarrow> unit io" where
  "fillIfVisible pg field v =
     io_bind (isVisible pg field) (\<lambda>shown. if shown then fill pg field v else io_return ())"

definition nameField :: locator where
  "nameField =
     First (Css ''input[name*=\"name\"], input[placeholder*=\"Name\"], input[placeholder*=\"First Last\"]'')"

definition phoneField :: locator where
  "phoneField =
     First (Css ''input[name*=\"phone\"], input[type=\"tel\"], input[placeholder*=\"Phone\"]'')"

definition emailField :: locator where
  "emailField =
     First (Css ''input[name*=\"email\"], input[type=\"email\"], input[placeholder*=\"Email\"]'')"

definition commentsField :: locator where
  "commentsField =
     First (Css ''textarea[name*=\"comment\"], textarea[name*=\"question\"], textarea[placeholder*=\"Question\"], textarea[placeholder*=\"Comments\"]'')"

definition dateInput :: locator where
  "dateInput = First (Css ''input[type=\"date\"], input[name*=\"date\" i], input[id*=\"date\" i]'')"

definition defaultDateInput :: locator where
  "defaultDateInput = First (Css ''input[type=\"date\"]'')"

definition timeDropdown :: locator where
  "timeDropdown = First (Or (HasText (Css ''select'') ''AM'') (HasText (Css ''select'') ''PM''))"

definition firstDropdown :: locator where
  "firstDropdown = Nth (Css ''select'') 0"

definition serviceDropdown :: locator where
  "serviceDropdown = Nth (Css ''select'') 1"

text \<open>Lines 65-71, 74-80, 83-89: no \<open>try\<close> around them.\<close>

definition fillName :: "page \<Rightarrow> AppointmentData \<Rightarrow> unit io" where
  "fillName pg data =
     (if name data \<noteq> [] then fillIfVisible pg nameField (name data) else io_return ())"

definition fillPhone :: "page \<Rightarrow> AppointmentData \<Rightarrow> unit io" where
  "fillPhone pg data =
     (if phone data \<noteq> [] then fillIfVisible pg phoneField (phone data) else io_return ())"

definition fillEmail :: "page \<Rightarrow> AppointmentData \<Rightarrow> unit io" where
  "fillEmail pg data =
     (if email data \<noteq> [] then fillIfVisible pg emailField (email data) else io_return ())"

text \<open>Lines 92-116: the appointment date, each branch inside its own \<open>try\<close>.\<close>

definition fillAppointmentDate :: "page \<Rightarrow> AppointmentData \<Rightarrow> unit io" where
  "fillAppointmentDate pg data =
     (if appointmentDate data \<noteq> [] then
        try_catch (fillIfVisible pg dateInput (appointmentDate data)) (\<lambda>e. io_return ())
      else
        try_catch
          (io_bind (isVisible pg defaultDateInput) (\<lambda>shown.
             if shown then fill pg defaultDateInput (defaultDateString (pageClock pg))
             else io_return ()))
          (\<lambda>e. io_return ()))"

text \<open>
  \<open>if (await dropdown.isVisible()) { await dropdown.selectOption({ index: 1 });
  const selectedValue = await dropdown.inputValue(); }\<close>
\<close>

definition selectSecondOption :: "page \<Rightarrow> locator \<Rightarrow> unit io" where
  "selectSecondOption pg dropdown =
     io_bind (isVisible pg dropdown) (\<lambda>shown.
       if shown then io_then (selectOption pg dropdown (ByIndex 1)) (inputValue pg dropdown)
       else io_return ())"

text \<open>Lines 119-152: the appointment time.\<close>

definition selectAppointmentTime :: "page \<Rightarrow> AppointmentData \<Rightarrow> unit io" where
  "selectAppointmentTime pg data =
     (if appointmentTime data \<noteq> [] then
        try_catch
          (io_bind (isVisible pg timeDropdown) (\<lambda>shown.
             if shown then selectOption pg timeDropdown (ByLabel (appointmentTime data))
             else io_return ()))
          (\<lambda>e. try_catch (selectSecondOption pg firstDropdown) (\<lambda>e2. io_return ()))
      else try_catch (selectSecondOption pg firstDropdown) (\<lambda>e. io_return ()))"

text \<open>
  Lines 155-198: the service type.  \<open>options.find(opt =>
  opt.text.toLowerCase().includes(data.serviceType.toLowerCase()))\<close> yields the index of the
  first matching option.
\<close>

fun findMatchingOption :: "string \<Rightarrow> nat \<Rightarrow> select_option list \<Rightarrow> nat option" where
  "findMatchingOption wanted idx [] = None"
| "findMatchingOption wanted idx (opt # opts) =
     (if str_includes (toLowerCase (optionText opt)) (toLowerCase wanted) then Some idx
      else findMatchingOption wanted (Suc idx) opts)"

definition evaluateOptions :: "page \<Rightarrow> locator \<Rightarrow> select_option list io" where
  "evaluateOptions pg l = perform pg (EvaluateOptions l) (optionsOf pg l)"

definition selectServiceType :: "page \<Rightarrow> AppointmentData \<Rightarrow> unit io" where
  "selectServiceType pg data =
     (if serviceType data \<noteq> [] then
        try_catch
          (io_bind (isVisible pg serviceDropdown) (\<lambda>shown.
             if shown then
               io_bind (evaluateOptions pg serviceDropdown) (\<lambda>options.
                 case findMatchingOption (serviceType data) 0 options of
                   Some matchingIndex \<Rightarrow> selectOption pg serviceDropdown (ByIndex matchingIndex)
                 | None \<Rightarrow>
                     io_then (selectOption pg serviceDropdown (ByIndex 1))
                       (inputValue pg serviceDropdown))
             else io_return ()))
          (\<lambda>e. io_return ())
      else try_catch (selectSecondOption pg serviceDropdown) (\<lambda>e. io_return ()))"

text \<open>Lines 201-207: \<open>comments\<close> is optional; no \<open>try\<close> around it.\<close>

definition fillComments :: "page \<Rightarrow> AppointmentData \<Rightarrow> unit io" where
  "fillComments pg data =
     (case comments data of
        Some c \<Rightarrow> if c \<noteq> [] then fillIfVisible pg commentsField c else io_return ()
      | None \<Rightarrow> io_return ())"

text \<open>Lines 38-213: everything before the submission \<open>try\<close> block.\<close>

definition fillFields :: "PlaywrightConfig \<Rightarrow> page \<Rightarrow> AppointmentData \<Rightarrow> unit io" where
  "fillFields config pg data =
     io_seq [openForm config pg, fillName pg data, fillPhone pg data, fillEmail pg data,
             fillAppointmentDate pg data, selectAppointmentTime pg data,
             selectServiceType pg data, fillComments pg data, takeScreenshot pg]"


subsection \<open>\<open>fillAppointmentForm\<close>: the submission cascade\<close>

definition submitSelectors :: "string list" where
  "submitSelectors =
     [''button[type=\"submit\"]'', ''input[type=\"submit\"]'', ''form button:last-child'',
      ''form button'']"

definition textButtons :: "string list" where
  "textButtons =
     [''button:has-text(\"Submit\")'', ''button:has-text(\"Book\")'', ''button:has-text(\"Send\")'',
      ''button:has-text(\"Confirm\")'', ''[role=\"button\"]:has-text(\"Submit\")'',
      ''[role=\"button\"]:has-text(\"Book\")'']"

text \<open>
  The body of both \<open>for\<close> loops (lines 230-246 and 262-277) for one selector; the result
  says whether the button was clicked.  \<open>isVisible(..).catch(() => false)\<close> and the
  \<open>catch (e) { continue; }\<close> around the body are the two handlers.
\<close>

definition tryButton :: "page \<Rightarrow> string \<Rightarrow> bool io" where
  "tryButton pg selector =
     (let button = First (Css selector) in
      try_catch
        (io_bind (try_catch (isVisible pg button) (\<lambda>e. io_return False)) (\<lambda>shown.
           if shown then
             io_then (io_seq [scrollIntoViewIfNeeded pg button, waitForTimeout pg 300,
                              click pg button])
               (io_return True)
           else io_return False))
        (\<lambda>e. io_return False))"

text \<open>The \<open>for\<close> loop with its \<open>break\<close>: the result is \<open>buttonClicked\<close>.\<close>

fun trySelectors :: "page \<Rightarrow> string list \<Rightarrow> bool io" where
  "trySelectors pg [] = io_return False"
| "trySelectors pg (selector # rest) =
     io_bind (tryButton pg selector) (\<lambda>clicked.
       if clicked then io_return True else trySelectors pg rest)"

definition strategy1 :: "page \<Rightarrow> bool io" where
  "strategy1 pg = trySelectors pg submitSelectors"

definition strategy2 :: "page \<Rightarrow> bool io" where
  "strategy2 pg = trySelectors pg textButtons"

text \<open>Lines 282-298: no handler of its own.\<close>

definition strategy3 :: "page \<Rightarrow> bool io" where
  "strategy3 pg =
     io_bind (allOf pg (Css ''form button'')) (\<lambda>formButtons.
       if length formButtons > 0 then
         (let lastButton = last formButtons in
          io_then (io_seq [textContent pg lastButton, scrollIntoViewIfNeeded pg lastButton,
                           waitForTimeout pg 300, click pg lastButton])
            (io_return True))
       else io_return False)"

text \<open>
  The in-page script of lines 303-320, on the buttons of the first form: the first button
  of type \<open>submit\<close> or whose text contains \<open>submit\<close>, \<open>book\<close> or \<open>send\<close>, else the last
  button; the result is the index of the button it clicks.
\<close>

definition looksLikeSubmit :: "form_button \<Rightarrow> bool" where
  "looksLikeSubmit btn =
     (let text = toLowerCase (buttonText btn);
          type = attr_or (map_option toLowerCase (buttonType btn)) []
      in type = ''submit'' \<or> str_includes text ''submit'' \<or> str_includes text ''book''
         \<or> str_includes text ''send'')"

fun findIndex :: "('a \<Rightarrow> bool) \<Rightarrow> nat \<Rightarrow> 'a list \<Rightarrow> nat option" where
  "findIndex P idx [] = None"
| "findIndex P idx (x # xs) = (if P x then Some idx else findIndex P (Suc idx) xs)"

definition clickSubmitScript :: "form_button list option \<Rightarrow> nat option" where
  "clickSubmitScript form =
     (case form of
        None \<Rightarrow> None
      | Some buttons \<Rightarrow>
          (case findIndex looksLikeSubmit 0 buttons of
             Some i \<Rightarrow> Some i
           | None \<Rightarrow> if buttons = [] then None else Some (length buttons - 1)))"

definition evaluateClickSubmit :: "page \<Rightarrow> bool io" where
  "evaluateClickSubmit pg =
     io_bind (perform pg EvaluateClickSubmit (clickSubmitScript (firstFormButtons pg))) (\<lambda>clicked.
       case clicked of
         Some i \<Rightarrow> (Inr True, [Done (NativeClick i)])
       | None \<Rightarrow> io_return False)"

definition strategy4 :: "page \<Rightarrow> bool io" where
  "strategy4 pg =
     io_bind (evaluateClickSubmit pg) (\<lambda>jsClicked.
       if jsClicked then io_return True else io_return False)"

text \<open>The four blocks in their order, each later one guarded by \<open>if (!buttonClicked)\<close>.\<close>

definition submitCascade :: "page \<Rightarrow> bool io" where
  "submitCascade pg =
     io_bind (strategy1 pg) (\<lambda>buttonClicked.
     io_bind (if \<not> buttonClicked then strategy2 pg else io_return buttonClicked) (\<lambda>buttonClicked.
     io_bind (if \<not> buttonClicked then strategy3 pg else io_return buttonClicked) (\<lambda>buttonClicked.
     if \<not> buttonClicked then strategy4 pg else io_return buttonClicked)))"

text \<open>Lines 218-344: the submission \<open>try\<close> block and its \<open>catch\<close>.\<close>

definition submitForm :: "page \<Rightarrow> bool io" where
  "submitForm pg =
     try_catch
       (io_bind (submitCascade pg) (\<lambda>buttonClicked.
          if buttonClicked then
            io_then (waitForTimeout pg 2000) (io_then (takeScreenshot pg) (io_return True))
          else io_return False))
       (\<lambda>error. io_return False)"

text \<open>The whole method; \<open>None\<close> is the \<open>null\<close> page of a form filler not yet initialised.\<close>

definition fillAppointmentForm ::
    "PlaywrightConfig \<Rightarrow> page option \<Rightarrow> AppointmentData \<Rightarrow> bool io" where
  "fillAppointmentForm config this_page data =
     (case this_page of
        None \<Rightarrow> io_throw (Error ''Browser not initialized. Call initialize() first.'')
      | Some pg \<Rightarrow>
          try_catch (io_then (fillFields config pg data) (submitForm pg))
            (\<lambda>error.
               io_then (takeScreenshot pg)
                 (io_throw (Error (''Failed to fill appointment form: '' @ message error)))))"

text \<open>
  The cascade as the specification words it (sections 4.3 and 9): an ordered list of
  strategies run by one "first success wins" runner.
\<close>

fun firstSuccess :: "bool io list \<Rightarrow> bool io" where
  "firstSuccess [] = io_return False"
| "firstSuccess (s # ss) = io_bind s (\<lambda>ok. if ok then io_return True else firstSuccess ss)"

text \<open>A call that clicks through a locator; an event that activates a control.\<close>

fun isClickCall :: "api_call \<Rightarrow> bool" where
  "isClickCall (Click l) = True"
| "isClickCall _ = False"


fun isClick :: "event \<Rightarrow> bool" where
  "isClick (Done (Click l)) = True"
| "isClick (Done (NativeClick i)) = True"
| "isClick _ = False"


text \<open>The first selector of strategy 1, and what follows a successful click (lines 328-335).\<close>

definition submitButton :: locator where
  "submitButton = First (Css ''button[type=\"submit\"]'')"


text \<open>
  The writes of the text fields that have a value and a visible target
  (name, phone, email, comments).
\<close>

definition textWrites :: "page \<Rightarrow> AppointmentData \<Rightarrow> event list" where
  "textWrites pg data =
     (if name data \<noteq> [] \<and> visible pg nameField then [Done (Fill nameField (name data))] else [])
     @ (if phone data \<noteq> [] \<and> visible pg phoneField then [Done (Fill phoneField (phone data))]
        else [])
     @ (if email data \<noteq> [] \<and> visible pg emailField then [Done (Fill emailField (email data))]
        else [])
     @ (case comments data of
          Some c \<Rightarrow>
            if c \<noteq> [] \<and> visible pg commentsField then [Done (Fill commentsField c)] else []
        | None \<Rightarrow> [])"


subsection \<open>Example pages\<close>

text \<open>
  The appointment form the application is pointed at: inputs for name, phone, e-mail and
  date, a \<open>select\<close> of times, a \<open>select\<close> of services, a \<open>textarea\<close> for comments and one
  \<open>button\<close> of type \<open>submit\<close> labelled \<open>Book Appointment\<close>; no call rejects.  The data are
  the ones \<open>handleIntent\<close> hard-codes.
\<close>

definition timeOptions :: "select_option list" where
  "timeOptions =
     [\<lparr>optionText = ''Select time'', optionValue = []\<rparr>,
      \<lparr>optionText = ''9:00 AM'', optionValue = ''09:00''\<rparr>,
      \<lparr>optionText = ''10:00 AM'', optionValue = ''10:00''\<rparr>]"

definition serviceOptions :: "select_option list" where
  "serviceOptions =
     [\<lparr>optionText = ''Select service'', optionValue = []\<rparr>,
      \<lparr>optionText = ''Cleaning'', optionValue = ''cleaning''\<rparr>,
      \<lparr>optionText = ''Routine Checkup'', optionValue = ''checkup''\<rparr>]"

definition bookButton :: locator where
  "bookButton = First (Css ''button:has-text(\"Book\")'')"

definition visibleOnDentistPage :: "locator list" where
  "visibleOnDentistPage =
     [nameField, phoneField, emailField, dateInput, defaultDateInput, timeDropdown,
      firstDropdown, serviceDropdown, commentsField, submitButton,
      First (Css ''form button:last-child''), First (Css ''form button''), bookButton,
      Nth (Css ''form button'') 0]"

definition dentistPage :: page where
  "dentistPage =
     \<lparr>fault = (\<lambda>c. None),
      visible = (\<lambda>l. l \<in> set visibleOnDentistPage),
      optionsOf = (\<lambda>l. if l = timeDropdown \<or> l = firstDropdown then timeOptions
                         else if l = serviceDropdown then serviceOptions else []),
      countOf = (\<lambda>l. if l = Css ''form button'' then 1 else 0),
      firstFormButtons = Some [\<lparr>buttonText = ''Book Appointment'', buttonType = Some ''submit''\<rparr>],
      pageClock = pacificEvening\<rparr>"

definition dentistConfig :: PlaywrightConfig where
  "dentistConfig =
     \<lparr>headless = False, timeout = 30000,
      dentistUrl = ''https://dr-rajivs-smile-space.lovable.app/''\<rparr>"

definition hardcodedData :: AppointmentData where
  "hardcodedData =
     \<lparr>name = ''Hitesh Jain'', email = ''hitesh@gmail.com'', phone = ''1234567890'',
      appointmentDate = ''2025-10-10'', appointmentTime = ''10:00 AM'',
      serviceType = ''Checkup'', comments = Some ''I have a toothache''\<rparr>"

text \<open>The same page with the submit button disabled: every click on it times out.\<close>

definition clickTimeout :: js_error where
  "clickTimeout = Error ''locator.click: Timeout 5000ms exceeded.''"

definition disabledSubmitPage :: page where
  "disabledSubmitPage =
     dentistPage\<lparr>fault := (\<lambda>c. case c of Click l \<Rightarrow> Some clickTimeout | _ \<Rightarrow> None)\<rparr>"

text \<open>The same page with the name input disabled: filling it times out.\<close>

definition fillTimeout :: js_error where
  "fillTimeout = Error ''locator.fill: Timeout 30000ms exceeded.''"

definition disabledNamePage :: page where
  "disabledNamePage =
     dentistPage\<lparr>fault := (\<lambda>c. case c of Fill l v \<Rightarrow> if l = nameField then Some fillTimeout else None
                                | _ \<Rightarrow> None)\<rparr>"


text \<open>The events of the field stage on the dentist page with the hard-coded data.\<close>

definition dentistFieldEvents :: "event list" where
  "dentistFieldEvents =
     [Done (Goto ''https://dr-rajivs-smile-space.lovable.app/''), Done (WaitForSelector ''form''),
      Done EvaluateScrollToForm, Done (WaitForTimeout 500),
      Done (IsVisible nameField), Done (Fill nameField ''Hitesh Jain''),
      Done (IsVisible phoneField), Done (Fill phoneField ''1234567890''),
      Done (IsVisible emailField), Done (Fill emailField ''hitesh@gmail.com''),
      Done (IsVisible dateInput), Done (Fill dateInput ''2025-10-10''),
      Done (IsVisible timeDropdown), Done (SelectOption timeDropdown (ByLabel ''10:00 AM'')),
      Done (IsVisible serviceDropdown), Done (EvaluateOptions serviceDropdown),
      Done (SelectOption serviceDropdown (ByIndex 2)),
      Done (IsVisible commentsField), Done (Fill commentsField ''I have a toothache''),
      Done EnsureDir, Done Screenshot]"

text \<open>
  The events of the submission stage when the only button is disabled: strategies 1 and 2
  find it and fail to click it, strategy 3 throws when its click times out.
\<close>

definition disabledStrategy1Events :: "event list" where
  "disabledStrategy1Events =
     [Done (IsVisible submitButton), Done (ScrollIntoViewIfNeeded submitButton),
      Done (WaitForTimeout 300), Failed (Click submitButton),
      Done (IsVisible (First (Css ''input[type=\"submit\"]''))),
      Done (IsVisible (First (Css ''form button:last-child''))),
      Done (ScrollIntoViewIfNeeded (First (Css ''form button:last-child''))),
      Done (WaitForTimeout 300), Failed (Click (First (Css ''form button:last-child''))),
      Done (IsVisible (First (Css ''form button''))),
      Done (ScrollIntoViewIfNeeded (First (Css ''form button''))),
      Done (WaitForTimeout 300), Failed (Click (First (Css ''form button'')))]"

definition disabledStrategy2Events :: "event list" where
  "disabledStrategy2Events =
     [Done (IsVisible (First (Css ''button:has-text(\"Submit\")''))),
      Done (IsVisible bookButton), Done (ScrollIntoViewIfNeeded bookButton),
      Done (WaitForTimeout 300), Failed (Click bookButton),
      Done (IsVisible (First (Css ''button:has-text(\"Send\")''))),
      Done (IsVisible (First (Css ''button:has-text(\"Confirm\")''))),
      Done (IsVisible (First (Css ''[role=\"button\"]:has-text(\"Submit\")''))),
      Done (IsVisible (First (Css ''[role=\"button\"]:has-text(\"Book\")'')))]"

definition disabledStrategy3Events :: "event list" where
  "disabledStrategy3Events =
     [Done (AllOf (Css ''form button'')), Done (TextContent (Nth (Css ''form button'') 0)),
      Done (ScrollIntoViewIfNeeded (Nth (Css ''form button'') 0)),
      Done (WaitForTimeout 300), Failed (Click (Nth (Css ''form button'') 0))]"

definition disabledSubmitEvents :: "event list" where
  "disabledSubmitEvents =
     disabledStrategy1Events @ disabledStrategy2Events @ disabledStrategy3Events"

text \<open>A page with the same fields and no button at all.\<close>

definition noButtonPage :: page where
  "noButtonPage =
     dentistPage\<lparr>visible := (\<lambda>l. l \<in> set (take 9 visibleOnDentistPage)),
                 countOf := (\<lambda>l. 0), firstFormButtons := Some []\<rparr>"

definition noButtonEvents :: "event list" where
  "noButtonEvents =
     map (\<lambda>s. Done (IsVisible (First (Css s)))) (submitSelectors @ textButtons)
     @ [Done (AllOf (Css ''form button'')), Done EvaluateClickSubmit]"

subsection \<open>Conditions on pages, writes and further examples\<close>

text \<open>
  The calls of the field stage that stand outside every \<open>try\<close> block: opening the form,
  the visibility check of each text field that has a value, the \<open>fill\<close> of the ones that
  are visible, and the screenshot.
\<close>

definition faultless :: "page \<Rightarrow> api_call list \<Rightarrow> bool" where
  "faultless pg calls = list_all (\<lambda>c. fault pg c = None) calls"

definition textFieldCalls :: "page \<Rightarrow> locator \<Rightarrow> string \<Rightarrow> api_call list" where
  "textFieldCalls pg field v =
     (if v = [] then []
      else IsVisible field # (if visible pg field then [Fill field v] else []))"

definition unguardedCalls :: "PlaywrightConfig \<Rightarrow> page \<Rightarrow> AppointmentData \<Rightarrow> api_call list" where
  "unguardedCalls config pg data =
     [Goto (dentistUrl config), WaitForSelector ''form'', EvaluateScrollToForm, WaitForTimeout 500]
     @ textFieldCalls pg nameField (name data)
     @ textFieldCalls pg phoneField (phone data)
     @ textFieldCalls pg emailField (email data)
     @ textFieldCalls pg commentsField (case comments data of Some c \<Rightarrow> c | None \<Rightarrow> [])
     @ [EnsureDir, Screenshot]"


text \<open>
  "Matched case-insensitively by substring": the lower-cased option text contains the
  lower-cased value.
\<close>

definition matchesOption :: "string \<Rightarrow> select_option \<Rightarrow> bool" where
  "matchesOption wanted opt = sublist (toLowerCase wanted) (toLowerCase (optionText opt))"

text \<open>The events of a dropdown receiving its default, the option at index 1.\<close>

definition secondOptionEvents :: "locator \<Rightarrow> event list" where
  "secondOptionEvents dropdown =
     [Done (IsVisible dropdown), Done (SelectOption dropdown (ByIndex 1)),
      Done (InputValue dropdown)]"

definition secondOptionCalls :: "locator \<Rightarrow> api_call list" where
  "secondOptionCalls dropdown =
     [IsVisible dropdown, SelectOption dropdown (ByIndex 1), InputValue dropdown]"

text \<open>Unsuccessful searches of the time dropdown of the dentist page.\<close>

definition shortTimeData :: AppointmentData where
  "shortTimeData = hardcodedData\<lparr>appointmentTime := ''10:00''\<rparr>"

definition lowerCaseTimeData :: AppointmentData where
  "lowerCaseTimeData = hardcodedData\<lparr>appointmentTime := ''10:00 am''\<rparr>"

definition noValuesData :: AppointmentData where
  "noValuesData = hardcodedData\<lparr>appointmentTime := [], serviceType := []\<rparr>"

definition whiteningData :: AppointmentData where
  "whiteningData = hardcodedData\<lparr>serviceType := ''Whitening''\<rparr>"

text \<open>
  Wednesday 2025-10-29, 16:30 on the US Pacific coast (2025-10-29T23:30:00Z): seven hours
  behind UTC until daylight saving time ends on 2025-11-02 at 09:00 UTC, eight hours
  behind afterwards.
\<close>

definition pacificAutumn :: clock where
  "pacificAutumn =
     \<lparr>now = 1761780600000,
      localTZA = (\<lambda>t isUTC. if t < (if isUTC then 1762074000000 else 1762048800000)
                             then - 25200000 else - 28800000)\<rparr>"

definition autumnPage :: page where
  "autumnPage = dentistPage\<lparr>pageClock := pacificAutumn\<rparr>"

definition noDateData :: AppointmentData where
  "noDateData = hardcodedData\<lparr>appointmentDate := []\<rparr>"

text \<open>The events of the whole invocation on that page with no date supplied.\<close>

definition autumnEvents :: "event list" where
  "autumnEvents =
     [Done (Goto ''https://dr-rajivs-smile-space.lovable.app/''), Done (WaitForSelector ''form''),
      Done EvaluateScrollToForm, Done (WaitForTimeout 500),
      Done (IsVisible nameField), Done (Fill nameField ''Hitesh Jain''),
      Done (IsVisible phoneField), Done (Fill phoneField ''1234567890''),
      Done (IsVisible emailField), Done (Fill emailField ''hitesh@gmail.com''),
      Done (IsVisible defaultDateInput), Done (Fill defaultDateInput ''2025-11-06''),
      Done (IsVisible timeDropdown), Done (SelectOption timeDropdown (ByLabel ''10:00 AM'')),
      Done (IsVisible serviceDropdown), Done (EvaluateOptions serviceDropdown),
      Done (SelectOption serviceDropdown (ByIndex 2)),
      Done (IsVisible commentsField), Done (Fill commentsField ''I have a toothache''),
      Done EnsureDir, Done Screenshot,
      Done (IsVisible submitButton), Done (ScrollIntoViewIfNeeded submitButton),
      Done (WaitForTimeout 300), Done (Click submitButton),
      Done (WaitForTimeout 2000), Done EnsureDir, Done Screenshot]"

text \<open>
  A page on which no submission strategy can locate and click a control: each button that
  strategies 1 and 2 look for is hidden or rejects the click; the form has no button for
  strategy 3 and the in-page script of strategy 4 finds none or fails, or the last button
  of the form rejects the click of strategy 3 (which then throws, so that strategy 4 does
  not run).
\<close>

definition lastFormButton :: "page \<Rightarrow> locator" where
  "lastFormButton pg = Nth (Css ''form button'') (countOf pg (Css ''form button'') - 1)"

definition noControlClicks :: "page \<Rightarrow> bool" where
  "noControlClicks pg \<longleftrightarrow>
     list_all (\<lambda>s. \<not> visible pg (First (Css s)) \<or> fault pg (Click (First (Css s))) \<noteq> None)
       (submitSelectors @ textButtons)
     \<and> (if countOf pg (Css ''form button'') = 0
        then clickSubmitScript (firstFormButtons pg) = None \<or> fault pg EvaluateClickSubmit \<noteq> None
        else fault pg (Click (lastFormButton pg)) \<noteq> None)"

text \<open>
  The writes of the date, time and service blocks when the value is supplied, its control
  is visible, the time is the text of an option or the service has a matching option, and
  the calls of the block complete.
\<close>

definition guardedWrites :: "page \<Rightarrow> AppointmentData \<Rightarrow> event list" where
  "guardedWrites pg data =
     (if appointmentDate data \<noteq> [] \<and> visible pg dateInput
         \<and> faultless pg [IsVisible dateInput, Fill dateInput (appointmentDate data)]
      then [Done (Fill dateInput (appointmentDate data))] else [])
     @ (if appointmentTime data \<noteq> [] \<and> visible pg timeDropdown
           \<and> appointmentTime data \<in> set (map optionText (optionsOf pg timeDropdown))
           \<and> faultless pg [IsVisible timeDropdown,
                            SelectOption timeDropdown (ByLabel (appointmentTime data))]
        then [Done (SelectOption timeDropdown (ByLabel (appointmentTime data)))] else [])
     @ (case findMatchingOption (serviceType data) 0 (optionsOf pg serviceDropdown) of
          Some i \<Rightarrow>
            if serviceType data \<noteq> [] \<and> visible pg serviceDropdown
               \<and> faultless pg [IsVisible serviceDropdown, EvaluateOptions serviceDropdown,
                                SelectOption serviceDropdown (ByIndex i)]
            then [Done (SelectOption serviceDropdown (ByIndex i))] else []
        | None \<Rightarrow> [])"







section \<open>Verified properties\<close>

subsection \<open>Strings\<close>

lemma decimal_nonempty: "decimal n \<noteq> []"
  by (subst decimal.simps) (simp del: decimal.simps)

lemma str_or_empty_iff: "str_or a b = [] \<longleftrightarrow> a = [] \<and> b = []"
  by (simp add: str_or_def)

subsection \<open>The regular expression \<open>\d+:\d+\<close>\<close>

lemma isDigit_colon: "\<not> isDigit (CHR '':'')"
  by (simp add: isDigit_def)

lemma digitsColonDigitsAt_iff:
  "digitsColonDigitsAt s \<longleftrightarrow>
     (\<exists>ds d post. ds \<noteq> [] \<and> (\<forall>c \<in> set ds. isDigit c) \<and> isDigit d \<and> s = ds @ CHR '':'' # d # post)"
  (is "?L \<longleftrightarrow> ?R")
proof
  assume a: ?L
  then obtain d post where dw: "dropWhile isDigit s = CHR '':'' # d # post" and d: "isDigit d"
    by (auto simp: digitsColonDigitsAt_def split: list.splits)
  from a have ne: "takeWhile isDigit s \<noteq> []" by (simp add: digitsColonDigitsAt_def)
  have "s = takeWhile isDigit s @ dropWhile isDigit s" by simp
  with dw have s: "s = takeWhile isDigit s @ CHR '':'' # d # post" by simp
  have all: "\<forall>c \<in> set (takeWhile isDigit s). isDigit c" by (auto dest: set_takeWhileD)
  show ?R
    by (rule exI[of _ "takeWhile isDigit s"], rule exI[of _ d], rule exI[of _ post])
       (use ne all d s in blast)
next
  assume ?R
  then obtain ds d post where ne: "ds \<noteq> []" and all: "\<forall>c \<in> set ds. isDigit c" and d: "isDigit d"
    and s: "s = ds @ CHR '':'' # d # post" by blast
  have tw: "takeWhile isDigit s = ds" unfolding s using all isDigit_colon
    by simp
  have dw: "dropWhile isDigit s = CHR '':'' # d # post" unfolding s using all isDigit_colon
    by simp
  show ?L using ne d by (simp add: digitsColonDigitsAt_def tw dw)
qed

lemma testDigitsColonDigits_imp:
  "testDigitsColonDigits s \<Longrightarrow>
     \<exists>pre d1 d2 post. isDigit d1 \<and> isDigit d2 \<and> s = pre @ [d1, CHR '':'', d2] @ post"
proof (induction s)
  case Nil
  then show ?case by simp
next
  case (Cons c cs)
  show ?case
  proof (cases "digitsColonDigitsAt (c # cs)")
    case True
    then obtain ds d post where ne: "ds \<noteq> []" and all: "\<forall>c \<in> set ds. isDigit c"
      and d: "isDigit d" and s: "c # cs = ds @ CHR '':'' # d # post"
      unfolding digitsColonDigitsAt_iff by blast
    have "ds = butlast ds @ [last ds]" using ne by simp
    then have "c # cs = (butlast ds @ [last ds]) @ CHR '':'' # d # post" using s by metis
    then have eq: "c # cs = butlast ds @ [last ds, CHR '':'', d] @ post" by simp
    have l: "isDigit (last ds)" using ne all by simp
    show ?thesis
      by (rule exI[of _ "butlast ds"], rule exI[of _ "last ds"], rule exI[of _ d],
          rule exI[of _ post]) (simp only: l d eq simp_thms)
  next
    case False
    with Cons.prems have "testDigitsColonDigits cs" by simp
    from Cons.IH[OF this] obtain pre d1 d2 post where
      d1: "isDigit d1" and d2: "isDigit d2" and cs: "cs = pre @ [d1, CHR '':'', d2] @ post"
      by blast
    have eq: "c # cs = (c # pre) @ [d1, CHR '':'', d2] @ post" using cs by simp
    show ?thesis
      by (rule exI[of _ "c # pre"], rule exI[of _ d1], rule exI[of _ d2], rule exI[of _ post])
         (simp only: d1 d2 eq simp_thms)
  qed
qed

lemma testDigitsColonDigits_append:
  "isDigit d1 \<Longrightarrow> isDigit d2 \<Longrightarrow> testDigitsColonDigits (pre @ [d1, CHR '':'', d2] @ post)"
proof (induction pre)
  case Nil
  have "digitsColonDigitsAt ([d1] @ CHR '':'' # d2 # post)"
    unfolding digitsColonDigitsAt_iff
    by (rule exI[of _ "[d1]"], rule exI[of _ d2], rule exI[of _ post]) (simp add: Nil)
  then show ?case by simp
next
  case (Cons a pre)
  then show ?case by simp
qed

lemma testDigitsColonDigits_iff:
  "testDigitsColonDigits s \<longleftrightarrow>
     (\<exists>pre d1 d2 post. isDigit d1 \<and> isDigit d2 \<and> s = pre @ [d1, CHR '':'', d2] @ post)"
  using testDigitsColonDigits_imp testDigitsColonDigits_append by blast

subsection \<open>The naming block as a chain of \<open>||\<close>\<close>

lemma if_empty_str_or: "(if n = [] then x else n) = str_or n x"
  by (simp add: str_or_def)

lemma str_or_assoc: "str_or (str_or a b) c = str_or a (str_or b c)"
  by (simp add: str_or_def)

lemma str_or_Nil_right: "str_or a [] = a"
  by (simp add: str_or_def)

lemma firstNonEmpty_Cons: "firstNonEmpty (s # ss) = str_or s (firstNonEmpty ss)"
  by (simp add: str_or_def)

lemma label_step:
  "str_or n (case associatedLabel element of
         None \<Rightarrow> n
       | Some txt \<Rightarrow> str_or (replaceSpaceRuns False (toLowerCase (stripColonStar (trim txt)))) [])
    = str_or n (labelSignal element)"
  by (simp add: str_or_def labelSignal_def split: option.splits)

lemma sniff_step:
  "(if n = [] \<and> toLowerCase (tagName element) = ''select'' then
      (if looksLikeTime (allOptionsText element) then ''appointment_time''
       else if str_includes (allOptionsText element) ''Checkup''
               \<or> str_includes (allOptionsText element) ''Cleaning''
               \<or> str_includes (allOptionsText element) ''Consultation'' then ''service_type''
       else if str_includes (allOptionsText element) ''Extraction''
               \<or> str_includes (allOptionsText element) ''Root Canal''
               \<or> str_includes (allOptionsText element) ''Whitening'' then ''service_type''
       else n)
    else n) = str_or n (sniffedName element)"
  by (simp add: str_or_def sniffedName_def)

lemma inferFieldName_str_or:
  "inferFieldName index element =
     str_or (str_or (str_or (str_or (str_or (str_or (nameProp element) (idProp element))
        (attr_or (ariaLabel element) [])) (labelSignal element))
        (str_or (attr_or (dataName element) []) (attr_or (dataField element) [])))
        (sniffedName element)) (''field_'' @ decimal index)"
  unfolding inferFieldName_def Let_def
  by (simp only: sniff_step if_empty_str_or label_step)

lemma inferFieldName_chain: "inferFieldName index element = firstNonEmpty (signalChain index element)"
  by (simp only: inferFieldName_str_or signalChain_def firstNonEmpty_Cons firstNonEmpty.simps(1)
      str_or_assoc str_or_Nil_right)

lemma str_or_nonempty_right: "b \<noteq> [] \<Longrightarrow> str_or a b \<noteq> []"
  by (simp add: str_or_def)

lemma inferFieldName_nonempty: "inferFieldName index element \<noteq> []"
  unfolding inferFieldName_str_or
  by (rule str_or_nonempty_right) (simp add: decimal_nonempty)

subsection \<open>Totality of the inference\<close>

lemma bareControl_simps:
  "tagName (bareControl tag opts) = tag" "nameProp (bareControl tag opts) = []"
  "idProp (bareControl tag opts) = []" "ariaLabel (bareControl tag opts) = None"
  "labelForText (bareControl tag opts) = None" "parentLabelText (bareControl tag opts) = None"
  "dataName (bareControl tag opts) = None" "dataField (bareControl tag opts) = None"
  "optionTexts (bareControl tag opts) = opts"
  by (simp_all add: bareControl_def)

lemma decimal_digit: "n < 10 \<Longrightarrow> decimal n = [''0123456789'' ! n]"
  by (subst decimal.simps) simp

text \<open>
  C3.  The naming block of \<open>getFormFields\<close> is a total function whose result is never the
  empty string: every control of the form gets exactly one name (the list of names is as
  long as the list of controls and holds no empty string), and a control on which all
  seven earlier signals are empty is named \<open>field_<index>\<close>.
\<close>

theorem inferFieldName_total:
  "inferFieldName index element \<noteq> []
   \<and> length (formFieldNames inputs) = length inputs
   \<and> [] \<notin> set (formFieldNames inputs)
   \<and> (nameProp element = [] \<and> idProp element = [] \<and> attr_or (ariaLabel element) [] = []
        \<and> labelSignal element = [] \<and> attr_or (dataName element) [] = []
        \<and> attr_or (dataField element) [] = [] \<and> sniffedName element = []
       \<longrightarrow> inferFieldName index element = ''field_'' @ decimal index)"
proof (intro conjI impI)
  show "inferFieldName index element \<noteq> []" by (rule inferFieldName_nonempty)
  show "length (formFieldNames inputs) = length inputs" by (simp add: formFieldNames_def)
  show "[] \<notin> set (formFieldNames inputs)"
  proof
    assume "[] \<in> set (formFieldNames inputs)"
    then have "\<exists>i c. inferFieldName i c = []"
      by (simp add: formFieldNames_def image_iff split_beta) metis
    then show False by (simp add: inferFieldName_nonempty)
  qed
next
  assume "nameProp element = [] \<and> idProp element = [] \<and> attr_or (ariaLabel element) [] = []
        \<and> labelSignal element = [] \<and> attr_or (dataName element) [] = []
        \<and> attr_or (dataField element) [] = [] \<and> sniffedName element = []"
  then show "inferFieldName index element = ''field_'' @ decimal index"
    by (simp add: inferFieldName_str_or str_or_def)
qed

text \<open>The theorem at a bare \<open>input\<close>, the fourth control of its form.\<close>

theorem inferFieldName_total_witness:
  "(nameProp (bareControl ''INPUT'' []) = [] \<and> idProp (bareControl ''INPUT'' []) = []
    \<and> attr_or (ariaLabel (bareControl ''INPUT'' [])) [] = []
    \<and> labelSignal (bareControl ''INPUT'' []) = []
    \<and> attr_or (dataName (bareControl ''INPUT'' [])) [] = []
    \<and> attr_or (dataField (bareControl ''INPUT'' [])) [] = []
    \<and> sniffedName (bareControl ''INPUT'' []) = [])
   \<and> inferFieldName 3 (bareControl ''INPUT'' []) = ''field_3''
   \<and> [] \<notin> set (formFieldNames [bareControl ''INPUT'' [], bareControl ''TEXTAREA'' []])"
proof -
  have hyps: "nameProp (bareControl ''INPUT'' []) = [] \<and> idProp (bareControl ''INPUT'' []) = []
    \<and> attr_or (ariaLabel (bareControl ''INPUT'' [])) [] = []
    \<and> labelSignal (bareControl ''INPUT'' []) = []
    \<and> attr_or (dataName (bareControl ''INPUT'' [])) [] = []
    \<and> attr_or (dataField (bareControl ''INPUT'' [])) [] = []
    \<and> sniffedName (bareControl ''INPUT'' []) = []"
    by (simp add: bareControl_simps attr_or_def labelSignal_def associatedLabel_def
        sniffedName_def toLowerCase_def toLowerChar_def)
  from inferFieldName_total[of 3 "bareControl ''INPUT'' []"
        "[bareControl ''INPUT'' [], bareControl ''TEXTAREA'' []]"] hyps
  have "inferFieldName 3 (bareControl ''INPUT'' []) = ''field_'' @ decimal 3"
    and "[] \<notin> set (formFieldNames [bareControl ''INPUT'' [], bareControl ''TEXTAREA'' []])"
    by blast+
  then show ?thesis using hyps by (simp add: decimal_digit)
qed

subsection \<open>Precedence of the signals\<close>

lemma getFieldName_name: "nameProp element \<noteq> [] \<Longrightarrow> getFieldName element = nameProp element"
  by (simp add: getFieldName_def Let_def str_or_def)

text \<open>
  C4.  The naming block of \<open>getFormFields\<close> returns the first non-empty entry of the
  signal chain name, id, aria-label, label text, data-name, data-field, option sniffing,
  \<open>field_<index>\<close>; in particular a non-empty name attribute is returned verbatim whatever
  the other signals are, by \<open>getFormFields\<close> and by the helper \<open>getFieldName\<close> alike.
\<close>

theorem name_attribute_wins:
  "inferFieldName index element = firstNonEmpty (signalChain index element)
   \<and> (nameProp element \<noteq> [] \<longrightarrow>
        inferFieldName index element = nameProp element
        \<and> getFieldName element = nameProp element)"
  by (simp add: inferFieldName_chain[symmetric] getFieldName_name inferFieldName_str_or str_or_def)

text \<open>The theorem at a \<open>select\<close> that carries every kind of signal.\<close>

theorem name_attribute_wins_witness:
  "nameProp annotatedSelect \<noteq> [] \<and> inferFieldName 0 annotatedSelect = ''slot''
   \<and> getFieldName annotatedSelect = ''slot''
   \<and> firstNonEmpty (signalChain 0 annotatedSelect) = ''slot''"
proof -
  have n: "nameProp annotatedSelect = ''slot''" by (simp add: annotatedSelect_def)
  have ne: "nameProp annotatedSelect \<noteq> []" by (simp add: n)
  note w = name_attribute_wins[of 0 annotatedSelect]
  have c: "firstNonEmpty (signalChain 0 annotatedSelect) = inferFieldName 0 annotatedSelect"
    by (rule conjunct1[OF w, symmetric])
  have ab: "inferFieldName 0 annotatedSelect = nameProp annotatedSelect
            \<and> getFieldName annotatedSelect = nameProp annotatedSelect"
    by (rule mp[OF conjunct2[OF w] ne])
  show ?thesis by (simp add: ab c n)
qed

subsection \<open>Option sniffing\<close>

lemma looksLikeTime_iff: "looksLikeTime t \<longleftrightarrow> mentionsTime t"
  by (simp add: looksLikeTime_def mentionsTime_def str_includes_def testDigitsColonDigits_iff)

lemma sniffedName_select:
  "toLowerCase (tagName element) = ''select'' \<Longrightarrow>
   sniffedName element =
     (if mentionsTime (allOptionsText element) then ''appointment_time''
      else if mentionsService (allOptionsText element) then ''service_type'' else [])"
  by (simp add: sniffedName_def looksLikeTime_iff mentionsService_def str_includes_def)

lemma getFieldName_sniff:
  "toLowerCase (tagName element) = ''select'' \<Longrightarrow> nameProp element = [] \<Longrightarrow>
   idProp element = [] \<Longrightarrow> associatedLabel element = None \<Longrightarrow>
   getFieldName element = sniffedName element"
  by (simp add: getFieldName_def sniffedName_def Let_def str_or_def)

lemma inferFieldName_sniff:
  "nameProp element = [] \<Longrightarrow> idProp element = [] \<Longrightarrow> attr_or (ariaLabel element) [] = [] \<Longrightarrow>
   labelSignal element = [] \<Longrightarrow> attr_or (dataName element) [] = [] \<Longrightarrow>
   attr_or (dataField element) [] = [] \<Longrightarrow>
   inferFieldName index element = str_or (sniffedName element) (''field_'' @ decimal index)"
  by (simp add: inferFieldName_str_or str_or_def)

lemma allOptionsText_times:
  "allOptionsText (bareControl ''SELECT'' [''-'', ''9:00 AM'', ''10:00 AM'']) = ''- 9:00 AM 10:00 AM''"
  by code_simp

lemma allOptionsText_services:
  "allOptionsText (bareControl ''SELECT'' [''-'', ''Checkup'', ''Cleaning'']) = ''- Checkup Cleaning''"
  by code_simp

lemma select_lower: "toLowerCase ''SELECT'' = ''select''"
  by code_simp

lemma looks_times: "looksLikeTime ''- 9:00 AM 10:00 AM''"
  by code_simp

lemma looks_services: "\<not> looksLikeTime ''- Checkup Cleaning''"
  by code_simp

lemma incl_services: "str_includes ''- Checkup Cleaning'' ''Checkup''"
  by code_simp


lemma reaches_bare: "reachesSniffing (bareControl ''SELECT'' opts)"
  "reachesSniffingInGetFieldName (bareControl ''SELECT'' opts)"
  by (simp_all add: reachesSniffing_def reachesSniffingInGetFieldName_def bareControl_simps
      select_lower attr_or_def labelSignal_def associatedLabel_def)

lemma mentions_times: "mentionsTime (allOptionsText timeSelect)"
  by (simp add: timeSelect_def allOptionsText_times looksLikeTime_iff[symmetric] looks_times)

lemma mentions_services:
  "\<not> mentionsTime (allOptionsText serviceSelect)" "mentionsService (allOptionsText serviceSelect)"
  using looks_services incl_services
  by (simp_all add: serviceSelect_def allOptionsText_services looksLikeTime_iff[symmetric]
      mentionsService_def str_includes_def)

text \<open>
  C8.  For a \<open>select\<close> that reaches the option-sniffing stage, the space-joined
  non-blank option texts decide the name: \<open>appointment_time\<close> when they contain \<open>AM\<close>,
  \<open>PM\<close> or a digit, a colon and a digit in a row; otherwise \<open>service_type\<close> when they
  contain one of the six service words.  This holds for \<open>getFormFields\<close> and for
  \<open>getFieldName\<close>; the option lists \<open>["-","9:00 AM","10:00 AM"]\<close> and
  \<open>["-","Checkup","Cleaning"]\<close> give \<open>appointment_time\<close> and \<open>service_type\<close>.
\<close>

theorem option_sniffing:
  "(reachesSniffing element \<longrightarrow>
      (mentionsTime (allOptionsText element) \<longrightarrow>
         inferFieldName index element = ''appointment_time'')
      \<and> (\<not> mentionsTime (allOptionsText element) \<and> mentionsService (allOptionsText element) \<longrightarrow>
         inferFieldName index element = ''service_type''))
   \<and> (reachesSniffingInGetFieldName element \<longrightarrow>
      (mentionsTime (allOptionsText element) \<longrightarrow> getFieldName element = ''appointment_time'')
      \<and> (\<not> mentionsTime (allOptionsText element) \<and> mentionsService (allOptionsText element) \<longrightarrow>
         getFieldName element = ''service_type''))
   \<and> inferFieldName index timeSelect = ''appointment_time''
   \<and> getFieldName timeSelect = ''appointment_time''
   \<and> inferFieldName index serviceSelect = ''service_type''
   \<and> getFieldName serviceSelect = ''service_type''"
proof -
  have inf: "inferFieldName i e = str_or (sniffedName e) (''field_'' @ decimal i)"
    if "reachesSniffing e" for i e
    using that by (simp add: reachesSniffing_def inferFieldName_sniff)
  have get: "getFieldName e = sniffedName e" if "reachesSniffingInGetFieldName e" for e
    using that by (simp add: reachesSniffingInGetFieldName_def getFieldName_sniff)
  have sel1: "toLowerCase (tagName e) = ''select''" if "reachesSniffing e" for e
    using that by (simp add: reachesSniffing_def)
  have sel2: "toLowerCase (tagName e) = ''select''" if "reachesSniffingInGetFieldName e" for e
    using that by (simp add: reachesSniffingInGetFieldName_def)
  have A: "inferFieldName i e = ''appointment_time''"
    if "reachesSniffing e" "mentionsTime (allOptionsText e)" for i e
    using that by (simp add: inf sniffedName_select[OF sel1] str_or_def)
  have B: "inferFieldName i e = ''service_type''"
    if "reachesSniffing e" "\<not> mentionsTime (allOptionsText e)" "mentionsService (allOptionsText e)"
    for i e
    using that by (simp add: inf sniffedName_select[OF sel1] str_or_def)
  have C: "getFieldName e = ''appointment_time''"
    if "reachesSniffingInGetFieldName e" "mentionsTime (allOptionsText e)" for e
    using that by (simp add: get sniffedName_select[OF sel2])
  have D: "getFieldName e = ''service_type''"
    if "reachesSniffingInGetFieldName e" "\<not> mentionsTime (allOptionsText e)"
       "mentionsService (allOptionsText e)" for e
    using that by (simp add: get sniffedName_select[OF sel2])
  have rt: "reachesSniffing timeSelect" "reachesSniffingInGetFieldName timeSelect"
    and rs: "reachesSniffing serviceSelect" "reachesSniffingInGetFieldName serviceSelect"
    by (simp_all add: timeSelect_def serviceSelect_def reaches_bare)
  show ?thesis
    using A[of element index] B[of element index] C[of element] D[of element]
      A[OF rt(1) mentions_times, of index] C[OF rt(2) mentions_times]
      B[OF rs(1) mentions_services, of index] D[OF rs(2) mentions_services]
    by blast
qed

text \<open>The theorem at a 24-hour time list and at the service list.\<close>

theorem option_sniffing_witness:
  "reachesSniffing clockSelect \<and> reachesSniffingInGetFieldName clockSelect
   \<and> mentionsTime (allOptionsText clockSelect)
   \<and> inferFieldName 2 clockSelect = ''appointment_time''
   \<and> getFieldName clockSelect = ''appointment_time''
   \<and> reachesSniffing serviceSelect \<and> reachesSniffingInGetFieldName serviceSelect
   \<and> \<not> mentionsTime (allOptionsText serviceSelect) \<and> mentionsService (allOptionsText serviceSelect)
   \<and> inferFieldName 2 serviceSelect = ''service_type''
   \<and> getFieldName serviceSelect = ''service_type''"
proof -
  have r: "reachesSniffing clockSelect" "reachesSniffingInGetFieldName clockSelect"
    and rs: "reachesSniffing serviceSelect" "reachesSniffingInGetFieldName serviceSelect"
    by (simp_all add: clockSelect_def serviceSelect_def reaches_bare)
  have "looksLikeTime (allOptionsText clockSelect)" by code_simp
  then have m: "mentionsTime (allOptionsText clockSelect)" by (simp add: looksLikeTime_iff)
  show ?thesis
    using option_sniffing[of clockSelect 2] option_sniffing[of serviceSelect 2] r rs m
      mentions_services
    by blast
qed

subsection \<open>Intent analysis\<close>

lemma includesValue_allowed:
  "includesValue [''book_appointment'', ''other'', ''unclear''] v \<Longrightarrow> v \<in> allowedIntents"
  by (cases "([''book_appointment'', ''other'', ''unclear''], v)" rule: includesValue.cases)
     (auto simp: allowedIntents_def)

lemma allowed_includesValue:
  "v \<in> allowedIntents \<Longrightarrow>
   truthy v \<and> includesValue [''book_appointment'', ''other'', ''unclear''] v"
  by (auto simp: allowedIntents_def)

lemma unclear_allowed: "Some (JString ''unclear'') \<in> allowedIntents"
  by (simp add: allowedIntents_def)

lemma allowed_convertible: "v \<in> allowedIntents \<Longrightarrow> templateConvertible v"
  by (auto simp: allowedIntents_def templateConvertible_def)

lemma validation_condition:
  "(\<not> truthy v \<or> \<not> includesValue [''book_appointment'', ''other'', ''unclear''] v)
     \<longleftrightarrow> v \<notin> allowedIntents"
  using includesValue_allowed[of v] allowed_includesValue[of v] by blast

lemma validated_fields:
  "intent (validated result) \<in> allowedIntents"
  "response (validated result) = response result"
  "status (validated result) = status result"
  by (simp_all add: validated_def unclear_allowed)

lemma analyzeIntent_content:
  assumes "chatCompletionsContent env (userMessage t) = Inr (Some c)" "c \<noteq> []"
  shows "analyzeIntent env t =
     (if templateConvertible (response (parseIntent env c))
      then Inr (validated (parseIntent env c))
      else Inl (Error ''Cannot convert object to primitive value''))"
proof -
  have c: "templateConvertible (intent (validated (parseIntent env c)))"
    by (rule allowed_convertible) (rule validated_fields)
  have "analyzeIntent env t =
     (if templateConvertible (intent (validated (parseIntent env c)))
         \<and> templateConvertible (response (validated (parseIntent env c)))
      then Inr (validated (parseIntent env c))
      else Inl (Error ''Cannot convert object to primitive value''))"
    unfolding analyzeIntent_def Let_def validation_condition validated_def
    by (simp add: assms)
  then show ?thesis by (simp add: c validated_fields)
qed

lemma analyzeIntent_no_content:
  "chatCompletionsContent env (userMessage t) = Inr None
     \<or> chatCompletionsContent env (userMessage t) = Inr (Some []) \<Longrightarrow>
   analyzeIntent env t = Inl (Error ''No response from OpenAI'')"
  by (auto simp: analyzeIntent_def)

lemma analyzeIntent_chat_failure:
  "chatCompletionsContent env (userMessage t) = Inl e \<Longrightarrow> analyzeIntent env t = Inl e"
  by (simp add: analyzeIntent_def)

lemma parseIntent_unparsable:
  "jsonParse env c = None \<Longrightarrow> parseIntent env c = parseFallback"
  "jsonParse env c = Some JNull \<Longrightarrow> parseIntent env c = parseFallback"
  by (simp_all add: parseIntent_def)

lemma parseIntent_parsed:
  "jsonParse env c = Some ret \<Longrightarrow> getProperty ret ''intent'' = Inr i \<Longrightarrow>
   getProperty ret ''response'' = Inr rsp \<Longrightarrow>
   parseIntent env c = \<lparr>intent = i, response = rsp, status = ''success''\<rparr>"
  by (simp add: parseIntent_def)

lemma validated_parsed:
  "validated \<lparr>intent = i, response = rsp, status = ''success''\<rparr> = validatedResult i rsp"
  by (simp add: validated_def validatedResult_def)

lemma fallback_outcome:
  "templateConvertible (response parseFallback)" "errorOutcome (validated parseFallback)"
  by (simp_all add: parseFallback_def templateConvertible_def errorOutcome_def validated_def
      unclear_allowed)

lemma failed_outcome:
  "errorOutcome (failureResult e)" "intent (failureResult e) \<in> allowedIntents"
  by (simp_all add: errorOutcome_def failureResult_def unclear_allowed)

text \<open>\<open>processAudioCommand\<close> on each kind of answer of the services.\<close>

lemma processAudioCommand_no_file:
  "\<not> pathExists env p \<Longrightarrow>
   processAudioCommand env p = Inr (failureResult (Error (''Audio file not found: '' @ p)))"
  by (simp add: processAudioCommand_def transcribeAudio_def)

lemma processAudioCommand_transcription_failure:
  "pathExists env p \<Longrightarrow> transcriptionsCreate env p = Inl e \<Longrightarrow>
   processAudioCommand env p = Inr (failureResult e)"
  by (simp add: processAudioCommand_def transcribeAudio_def)

lemma processAudioCommand_transcribed:
  "pathExists env p \<Longrightarrow> transcriptionsCreate env p = Inr t \<Longrightarrow>
   processAudioCommand env p =
     (case analyzeIntent env t of Inr r \<Rightarrow> Inr r | Inl e \<Rightarrow> Inr (failureResult e))"
  by (simp add: processAudioCommand_def transcribeAudio_def split: sum.splits)

lemma processAudioCommand_returns:
  "\<exists>r. processAudioCommand env p = Inr r"
  by (simp add: processAudioCommand_def split: sum.splits)

lemma processAudioCommand_intent:
  assumes "processAudioCommand env p = Inr r"
  shows "intent r \<in> allowedIntents"
proof (cases "pathExists env p")
  case False
  with assms show ?thesis by (auto simp: processAudioCommand_no_file failed_outcome)
next
  case True
  show ?thesis
  proof (cases "transcriptionsCreate env p")
    case (Inl e)
    with True assms show ?thesis
      by (auto simp: processAudioCommand_transcription_failure failed_outcome)
  next
    case (Inr t)
    note p = processAudioCommand_transcribed[OF True Inr]
    show ?thesis
    proof (cases "chatCompletionsContent env (userMessage t)")
      case (Inl e)
      with assms show ?thesis
        by (auto simp: p analyzeIntent_chat_failure failed_outcome)
    next
      case content: (Inr content)
      show ?thesis
      proof (cases "content = None \<or> content = Some []")
        case True
        with content have "analyzeIntent env t = Inl (Error ''No response from OpenAI'')"
          by (intro analyzeIntent_no_content) auto
        with assms show ?thesis by (auto simp: p failed_outcome)
      next
        case False
        then obtain c where c: "content = Some c" "c \<noteq> []" by (cases content) auto
        from analyzeIntent_content[of env t c] content c assms show ?thesis
          by (auto simp: p failed_outcome validated_fields split: if_splits)
      qed
    qed
  qed
qed

text \<open>
  C9.  \<open>processAudioCommand\<close> never throws: it always returns a result, whose intent is
  one of \<open>book_appointment\<close>, \<open>other\<close>, \<open>unclear\<close>.  The result has status \<open>error\<close> and
  intent \<open>unclear\<close> when the file is missing, when the transcription request fails, when
  the chat request fails or answers without content, when the reply does not parse or
  parses to \<open>null\<close>, and when the parsed response cannot be converted to a string for the
  log.  Otherwise the result carries the parsed response with status \<open>success\<close>, and an
  intent outside the three is replaced by \<open>unclear\<close>.
\<close>

theorem processAudioCommand_total:
  "\<exists>r. processAudioCommand env p = Inr r
       \<and> intent r \<in> allowedIntents
       \<and> (\<not> pathExists env p \<longrightarrow> errorOutcome r)
       \<and> (transcriptionsCreate env p = Inl e \<longrightarrow> errorOutcome r)
       \<and> (pathExists env p \<and> transcriptionsCreate env p = Inr t \<longrightarrow>
            (chatCompletionsContent env (userMessage t) = Inl e \<longrightarrow> errorOutcome r)
            \<and> (chatCompletionsContent env (userMessage t) = Inr None
                 \<or> chatCompletionsContent env (userMessage t) = Inr (Some []) \<longrightarrow>
                errorOutcome r)
            \<and> (chatCompletionsContent env (userMessage t) = Inr (Some c) \<and> c \<noteq> [] \<longrightarrow>
                 (jsonParse env c = None \<longrightarrow> errorOutcome r)
                 \<and> (jsonParse env c = Some JNull \<longrightarrow> errorOutcome r)
                 \<and> (jsonParse env c = Some ret \<and> getProperty ret ''intent'' = Inr i
                      \<and> getProperty ret ''response'' = Inr rsp \<longrightarrow>
                    (templateConvertible rsp \<longrightarrow> r = validatedResult i rsp)
                    \<and> (\<not> templateConvertible rsp \<longrightarrow> errorOutcome r))))"
proof -
  from processAudioCommand_returns[of env p] obtain r where r: "processAudioCommand env p = Inr r"
    by blast
  have 1: "intent r \<in> allowedIntents" by (rule processAudioCommand_intent[OF r])
  have 2: "errorOutcome r" if "\<not> pathExists env p"
    using r that by (auto simp: processAudioCommand_no_file failed_outcome)
  have 3: "errorOutcome r" if "transcriptionsCreate env p = Inl e"
    using r that 2
    by (cases "pathExists env p") (auto simp: processAudioCommand_transcription_failure failed_outcome)
  have 4: "errorOutcome r"
    if "pathExists env p" "transcriptionsCreate env p = Inr t"
      "chatCompletionsContent env (userMessage t) = Inl e"
    using r that
    by (auto simp: processAudioCommand_transcribed analyzeIntent_chat_failure failed_outcome)
  have 5: "errorOutcome r"
    if "pathExists env p" "transcriptionsCreate env p = Inr t"
      "chatCompletionsContent env (userMessage t) = Inr None
         \<or> chatCompletionsContent env (userMessage t) = Inr (Some [])"
    using r that(1,2) analyzeIntent_no_content[OF that(3)]
    by (auto simp: processAudioCommand_transcribed failed_outcome)
  have 6: "errorOutcome r"
    if "pathExists env p" "transcriptionsCreate env p = Inr t"
      "chatCompletionsContent env (userMessage t) = Inr (Some c)" "c \<noteq> []"
      "jsonParse env c = None \<or> jsonParse env c = Some JNull"
    using r that(1,2,5) analyzeIntent_content[OF that(3,4)]
    by (auto simp: processAudioCommand_transcribed parseIntent_unparsable fallback_outcome)
  have 7: "r = validatedResult i rsp"
    if "pathExists env p" "transcriptionsCreate env p = Inr t"
      "chatCompletionsContent env (userMessage t) = Inr (Some c)" "c \<noteq> []"
      "jsonParse env c = Some ret" "getProperty ret ''intent'' = Inr i"
      "getProperty ret ''response'' = Inr rsp" "templateConvertible rsp"
    using r that(1,2,8) analyzeIntent_content[OF that(3,4)] parseIntent_parsed[OF that(5,6,7)]
    by (auto simp: processAudioCommand_transcribed validated_parsed)
  have 8: "errorOutcome r"
    if "pathExists env p" "transcriptionsCreate env p = Inr t"
      "chatCompletionsContent env (userMessage t) = Inr (Some c)" "c \<noteq> []"
      "jsonParse env c = Some ret" "getProperty ret ''intent'' = Inr i"
      "getProperty ret ''response'' = Inr rsp" "\<not> templateConvertible rsp"
    using r that(1,2,8) analyzeIntent_content[OF that(3,4)] parseIntent_parsed[OF that(5,6,7)]
    by (auto simp: processAudioCommand_transcribed failed_outcome)
  show ?thesis
    by (rule exI[of _ r]) (use r 1 2 3 4 5 6 7 8 in blast)
qed

text \<open>
  The theorem at each kind of failure (missing file, failed transcription request, failed
  chat request, reply without content, reply that is no JSON, reply \<open>null\<close>, response that
  cannot be logged) and at a reply whose intent is \<open>cancel\<close>.
\<close>

theorem processAudioCommand_total_witness:
  "\<not> pathExists noFileEnv recordingPath
   \<and> (\<exists>r. processAudioCommand noFileEnv recordingPath = Inr r \<and> errorOutcome r)
   \<and> transcriptionsCreate whisperDownEnv recordingPath = Inl serviceDown
   \<and> (\<exists>r. processAudioCommand whisperDownEnv recordingPath = Inr r \<and> errorOutcome r)
   \<and> chatCompletionsContent chatDownEnv (userMessage cancelTranscript) = Inl serviceDown
   \<and> (\<exists>r. processAudioCommand chatDownEnv recordingPath = Inr r \<and> errorOutcome r)
   \<and> chatCompletionsContent emptyReplyEnv (userMessage cancelTranscript) = Inr None
   \<and> (\<exists>r. processAudioCommand emptyReplyEnv recordingPath = Inr r \<and> errorOutcome r)
   \<and> jsonParse garbledEnv garbledReply = None
   \<and> (\<exists>r. processAudioCommand garbledEnv recordingPath = Inr r \<and> errorOutcome r)
   \<and> jsonParse nullReplyEnv nullReply = Some JNull
   \<and> (\<exists>r. processAudioCommand nullReplyEnv recordingPath = Inr r \<and> errorOutcome r)
   \<and> \<not> templateConvertible (Some toStringResponse)
   \<and> (\<exists>r. processAudioCommand toStringEnv recordingPath = Inr r \<and> errorOutcome r)
   \<and> Some (JString ''cancel'') \<notin> allowedIntents
   \<and> processAudioCommand cancelEnv recordingPath =
       Inr \<lparr>intent = Some (JString ''unclear''), response = Some (JString ''ok''),
            status = ''success''\<rparr>"
proof -
  define i where "i = Some (JString ''cancel'')"
  define rsp where "rsp = Some (JString ''ok'')"
  define b where "b = Some (JString ''book_appointment'')"
  note env_defs = cancelEnv_def noFileEnv_def whisperDownEnv_def chatDownEnv_def
    emptyReplyEnv_def garbledEnv_def nullReplyEnv_def toStringEnv_def
  have ex: "pathExists whisperDownEnv recordingPath" "pathExists chatDownEnv recordingPath"
    "pathExists emptyReplyEnv recordingPath" "pathExists garbledEnv recordingPath"
    "pathExists nullReplyEnv recordingPath" "pathExists toStringEnv recordingPath"
    "pathExists cancelEnv recordingPath"
    by (simp_all add: env_defs)
  have tr: "transcriptionsCreate chatDownEnv recordingPath = Inr cancelTranscript"
    "transcriptionsCreate emptyReplyEnv recordingPath = Inr cancelTranscript"
    "transcriptionsCreate garbledEnv recordingPath = Inr cancelTranscript"
    "transcriptionsCreate nullReplyEnv recordingPath = Inr cancelTranscript"
    "transcriptionsCreate toStringEnv recordingPath = Inr cancelTranscript"
    "transcriptionsCreate cancelEnv recordingPath = Inr cancelTranscript"
    by (simp_all add: env_defs)
  have nf: "\<not> pathExists noFileEnv recordingPath" by (simp add: env_defs)
  from processAudioCommand_total[of noFileEnv recordingPath] nf
  have a1: "\<exists>r. processAudioCommand noFileEnv recordingPath = Inr r \<and> errorOutcome r" by blast
  have wd: "transcriptionsCreate whisperDownEnv recordingPath = Inl serviceDown"
    by (simp add: env_defs)
  from processAudioCommand_total[of whisperDownEnv recordingPath serviceDown] wd
  have a2: "\<exists>r. processAudioCommand whisperDownEnv recordingPath = Inr r \<and> errorOutcome r"
    by blast
  have cd: "chatCompletionsContent chatDownEnv (userMessage cancelTranscript) = Inl serviceDown"
    by (simp add: env_defs)
  from processAudioCommand_total[of chatDownEnv recordingPath serviceDown cancelTranscript]
    ex(2) tr(1) cd
  have a3: "\<exists>r. processAudioCommand chatDownEnv recordingPath = Inr r \<and> errorOutcome r"
    by blast
  have er: "chatCompletionsContent emptyReplyEnv (userMessage cancelTranscript) = Inr None"
    by (simp add: env_defs)
  from processAudioCommand_total[of emptyReplyEnv recordingPath _ cancelTranscript]
    ex(3) tr(2) er
  have a4: "\<exists>r. processAudioCommand emptyReplyEnv recordingPath = Inr r \<and> errorOutcome r"
    by blast
  have gc: "chatCompletionsContent garbledEnv (userMessage cancelTranscript)
              = Inr (Some garbledReply) \<and> garbledReply \<noteq> []"
    by (simp add: env_defs garbledReply_def)
  have gp: "jsonParse garbledEnv garbledReply = None" by (simp add: env_defs)
  from processAudioCommand_total[of garbledEnv recordingPath _ cancelTranscript garbledReply]
    ex(4) tr(3) gc gp
  have a5: "\<exists>r. processAudioCommand garbledEnv recordingPath = Inr r \<and> errorOutcome r"
    by blast
  have nc: "chatCompletionsContent nullReplyEnv (userMessage cancelTranscript)
              = Inr (Some nullReply) \<and> nullReply \<noteq> []"
    by (simp add: env_defs nullReply_def)
  have np: "jsonParse nullReplyEnv nullReply = Some JNull" by (simp add: env_defs)
  from processAudioCommand_total[of nullReplyEnv recordingPath _ cancelTranscript nullReply]
    ex(5) tr(4) nc np
  have a6: "\<exists>r. processAudioCommand nullReplyEnv recordingPath = Inr r \<and> errorOutcome r"
    by blast
  have tc: "chatCompletionsContent toStringEnv (userMessage cancelTranscript)
              = Inr (Some toStringReply) \<and> toStringReply \<noteq> []"
    by (simp add: env_defs toStringReply_def)
  have tp: "jsonParse toStringEnv toStringReply = Some toStringJson
            \<and> getProperty toStringJson ''intent'' = Inr b
            \<and> getProperty toStringJson ''response'' = Inr (Some toStringResponse)"
    by (simp add: env_defs toStringJson_def b_def)
  have tn: "\<not> templateConvertible (Some toStringResponse)"
    by (simp add: templateConvertible_def toStringResponse_def)
  from processAudioCommand_total[of toStringEnv recordingPath _ cancelTranscript toStringReply
      toStringJson b "Some toStringResponse"] ex(6) tr(5) tc tp tn
  have a7: "\<exists>r. processAudioCommand toStringEnv recordingPath = Inr r \<and> errorOutcome r"
    by blast
  have cc: "chatCompletionsContent cancelEnv (userMessage cancelTranscript)
              = Inr (Some cancelReply) \<and> cancelReply \<noteq> []"
    by (simp add: env_defs cancelReply_def)
  have cp: "jsonParse cancelEnv cancelReply = Some cancelJson
            \<and> getProperty cancelJson ''intent'' = Inr i
            \<and> getProperty cancelJson ''response'' = Inr rsp"
    by (simp add: env_defs cancelJson_def i_def rsp_def)
  have cv: "templateConvertible rsp" by (simp add: templateConvertible_def rsp_def)
  have na: "i \<notin> allowedIntents" by (simp add: allowedIntents_def i_def)
  from processAudioCommand_total[of cancelEnv recordingPath _ cancelTranscript cancelReply
      cancelJson i rsp] ex(7) tr(6) cc cp cv
  have "processAudioCommand cancelEnv recordingPath = Inr (validatedResult i rsp)"
    by blast
  then have a8: "processAudioCommand cancelEnv recordingPath =
       Inr \<lparr>intent = Some (JString ''unclear''), response = Some (JString ''ok''),
            status = ''success''\<rparr>"
    using na by (simp add: validatedResult_def rsp_def)
  from nf a1 wd a2 cd a3 er a4 gp a5 np a6 tn a7 na a8 show ?thesis
    unfolding i_def by blast
qed

subsection \<open>Audio recorder\<close>

lemma stopRecording_guard:
  "\<not> isCurrentlyRecording s \<or> recordingProcess s = None \<Longrightarrow>
   stopRecording env s = (Inl (Error ''No recording in progress''), s)"
  by (simp add: stopRecording_def)

lemma stopRecording_past_guard:
  "isCurrentlyRecording s \<Longrightarrow> recordingProcess s \<noteq> None \<Longrightarrow>
   fullyReset (snd (stopRecording env s))"
  by (auto simp: stopRecording_def stopFailed_def fullyReset_def isRecording_def Let_def
      split: option.splits sum.splits)

lemma startRecording_invariant:
  "isCurrentlyRecording s \<longrightarrow> recordingProcess s \<noteq> None \<Longrightarrow>
   isCurrentlyRecording (snd (startRecording env s)) \<longrightarrow>
     recordingProcess (snd (startRecording env s)) \<noteq> None"
  by (auto simp: startRecording_def startFailed_def Let_def split: option.splits sum.splits)

lemma stopRecording_invariant:
  "isCurrentlyRecording s \<longrightarrow> recordingProcess s \<noteq> None \<Longrightarrow>
   isCurrentlyRecording (snd (stopRecording env s)) \<longrightarrow>
     recordingProcess (snd (stopRecording env s)) \<noteq> None"
  by (auto simp: stopRecording_def stopFailed_def Let_def split: option.splits sum.splits)

lemma reachable_invariant:
  "reachable s \<Longrightarrow> isCurrentlyRecording s \<longrightarrow> recordingProcess s \<noteq> None"
proof (induction rule: reachable.induct)
  case init
  show ?case by (simp add: newRecorder_def)
next
  case (start s env)
  then show ?case by (intro startRecording_invariant)
next
  case (stop s env')
  then show ?case by (intro stopRecording_invariant)
next
  case (error_event s)
  show ?case by (simp add: onProcessError_def)
qed

lemma stopRecording_not_recording:
  assumes "reachable s"
  shows "\<not> isRecording (snd (stopRecording env s))"
proof (cases "isCurrentlyRecording s \<and> recordingProcess s \<noteq> None")
  case True
  then show ?thesis using stopRecording_past_guard[of s env] by (simp add: fullyReset_def)
next
  case False
  with reachable_invariant[OF assms] have "\<not> isCurrentlyRecording s" by blast
  then show ?thesis by (simp add: stopRecording_guard isRecording_def)
qed

lemma startRecording_permitted:
  "\<not> isRecording s \<Longrightarrow> fst (startRecording env s) \<noteq> Inl (Error ''Recording is already in progress'')"
  by (auto simp: startRecording_def startFailed_def isRecording_def Let_def
      split: option.splits sum.splits)


lemma second_stop_fails:
  "\<not> isRecording s \<Longrightarrow> fst (stopRecording env s) = Inl (Error ''No recording in progress'')"
  by (simp add: stopRecording_guard isRecording_def)

text \<open>
  C10, as amended.  A call of \<open>stopRecording\<close> that gets past the guard, whether it
  returns the path or throws from its \<open>try\<close> block, leaves the recorder fully reset.
  In every reachable state, after any call of \<open>stopRecording\<close> (rejected by the guard or
  not) \<open>isRecording()\<close> is false, \<open>startRecording\<close> is not refused as already in
  progress, and a second \<open>stopRecording\<close> throws \<open>No recording in progress\<close>.
\<close>

theorem stopRecording_resets:
  "(isCurrentlyRecording s \<and> recordingProcess s \<noteq> None \<longrightarrow>
      fullyReset (snd (stopRecording env s)))
   \<and> (reachable s \<longrightarrow>
        \<not> isRecording (snd (stopRecording env s))
        \<and> fst (startRecording env1 (snd (stopRecording env s)))
            \<noteq> Inl (Error ''Recording is already in progress'')
        \<and> fst (stopRecording env2 (snd (stopRecording env s)))
            = Inl (Error ''No recording in progress''))"
proof (intro conjI impI)
  assume "isCurrentlyRecording s \<and> recordingProcess s \<noteq> None"
  then show "fullyReset (snd (stopRecording env s))"
    by (simp add: stopRecording_past_guard)
next
  assume r: "reachable s"
  show "\<not> isRecording (snd (stopRecording env s))"
    by (rule stopRecording_not_recording[OF r])
  then show "fst (startRecording env1 (snd (stopRecording env s)))
            \<noteq> Inl (Error ''Recording is already in progress'')"
    by (rule startRecording_permitted)
  from \<open>\<not> isRecording (snd (stopRecording env s))\<close>
  show "fst (stopRecording env2 (snd (stopRecording env s)))
            = Inl (Error ''No recording in progress'')"
    by (rule second_stop_fails)
qed

lemma decimal_timestamp: "decimal 1759550400000 = ''1759550400000''"
  by (simp add: decimal.simps)

lemma whileRecording_eval:
  "whileRecording =
     \<lparr>isCurrentlyRecording = True, recordingProcess = Some 4242,
      audioFilePath = ''/app/temp/recording_1759550400000.wav'', startTime = 1759550400000\<rparr>"
  by (simp add: whileRecording_def startRecording_def soxStart_def newRecorder_def Let_def
      decimal_timestamp pathJoin_def)

lemma reachable_whileRecording: "reachable whileRecording"
  unfolding whileRecording_def by (rule reachable.start[OF reachable.init])

lemma reachable_afterSoxError: "reachable afterSoxError"
  unfolding afterSoxError_def by (rule reachable.error_event[OF reachable.start[OF reachable.init]])

text \<open>The theorem at a running recording whose file was never written.\<close>

theorem stopRecording_resets_witness:
  "isCurrentlyRecording whileRecording \<and> recordingProcess whileRecording \<noteq> None
   \<and> reachable whileRecording
   \<and> fst (stopRecording noFile whileRecording)
       = Inl (Error ''Failed to stop recording: Recording file was not created'')
   \<and> fullyReset (snd (stopRecording noFile whileRecording))
   \<and> \<not> isRecording (snd (stopRecording noFile whileRecording))
   \<and> fst (startRecording soxStart (snd (stopRecording noFile whileRecording)))
       \<noteq> Inl (Error ''Recording is already in progress'')
   \<and> fst (stopRecording noFile (snd (stopRecording noFile whileRecording)))
       = Inl (Error ''No recording in progress'')"
proof -
  have g: "isCurrentlyRecording whileRecording \<and> recordingProcess whileRecording \<noteq> None"
    by (simp add: whileRecording_eval)
  have f: "fst (stopRecording noFile whileRecording)
       = Inl (Error ''Failed to stop recording: Recording file was not created'')"
    by (simp add: whileRecording_eval stopRecording_def noFile_def stopFailed_def)
  note t = stopRecording_resets[of whileRecording noFile soxStart noFile]
  from t g have a: "fullyReset (snd (stopRecording noFile whileRecording))" by blast
  from t reachable_whileRecording
  have b: "\<not> isRecording (snd (stopRecording noFile whileRecording))
        \<and> fst (startRecording soxStart (snd (stopRecording noFile whileRecording)))
            \<noteq> Inl (Error ''Recording is already in progress'')
        \<and> fst (stopRecording noFile (snd (stopRecording noFile whileRecording)))
            = Inl (Error ''No recording in progress'')" by blast
  from g reachable_whileRecording f a b show ?thesis by blast
qed

lemma afterSoxError_eval:
  "afterSoxError =
     \<lparr>isCurrentlyRecording = False, recordingProcess = Some 4242,
      audioFilePath = ''/app/temp/recording_1759550400000.wav'', startTime = 1759550400000\<rparr>"
  using whileRecording_eval by (simp add: afterSoxError_def whileRecording_def onProcessError_def)

text \<open>
  C10 as stated fails: after the child process has reported an error, \<open>stopRecording\<close>
  is rejected by the guard, throws, and leaves the process handle and the stored path in
  place.
\<close>

theorem stopRecording_stale_counterexample:
  "reachable afterSoxError
   \<and> stopRecording noFile afterSoxError = (Inl (Error ''No recording in progress''), afterSoxError)
   \<and> recordingProcess (snd (stopRecording noFile afterSoxError)) = Some 4242
   \<and> audioFilePath (snd (stopRecording noFile afterSoxError))
       = ''/app/temp/recording_1759550400000.wav''
   \<and> \<not> fullyReset (snd (stopRecording noFile afterSoxError))"
proof -
  have n: "\<not> isCurrentlyRecording afterSoxError" by (simp add: afterSoxError_eval)
  have s: "stopRecording noFile afterSoxError
             = (Inl (Error ''No recording in progress''), afterSoxError)"
    using n by (simp add: stopRecording_guard)
  show ?thesis
    unfolding s using reachable_afterSoxError
    by (simp add: afterSoxError_eval fullyReset_def)
qed


section \<open>Verified properties of the form filler\<close>

subsection \<open>Running computations\<close>

lemma io_bind_Inr: "io_bind (Inr x, w) f = (fst (f x), w @ snd (f x))"
  by (simp add: io_bind_def split: prod.splits)

lemma io_bind_Inl: "io_bind (Inl e, w) f = (Inl e, w)"
  by (simp add: io_bind_def)

lemma io_bind_return: "io_bind (io_return x) f = f x"
  by (simp add: io_bind_def io_return_def split: prod.splits)

lemma io_then_Inr: "io_then (Inr x, w) k = (fst k, w @ snd k)"
  by (simp add: io_then_def io_bind_Inr)

lemma io_then_Inl: "io_then (Inl e, w) k = (Inl e, w)"
  by (simp add: io_then_def io_bind_Inl)

lemma try_catch_Inr: "try_catch (Inr x, w) h = (Inr x, w)"
  by (simp add: try_catch_def)

lemma try_catch_Inl: "try_catch (Inl e, w) h = (fst (h e), w @ snd (h e))"
  by (simp add: try_catch_def split: prod.splits)

lemma perform_ok: "fault pg c = None \<Longrightarrow> perform pg c v = (Inr v, [Done c])"
  by (simp add: perform_def)

lemma perform_fault: "fault pg c = Some e \<Longrightarrow> perform pg c v = (Inl e, [Failed c])"
  by (simp add: perform_def)

lemma io_return_pair: "io_return x = (Inr x, [])"
  by (simp add: io_return_def)

lemma io_throw_pair: "io_throw e = (Inl e, [])"
  by (simp add: io_throw_def)

lemmas run_simps =
  io_bind_Inr io_bind_Inl io_then_Inr io_then_Inl try_catch_Inr try_catch_Inl io_return_pair
  io_throw_pair

text \<open>What it takes for a sequential composition to return.\<close>

lemma io_bind_returns:
  "io_bind m f = (Inr y, w) \<longleftrightarrow>
     (\<exists>x w1 w2. m = (Inr x, w1) \<and> f x = (Inr y, w2) \<and> w = w1 @ w2)"
proof (cases m)
  case (Pair r w1)
  show ?thesis
  proof (cases r)
    case (Inl e)
    then show ?thesis using Pair by (simp add: io_bind_Inl)
  next
    case (Inr x)
    then show ?thesis using Pair
      by (cases "f x") (auto simp: io_bind_Inr)
  qed
qed

lemma io_then_returns:
  "io_then m k = (Inr y, w) \<longleftrightarrow>
     (\<exists>x w1 w2. m = (Inr x, w1) \<and> k = (Inr y, w2) \<and> w = w1 @ w2)"
  by (simp add: io_then_def io_bind_returns)

lemma io_seq_Cons_returns:
  "io_seq (m # ms) = (Inr (), w) \<longleftrightarrow>
     (\<exists>w1 w2. m = (Inr (), w1) \<and> io_seq ms = (Inr (), w2) \<and> w = w1 @ w2)"
  by (simp add: io_then_returns)

text \<open>A handler that returns makes the \<open>try\<close> statement return.\<close>

lemma try_catch_returns:
  assumes "\<And>e. \<exists>y w. h e = (Inr y, w)"
  shows "\<exists>y w. try_catch m h = (Inr y, w)"
proof (cases m)
  case (Pair r w1)
  show ?thesis
  proof (cases r)
    case (Inl e)
    from assms[of e] obtain y w where "h e = (Inr y, w)" by blast
    then show ?thesis using Pair Inl by (simp add: try_catch_Inl)
  next
    case (Inr x)
    then show ?thesis using Pair by (simp add: try_catch_Inr)
  qed
qed

subsection \<open>The cascade\<close>

lemma cascade_is_firstSuccess:
  "io_bind s1 (\<lambda>b1.
     io_bind (if \<not> b1 then s2 else io_return b1) (\<lambda>b2.
     io_bind (if \<not> b2 then s3 else io_return b2) (\<lambda>b3.
     if \<not> b3 then s4 else io_return b3)))
   = firstSuccess [s1, s2, s3, s4]"
proof -
  have last: "io_bind s (\<lambda>ok. if ok then io_return True else io_return False) = s" for s :: "bool io"
    by (cases s; cases "fst s") (auto simp: run_simps)
  have step: "io_bind s (\<lambda>b. io_bind (if \<not> b then t else io_return b) k)
              = io_bind s (\<lambda>ok. if ok then k True else io_bind t k)"
    for s t :: "bool io" and k :: "bool \<Rightarrow> bool io"
    by (rule arg_cong[where f="io_bind s"]) (auto simp: fun_eq_iff io_bind_return)
  have flip: "(\<lambda>b3. if \<not> b3 then s4 else io_return b3)
              = (\<lambda>ok. if ok then io_return True else s4)"
    by (auto simp: fun_eq_iff)
  show ?thesis
    by (simp add: step io_bind_return last flip cong: if_cong)
qed

lemma submitCascade_firstSuccess:
  "submitCascade pg = firstSuccess [strategy1 pg, strategy2 pg, strategy3 pg, strategy4 pg]"
  unfolding submitCascade_def by (rule cascade_is_firstSuccess)


subsection \<open>Reaching the submission stage\<close>

lemma submitForm_returns: "\<exists>b w. submitForm pg = (Inr b, w)"
proof -
  have "\<exists>y w. (\<lambda>error. io_return False) e = (Inr y, w)" for e :: js_error
    by (auto simp: io_return_pair)
  from try_catch_returns[of "\<lambda>error. io_return False", OF this]
  show ?thesis unfolding submitForm_def by blast
qed

lemma fillAppointmentForm_after_fields:
  assumes "fillFields config pg data = (Inr (), w0)"
  shows "fillAppointmentForm config (Some pg) data
           = (fst (submitForm pg), w0 @ snd (submitForm pg))"
proof -
  from submitForm_returns[of pg] obtain b w where s: "submitForm pg = (Inr b, w)" by blast
  show ?thesis
    by (simp add: fillAppointmentForm_def assms s run_simps)
qed



subsection \<open>Strategy 1 on a visible submit button\<close>

lemma tryButton_clicks:
  assumes "fault pg (IsVisible (First (Css s))) = None" "visible pg (First (Css s))"
    and "fault pg (ScrollIntoViewIfNeeded (First (Css s))) = None"
    and "fault pg (WaitForTimeout 300) = None" "fault pg (Click (First (Css s))) = None"
  shows "tryButton pg s =
           (Inr True, [Done (IsVisible (First (Css s))),
                       Done (ScrollIntoViewIfNeeded (First (Css s))),
                       Done (WaitForTimeout 300), Done (Click (First (Css s)))])"
  by (simp add: tryButton_def Let_def isVisible_def scrollIntoViewIfNeeded_def waitForTimeout_def
      click_def perform_ok assms run_simps)

lemma firstSuccess_first:
  "s = (Inr True, w) \<Longrightarrow> firstSuccess (s # ss) = (Inr True, w)"
  by (simp add: run_simps)

lemma trySelectors_first:
  "tryButton pg s = (Inr True, w) \<Longrightarrow> trySelectors pg (s # rest) = (Inr True, w)"
  by (simp add: run_simps)


lemmas method_defs =
  isVisible_def fill_def click_def scrollIntoViewIfNeeded_def waitForTimeout_def inputValue_def
  textContent_def allOf_def selectOption_def hasOption_def evaluateOptions_def takeScreenshot_def
  perform_def

lemmas field_defs =
  fillFields_def openForm_def fillIfVisible_def fillName_def fillPhone_def fillEmail_def
  fillAppointmentDate_def selectSecondOption_def selectAppointmentTime_def selectServiceType_def
  fillComments_def

lemmas submit_defs =
  submitForm_def submitCascade_def strategy1_def strategy2_def strategy3_def strategy4_def
  tryButton_def evaluateClickSubmit_def clickSubmitScript_def looksLikeSubmit_def
  submitSelectors_def textButtons_def

lemmas locator_defs =
  nameField_def phoneField_def emailField_def commentsField_def dateInput_def
  defaultDateInput_def timeDropdown_def firstDropdown_def serviceDropdown_def submitButton_def
  bookButton_def

lemmas dentist_defs =
  dentistPage_def dentistConfig_def hardcodedData_def visibleOnDentistPage_def timeOptions_def
  serviceOptions_def

lemma fillIfVisible_ok:
  "fault pg (IsVisible l) = None \<Longrightarrow> visible pg l \<Longrightarrow> fault pg (Fill l v) = None \<Longrightarrow>
   fillIfVisible pg l v = (Inr (), [Done (IsVisible l), Done (Fill l v)])"
  by (simp add: fillIfVisible_def isVisible_def fill_def perform_ok run_simps)

lemma visible_fields:
  "set (take 9 visibleOnDentistPage) =
     {nameField, phoneField, emailField, dateInput, defaultDateInput, timeDropdown,
      firstDropdown, serviceDropdown, commentsField}"
  by (simp add: visibleOnDentistPage_def)

lemma findMatchingOption_checkup: "findMatchingOption ''Checkup'' 0 serviceOptions = Some 2"
  by (simp add: serviceOptions_def toLowerCase_def toLowerChar_def str_includes_def
      sublist_Cons_right)

text \<open>
  The field stage on any page that shows the nine field locators of the dentist page with
  its options, and on which only clicks can reject.
\<close>

lemma dentist_like_fields:
  assumes nf: "\<And>c. \<not> isClickCall c \<Longrightarrow> fault pg c = None"
    and vis: "\<And>l. l \<in> set (take 9 visibleOnDentistPage) \<Longrightarrow> visible pg l"
    and opts: "optionsOf pg timeDropdown = timeOptions" "optionsOf pg serviceDropdown = serviceOptions"
  shows "fillFields dentistConfig pg hardcodedData = (Inr (), dentistFieldEvents)"
proof -
  note v = vis[unfolded visible_fields, simplified]
  have "openForm dentistConfig pg =
          (Inr (), [Done (Goto ''https://dr-rajivs-smile-space.lovable.app/''),
                    Done (WaitForSelector ''form''), Done EvaluateScrollToForm,
                    Done (WaitForTimeout 500)])"
    by (simp add: openForm_def waitForTimeout_def perform_ok nf run_simps dentistConfig_def)
  moreover have "fillName pg hardcodedData
                   = (Inr (), [Done (IsVisible nameField), Done (Fill nameField ''Hitesh Jain'')])"
    by (simp add: fillName_def hardcodedData_def fillIfVisible_ok nf v)
  moreover have "fillPhone pg hardcodedData
                   = (Inr (), [Done (IsVisible phoneField), Done (Fill phoneField ''1234567890'')])"
    by (simp add: fillPhone_def hardcodedData_def fillIfVisible_ok nf v)
  moreover have "fillEmail pg hardcodedData
                   = (Inr (), [Done (IsVisible emailField),
                               Done (Fill emailField ''hitesh@gmail.com'')])"
    by (simp add: fillEmail_def hardcodedData_def fillIfVisible_ok nf v)
  moreover have "fillAppointmentDate pg hardcodedData
                   = (Inr (), [Done (IsVisible dateInput), Done (Fill dateInput ''2025-10-10'')])"
    by (simp add: fillAppointmentDate_def hardcodedData_def fillIfVisible_ok nf v run_simps)
  moreover have "selectAppointmentTime pg hardcodedData
                   = (Inr (), [Done (IsVisible timeDropdown),
                               Done (SelectOption timeDropdown (ByLabel ''10:00 AM''))])"
    by (simp add: selectAppointmentTime_def hardcodedData_def isVisible_def selectOption_def
        hasOption_def opts timeOptions_def perform_ok nf v run_simps)
  moreover have "selectServiceType pg hardcodedData
                   = (Inr (), [Done (IsVisible serviceDropdown),
                               Done (EvaluateOptions serviceDropdown),
                               Done (SelectOption serviceDropdown (ByIndex 2))])"
  proof -
    have s: "serviceType hardcodedData = ''Checkup''" by (simp add: hardcodedData_def)
    have h: "hasOption serviceOptions (ByIndex 2)" by (simp add: hasOption_def serviceOptions_def)
    show ?thesis
      unfolding selectServiceType_def s
      by (simp add: isVisible_def evaluateOptions_def selectOption_def opts h
          findMatchingOption_checkup perform_ok nf v run_simps)
  qed
  moreover have "fillComments pg hardcodedData
                   = (Inr (), [Done (IsVisible commentsField),
                               Done (Fill commentsField ''I have a toothache'')])"
    by (simp add: fillComments_def hardcodedData_def fillIfVisible_ok nf v)
  moreover have "takeScreenshot pg = (Inr (), [Done EnsureDir, Done Screenshot])"
    by (simp add: takeScreenshot_def perform_ok nf run_simps)
  ultimately show ?thesis
    by (simp add: fillFields_def run_simps dentistFieldEvents_def)
qed

subsection \<open>One selector of a loop\<close>

lemma tryButton_hidden:
  "fault pg (IsVisible (First (Css s))) = None \<Longrightarrow> \<not> visible pg (First (Css s)) \<Longrightarrow>
   tryButton pg s = (Inr False, [Done (IsVisible (First (Css s)))])"
  by (simp add: tryButton_def Let_def isVisible_def perform_ok run_simps)

lemma tryButton_click_rejected:
  "fault pg (IsVisible (First (Css s))) = None \<Longrightarrow> visible pg (First (Css s)) \<Longrightarrow>
   fault pg (ScrollIntoViewIfNeeded (First (Css s))) = None \<Longrightarrow>
   fault pg (WaitForTimeout 300) = None \<Longrightarrow> fault pg (Click (First (Css s))) = Some e \<Longrightarrow>
   tryButton pg s =
     (Inr False, [Done (IsVisible (First (Css s))), Done (ScrollIntoViewIfNeeded (First (Css s))),
                  Done (WaitForTimeout 300), Failed (Click (First (Css s)))])"
  by (simp add: tryButton_def Let_def isVisible_def scrollIntoViewIfNeeded_def waitForTimeout_def
      click_def perform_ok perform_fault run_simps)

subsection \<open>The disabled submit button\<close>

lemma disabledSubmit_fault:
  "\<not> isClickCall c \<Longrightarrow> fault disabledSubmitPage c = None"
  "fault disabledSubmitPage (Click l) = Some clickTimeout"
  by (cases c) (simp_all add: disabledSubmitPage_def)

lemma disabledSubmit_page:
  "visible disabledSubmitPage l = (l \<in> set visibleOnDentistPage)"
  "optionsOf disabledSubmitPage timeDropdown = timeOptions"
  "optionsOf disabledSubmitPage serviceDropdown = serviceOptions"
  "countOf disabledSubmitPage (Css ''form button'') = 1"
  by (simp_all add: disabledSubmitPage_def dentistPage_def locator_defs)

lemma disabledSubmit_fields:
  "fillFields dentistConfig disabledSubmitPage hardcodedData = (Inr (), dentistFieldEvents)"
  by (rule dentist_like_fields)
     (auto simp: disabledSubmit_fault disabledSubmit_page dest: in_set_takeD)

lemma visible_buttons:
  "submitButton \<in> set visibleOnDentistPage"
  "First (Css ''input[type=\"submit\"]'') \<notin> set visibleOnDentistPage"
  "First (Css ''form button:last-child'') \<in> set visibleOnDentistPage"
  "First (Css ''form button'') \<in> set visibleOnDentistPage"
  "First (Css ''button:has-text(\"Submit\")'') \<notin> set visibleOnDentistPage"
  "bookButton \<in> set visibleOnDentistPage"
  "First (Css ''button:has-text(\"Send\")'') \<notin> set visibleOnDentistPage"
  "First (Css ''button:has-text(\"Confirm\")'') \<notin> set visibleOnDentistPage"
  "First (Css ''[role=\"button\"]:has-text(\"Submit\")'') \<notin> set visibleOnDentistPage"
  "First (Css ''[role=\"button\"]:has-text(\"Book\")'') \<notin> set visibleOnDentistPage"
  "Nth (Css ''form button'') 0 \<in> set visibleOnDentistPage"
  by (simp_all add: visibleOnDentistPage_def locator_defs)

lemma disabledSubmit_strategy1:
  "strategy1 disabledSubmitPage = (Inr False, disabledStrategy1Events)"
proof -
  note b = visible_buttons[unfolded submitButton_def bookButton_def]
  note f = disabledSubmit_fault disabledSubmit_page(1)
  have 1: "tryButton disabledSubmitPage ''button[type=\"submit\"]'' =
     (Inr False, [Done (IsVisible submitButton), Done (ScrollIntoViewIfNeeded submitButton),
                  Done (WaitForTimeout 300), Failed (Click submitButton)])"
    unfolding submitButton_def by (rule tryButton_click_rejected) (simp_all add: f b)
  have 2: "tryButton disabledSubmitPage ''input[type=\"submit\"]'' =
     (Inr False, [Done (IsVisible (First (Css ''input[type=\"submit\"]'')))])"
    by (rule tryButton_hidden) (simp_all add: f b)
  have 3: "tryButton disabledSubmitPage ''form button:last-child'' =
     (Inr False, [Done (IsVisible (First (Css ''form button:last-child''))),
                  Done (ScrollIntoViewIfNeeded (First (Css ''form button:last-child''))),
                  Done (WaitForTimeout 300), Failed (Click (First (Css ''form button:last-child'')))])"
    by (rule tryButton_click_rejected) (simp_all add: f b)
  have 4: "tryButton disabledSubmitPage ''form button'' =
     (Inr False, [Done (IsVisible (First (Css ''form button''))),
                  Done (ScrollIntoViewIfNeeded (First (Css ''form button''))),
                  Done (WaitForTimeout 300), Failed (Click (First (Css ''form button'')))])"
    by (rule tryButton_click_rejected) (simp_all add: f b)
  show ?thesis
    unfolding strategy1_def submitSelectors_def
    by (simp add: 1 2 3 4 run_simps disabledStrategy1Events_def)
qed


lemma disabledSubmit_strategy2:
  "strategy2 disabledSubmitPage = (Inr False, disabledStrategy2Events)"
proof -
  note b = visible_buttons[unfolded submitButton_def bookButton_def]
  note f = disabledSubmit_fault disabledSubmit_page(1)
  have 1: "tryButton disabledSubmitPage ''button:has-text(\"Submit\")'' =
     (Inr False, [Done (IsVisible (First (Css ''button:has-text(\"Submit\")'')))])"
    by (rule tryButton_hidden) (simp_all add: f b)
  have 2: "tryButton disabledSubmitPage ''button:has-text(\"Book\")'' =
     (Inr False, [Done (IsVisible bookButton), Done (ScrollIntoViewIfNeeded bookButton),
                  Done (WaitForTimeout 300), Failed (Click bookButton)])"
    unfolding bookButton_def by (rule tryButton_click_rejected) (simp_all add: f b)
  have 3: "tryButton disabledSubmitPage ''button:has-text(\"Send\")'' =
     (Inr False, [Done (IsVisible (First (Css ''button:has-text(\"Send\")'')))])"
    by (rule tryButton_hidden) (simp_all add: f b)
  have 4: "tryButton disabledSubmitPage ''button:has-text(\"Confirm\")'' =
     (Inr False, [Done (IsVisible (First (Css ''button:has-text(\"Confirm\")'')))])"
    by (rule tryButton_hidden) (simp_all add: f b)
  have 5: "tryButton disabledSubmitPage ''[role=\"button\"]:has-text(\"Submit\")'' =
     (Inr False, [Done (IsVisible (First (Css ''[role=\"button\"]:has-text(\"Submit\")'')))])"
    by (rule tryButton_hidden) (simp_all add: f b)
  have 6: "tryButton disabledSubmitPage ''[role=\"button\"]:has-text(\"Book\")'' =
     (Inr False, [Done (IsVisible (First (Css ''[role=\"button\"]:has-text(\"Book\")'')))])"
    by (rule tryButton_hidden) (simp_all add: f b)
  show ?thesis
    unfolding strategy2_def textButtons_def
    by (simp add: 1 2 3 4 5 6 run_simps disabledStrategy2Events_def)
qed

lemma disabledSubmit_strategy3:
  "strategy3 disabledSubmitPage = (Inl clickTimeout, disabledStrategy3Events)"
  by (simp add: strategy3_def allOf_def textContent_def scrollIntoViewIfNeeded_def
      waitForTimeout_def click_def perform_ok perform_fault disabledSubmit_fault
      disabledSubmit_page run_simps Let_def disabledStrategy3Events_def)

lemma disabledSubmit_submitForm:
  "submitForm disabledSubmitPage = (Inr False, disabledSubmitEvents)"
  by (simp add: submitForm_def submitCascade_def disabledSubmit_strategy1
      disabledSubmit_strategy2 disabledSubmit_strategy3 run_simps disabledSubmitEvents_def)

subsection \<open>The submit button\<close>

lemma firstSuccess_simps:
  "s1 = (Inr True, w1) \<Longrightarrow> firstSuccess (s1 # ss) = (Inr True, w1)"
  "s1 = (Inr False, w1) \<Longrightarrow>
     firstSuccess (s1 # ss) = (fst (firstSuccess ss), w1 @ snd (firstSuccess ss))"
  by (simp_all add: run_simps)

lemma strategy1_submitButton:
  assumes "fault pg (IsVisible submitButton) = None" "visible pg submitButton"
    and "fault pg (ScrollIntoViewIfNeeded submitButton) = None"
    and "fault pg (WaitForTimeout 300) = None" "fault pg (Click submitButton) = None"
  shows "strategy1 pg =
           (Inr True, [Done (IsVisible submitButton), Done (ScrollIntoViewIfNeeded submitButton),
                       Done (WaitForTimeout 300), Done (Click submitButton)])"
proof -
  have "tryButton pg ''button[type=\"submit\"]'' =
           (Inr True, [Done (IsVisible submitButton), Done (ScrollIntoViewIfNeeded submitButton),
                       Done (WaitForTimeout 300), Done (Click submitButton)])"
    unfolding submitButton_def by (rule tryButton_clicks) (use assms in \<open>simp_all add: submitButton_def\<close>)
  then show ?thesis
    by (simp add: strategy1_def submitSelectors_def run_simps)
qed

subsection \<open>A cascade that reports a click has clicked\<close>

lemma tryButton_True:
  "tryButton pg s = (Inr True, w) \<Longrightarrow> \<exists>e \<in> set w. isClick e"
  by (auto simp: tryButton_def Let_def isVisible_def scrollIntoViewIfNeeded_def
      waitForTimeout_def click_def perform_def run_simps split: option.splits if_splits)

lemma trySelectors_True:
  "trySelectors pg ss = (Inr True, w) \<Longrightarrow> \<exists>e \<in> set w. isClick e"
proof (induction ss arbitrary: w)
  case Nil
  then show ?case by (simp add: io_return_pair)
next
  case (Cons s ss)
  from Cons.prems obtain x w1 w2 where t: "tryButton pg s = (Inr x, w1)"
    and k: "(if x then io_return True else trySelectors pg ss) = (Inr True, w2)"
    and w: "w = w1 @ w2"
    by (auto simp: io_bind_returns)
  show ?case
  proof (cases x)
    case True
    with t tryButton_True[of pg s w1] w show ?thesis by auto
  next
    case False
    with k have "trySelectors pg ss = (Inr True, w2)" by simp
    from Cons.IH[OF this] w show ?thesis by auto
  qed
qed

lemma strategy3_True:
  "strategy3 pg = (Inr True, w) \<Longrightarrow> \<exists>e \<in> set w. isClick e"
  by (auto simp: strategy3_def Let_def allOf_def textContent_def scrollIntoViewIfNeeded_def
      waitForTimeout_def click_def perform_def run_simps split: option.splits if_splits)

lemma strategy4_True:
  "strategy4 pg = (Inr True, w) \<Longrightarrow> \<exists>e \<in> set w. isClick e"
  by (auto simp: strategy4_def evaluateClickSubmit_def perform_def run_simps
      split: option.splits if_splits)

lemma firstSuccess_True:
  assumes "firstSuccess ss = (Inr True, w)"
    and "\<And>s w'. s \<in> set ss \<Longrightarrow> s = (Inr True, w') \<Longrightarrow> \<exists>e \<in> set w'. isClick e"
  shows "\<exists>e \<in> set w. isClick e"
  using assms
proof (induction ss arbitrary: w)
  case Nil
  then show ?case by (simp add: io_return_pair)
next
  case (Cons s ss)
  from Cons.prems(1) obtain x w1 w2 where t: "s = (Inr x, w1)"
    and k: "(if x then io_return True else firstSuccess ss) = (Inr True, w2)"
    and w: "w = w1 @ w2"
    by (auto simp: io_bind_returns)
  show ?case
  proof (cases x)
    case True
    with t Cons.prems(2)[of s w1] w show ?thesis by auto
  next
    case False
    with k have "firstSuccess ss = (Inr True, w2)" by simp
    from Cons.IH[OF this] Cons.prems(2) w show ?thesis by auto
  qed
qed

lemma submitCascade_True:
  assumes "submitCascade pg = (Inr True, w)"
  shows "\<exists>e \<in> set w. isClick e"
proof (rule firstSuccess_True)
  show "firstSuccess [strategy1 pg, strategy2 pg, strategy3 pg, strategy4 pg] = (Inr True, w)"
    using assms by (simp only: submitCascade_firstSuccess)
next
  fix s w'
  assume "s \<in> set [strategy1 pg, strategy2 pg, strategy3 pg, strategy4 pg]" "s = (Inr True, w')"
  then show "\<exists>e \<in> set w'. isClick e"
    using trySelectors_True[of pg submitSelectors w'] trySelectors_True[of pg textButtons w']
      strategy3_True[of pg w'] strategy4_True[of pg w']
    by (auto simp: strategy1_def strategy2_def)
qed

lemma submitForm_True:
  assumes "submitForm pg = (Inr True, w)"
  shows "\<exists>e \<in> set w. isClick e"
proof -
  let ?m = "io_bind (submitCascade pg) (\<lambda>buttonClicked.
          if buttonClicked then
            io_then (waitForTimeout pg 2000) (io_then (takeScreenshot pg) (io_return True))
          else io_return False)"
  have m: "?m = (Inr True, w)"
  proof (cases ?m)
    case (Pair r w')
    show ?thesis
    proof (cases r)
      case (Inl e)
      with Pair assms show ?thesis by (simp add: submitForm_def run_simps)
    next
      case (Inr b)
      with Pair assms show ?thesis by (simp add: submitForm_def run_simps)
    qed
  qed
  then obtain x w1 w2 where c: "submitCascade pg = (Inr x, w1)"
    and k: "(if x then io_then (waitForTimeout pg 2000) (io_then (takeScreenshot pg) (io_return True))
            else io_return False) = (Inr True, w2)" and w: "w = w1 @ w2"
    by (auto simp: io_bind_returns)
  from k have "x" by (cases x) (simp_all add: io_return_pair)
  with c submitCascade_True[of pg w1] w show ?thesis by auto
qed

subsection \<open>The writes of the field stage\<close>

lemma fillIfVisible_written:
  "fillIfVisible pg l v = (Inr (), w) \<Longrightarrow> visible pg l \<Longrightarrow> Done (Fill l v) \<in> set w"
  by (auto simp: fillIfVisible_def isVisible_def fill_def perform_def run_simps
      split: option.splits)

lemma textWrites_in_fields:
  assumes "fillFields config pg data = (Inr (), w0)"
  shows "set (textWrites pg data) \<subseteq> set w0"
proof -
  from assms obtain w1 w2 w3 w4 w5 w6 w7 w8 w9 where
    n: "fillName pg data = (Inr (), w2)" and p: "fillPhone pg data = (Inr (), w3)"
    and e: "fillEmail pg data = (Inr (), w4)" and c: "fillComments pg data = (Inr (), w8)"
    and w: "w0 = w1 @ w2 @ w3 @ w4 @ w5 @ w6 @ w7 @ w8 @ w9"
    unfolding fillFields_def io_seq_Cons_returns by (auto simp: io_return_pair)
  have "name data \<noteq> [] \<Longrightarrow> visible pg nameField \<Longrightarrow> Done (Fill nameField (name data)) \<in> set w2"
    using n fillIfVisible_written[of pg nameField "name data" w2] by (simp add: fillName_def)
  moreover have "phone data \<noteq> [] \<Longrightarrow> visible pg phoneField \<Longrightarrow>
      Done (Fill phoneField (phone data)) \<in> set w3"
    using p fillIfVisible_written[of pg phoneField "phone data" w3] by (simp add: fillPhone_def)
  moreover have "email data \<noteq> [] \<Longrightarrow> visible pg emailField \<Longrightarrow>
      Done (Fill emailField (email data)) \<in> set w4"
    using e fillIfVisible_written[of pg emailField "email data" w4] by (simp add: fillEmail_def)
  moreover have "comments data = Some v \<Longrightarrow> v \<noteq> [] \<Longrightarrow> visible pg commentsField \<Longrightarrow>
      Done (Fill commentsField v) \<in> set w8" for v
    using c fillIfVisible_written[of pg commentsField v w8] by (simp add: fillComments_def)
  ultimately show ?thesis
    by (auto simp: textWrites_def w split: option.splits)
qed

subsection \<open>The dentist page\<close>



subsection \<open>The page without buttons\<close>

lemma noButton_page:
  "fault noButtonPage c = None"
  "visible noButtonPage l = (l \<in> set (take 9 visibleOnDentistPage))"
  "optionsOf noButtonPage timeDropdown = timeOptions"
  "optionsOf noButtonPage serviceDropdown = serviceOptions"
  "countOf noButtonPage l = 0"
  "firstFormButtons noButtonPage = Some []"
  by (simp_all add: noButtonPage_def dentistPage_def locator_defs)

lemma noButton_fields:
  "fillFields dentistConfig noButtonPage hardcodedData = (Inr (), dentistFieldEvents)"
  by (rule dentist_like_fields) (simp_all add: noButton_page)

lemma noButton_hidden:
  "s \<in> set (submitSelectors @ textButtons) \<Longrightarrow> \<not> visible noButtonPage (First (Css s))"
  by (auto simp: noButton_page visible_fields locator_defs submitSelectors_def textButtons_def)

lemma trySelectors_all_hidden:
  assumes "\<And>s. s \<in> set ss \<Longrightarrow> fault pg (IsVisible (First (Css s))) = None"
    and "\<And>s. s \<in> set ss \<Longrightarrow> \<not> visible pg (First (Css s))"
  shows "trySelectors pg ss = (Inr False, map (\<lambda>s. Done (IsVisible (First (Css s)))) ss)"
  using assms
proof (induction ss)
  case Nil
  show ?case by (simp add: io_return_pair)
next
  case (Cons s ss)
  have "tryButton pg s = (Inr False, [Done (IsVisible (First (Css s)))])"
    by (rule tryButton_hidden) (simp_all add: Cons.prems)
  moreover have "trySelectors pg ss = (Inr False, map (\<lambda>s. Done (IsVisible (First (Css s)))) ss)"
    by (rule Cons.IH) (simp_all add: Cons.prems)
  ultimately show ?case by (simp add: run_simps)
qed

lemma noButton_submitForm: "submitForm noButtonPage = (Inr False, noButtonEvents)"
proof -
  have 1: "strategy1 noButtonPage
             = (Inr False, map (\<lambda>s. Done (IsVisible (First (Css s)))) submitSelectors)"
    unfolding strategy1_def
    by (rule trySelectors_all_hidden) (simp_all add: noButton_page(1) noButton_hidden)
  have 2: "strategy2 noButtonPage
             = (Inr False, map (\<lambda>s. Done (IsVisible (First (Css s)))) textButtons)"
    unfolding strategy2_def
    by (rule trySelectors_all_hidden) (simp_all add: noButton_page(1) noButton_hidden)
  have 3: "strategy3 noButtonPage = (Inr False, [Done (AllOf (Css ''form button''))])"
    by (simp add: strategy3_def allOf_def perform_ok noButton_page run_simps)
  have 4: "strategy4 noButtonPage = (Inr False, [Done EvaluateClickSubmit])"
    by (simp add: strategy4_def evaluateClickSubmit_def clickSubmitScript_def perform_ok
        noButton_page run_simps)
  show ?thesis
    by (simp add: submitForm_def submitCascade_def 1 2 3 4 run_simps noButtonEvents_def)
qed

subsection \<open>Errors while a field is assigned\<close>

lemma try_catch_unit:
  "(\<And>e. fst (h e) = Inr ()) \<Longrightarrow> fst (try_catch m h) = Inr ()"
  by (cases m; cases "fst m") (auto simp: try_catch_Inl try_catch_Inr)

lemma guarded_fields_return:
  "fst (fillAppointmentDate pg data) = Inr ()"
  "fst (selectAppointmentTime pg data) = Inr ()"
  "fst (selectServiceType pg data) = Inr ()"
  by (simp_all add: fillAppointmentDate_def selectAppointmentTime_def selectServiceType_def
      try_catch_unit io_return_pair)

subsection \<open>When the field stage completes\<close>

lemma fillIfVisible_returns:
  "faultless pg (textFieldCalls pg l v) \<Longrightarrow> v \<noteq> [] \<Longrightarrow> fst (fillIfVisible pg l v) = Inr ()"
  by (simp add: faultless_def textFieldCalls_def fillIfVisible_def isVisible_def fill_def
      perform_ok run_simps split: if_splits)

lemma faultless_append: "faultless pg (xs @ ys) \<longleftrightarrow> faultless pg xs \<and> faultless pg ys"
  by (simp add: faultless_def)

lemma io_seq_returns: "list_all (\<lambda>m. fst m = Inr ()) ms \<Longrightarrow> fst (io_seq ms) = Inr ()"
proof (induction ms)
  case Nil
  show ?case by (simp add: io_return_pair)
next
  case (Cons m ms)
  then have "fst m = Inr ()" "fst (io_seq ms) = Inr ()" by simp_all
  then show ?case by (cases m) (simp add: run_simps)
qed

lemma fields_complete:
  assumes "faultless pg (unguardedCalls config pg data)"
  shows "\<exists>w0. fillFields config pg data = (Inr (), w0)"
proof -
  from assms have
    o: "faultless pg [Goto (dentistUrl config), WaitForSelector ''form'', EvaluateScrollToForm,
                      WaitForTimeout 500]"
    and n: "faultless pg (textFieldCalls pg nameField (name data))"
    and p: "faultless pg (textFieldCalls pg phoneField (phone data))"
    and e: "faultless pg (textFieldCalls pg emailField (email data))"
    and c: "faultless pg (textFieldCalls pg commentsField
              (case comments data of Some c \<Rightarrow> c | None \<Rightarrow> []))"
    and s: "faultless pg [EnsureDir, Screenshot]"
    by (simp_all add: unguardedCalls_def faultless_def)
  have 1: "fst (openForm config pg) = Inr ()"
    using o by (simp add: openForm_def waitForTimeout_def perform_ok run_simps faultless_def)
  have 2: "fst (fillName pg data) = Inr ()"
    using fillIfVisible_returns[OF n] by (simp add: fillName_def io_return_pair)
  have 3: "fst (fillPhone pg data) = Inr ()"
    using fillIfVisible_returns[OF p] by (simp add: fillPhone_def io_return_pair)
  have 4: "fst (fillEmail pg data) = Inr ()"
    using fillIfVisible_returns[OF e] by (simp add: fillEmail_def io_return_pair)
  have 5: "fst (fillComments pg data) = Inr ()"
  proof (cases "comments data")
    case None
    then show ?thesis by (simp add: fillComments_def io_return_pair)
  next
    case (Some v)
    with c fillIfVisible_returns[of pg commentsField v] show ?thesis
      by (simp add: fillComments_def io_return_pair)
  qed
  have 6: "fst (takeScreenshot pg) = Inr ()"
    using s by (simp add: takeScreenshot_def perform_ok run_simps faultless_def)
  have "fst (fillFields config pg data) = Inr ()"
    unfolding fillFields_def
    by (rule io_seq_returns) (simp add: 1 2 3 4 5 6 guarded_fields_return)
  then show ?thesis by (cases "fillFields config pg data") simp
qed

subsection \<open>Dropdowns\<close>

lemma findMatchingOption_Some:
  "findMatchingOption wanted k opts = Some i \<longleftrightarrow>
     (k \<le> i \<and> i - k < length opts \<and> matchesOption wanted (opts ! (i - k))
      \<and> (\<forall>j < i - k. \<not> matchesOption wanted (opts ! j)))"
proof (induction opts arbitrary: k)
  case Nil
  show ?case by simp
next
  case (Cons opt opts)
  show ?case
  proof (cases "matchesOption wanted opt")
    case True
    then have "findMatchingOption wanted k (opt # opts) = Some k"
      by (simp add: matchesOption_def str_includes_def)
    moreover have "(k \<le> i \<and> i - k < length (opt # opts)
        \<and> matchesOption wanted ((opt # opts) ! (i - k))
        \<and> (\<forall>j < i - k. \<not> matchesOption wanted ((opt # opts) ! j))) \<longleftrightarrow> i = k"
    proof
      assume a: "k \<le> i \<and> i - k < length (opt # opts)
        \<and> matchesOption wanted ((opt # opts) ! (i - k))
        \<and> (\<forall>j < i - k. \<not> matchesOption wanted ((opt # opts) ! j))"
      show "i = k"
      proof (rule ccontr)
        assume "i \<noteq> k"
        with a have "0 < i - k" by simp
        with a have "\<not> matchesOption wanted ((opt # opts) ! 0)" by blast
        with True show False by simp
      qed
    next
      assume "i = k"
      with True show "k \<le> i \<and> i - k < length (opt # opts)
        \<and> matchesOption wanted ((opt # opts) ! (i - k))
        \<and> (\<forall>j < i - k. \<not> matchesOption wanted ((opt # opts) ! j))" by simp
    qed
    ultimately show ?thesis by auto
  next
    case False
    then have f: "findMatchingOption wanted k (opt # opts) = findMatchingOption wanted (Suc k) opts"
      by (simp add: matchesOption_def str_includes_def)
    have "(Suc k \<le> i \<and> i - Suc k < length opts \<and> matchesOption wanted (opts ! (i - Suc k))
            \<and> (\<forall>j < i - Suc k. \<not> matchesOption wanted (opts ! j)))
          \<longleftrightarrow> (k \<le> i \<and> i - k < length (opt # opts)
            \<and> matchesOption wanted ((opt # opts) ! (i - k))
            \<and> (\<forall>j < i - k. \<not> matchesOption wanted ((opt # opts) ! j)))" (is "?A \<longleftrightarrow> ?B")
    proof
      assume a: ?A
      then have ik: "i - k = Suc (i - Suc k)" by arith
      have "\<not> matchesOption wanted ((opt # opts) ! j)" if "j < i - k" for j
      proof (cases j)
        case 0
        with False show ?thesis by simp
      next
        case (Suc j')
        with that ik have "j' < i - Suc k" by simp
        with a Suc show ?thesis by simp
      qed
      with a ik show ?B by auto
    next
      assume b: ?B
      have "i \<noteq> k"
      proof
        assume "i = k"
        with b have "matchesOption wanted opt" by simp
        with False show False by simp
      qed
      with b have ik: "i - k = Suc (i - Suc k)" by arith
      have "\<not> matchesOption wanted (opts ! j)" if "j < i - Suc k" for j
      proof -
        from that ik have "Suc j < i - k" by simp
        with b have "\<not> matchesOption wanted ((opt # opts) ! Suc j)" by blast
        then show ?thesis by simp
      qed
      with b ik show ?A by auto
    qed
    with f Cons.IH[of "Suc k"] show ?thesis by simp
  qed
qed

lemma findMatchingOption_None:
  "findMatchingOption wanted k opts = None \<longleftrightarrow> (\<forall>opt \<in> set opts. \<not> matchesOption wanted opt)"
  by (induction opts arbitrary: k) (auto simp: matchesOption_def str_includes_def)

lemma selectSecondOption_ok:
  assumes "faultless pg (secondOptionCalls dropdown)" "visible pg dropdown"
    and "1 < length (optionsOf pg dropdown)"
  shows "selectSecondOption pg dropdown = (Inr (), secondOptionEvents dropdown)"
  using assms
  by (simp add: selectSecondOption_def isVisible_def selectOption_def hasOption_def
      inputValue_def perform_ok run_simps faultless_def secondOptionCalls_def
      secondOptionEvents_def)


lemma service_selected:
  assumes "serviceType data \<noteq> []" "visible pg serviceDropdown"
    and "faultless pg [IsVisible serviceDropdown, EvaluateOptions serviceDropdown,
                       SelectOption serviceDropdown (ByIndex i)]"
    and "findMatchingOption (serviceType data) 0 (optionsOf pg serviceDropdown) = Some i"
  shows "selectServiceType pg data =
           (Inr (), [Done (IsVisible serviceDropdown), Done (EvaluateOptions serviceDropdown),
                     Done (SelectOption serviceDropdown (ByIndex i))])"
proof -
  from assms(4) have "i < length (optionsOf pg serviceDropdown)"
    by (simp add: findMatchingOption_Some)
  with assms show ?thesis
    by (simp add: selectServiceType_def isVisible_def evaluateOptions_def selectOption_def
        hasOption_def perform_ok run_simps faultless_def)
qed

lemma service_defaulted:
  assumes "serviceType data \<noteq> []" "visible pg serviceDropdown"
    and "faultless pg (EvaluateOptions serviceDropdown # secondOptionCalls serviceDropdown)"
    and "findMatchingOption (serviceType data) 0 (optionsOf pg serviceDropdown) = None"
    and "1 < length (optionsOf pg serviceDropdown)"
  shows "selectServiceType pg data =
           (Inr (), [Done (IsVisible serviceDropdown), Done (EvaluateOptions serviceDropdown),
                     Done (SelectOption serviceDropdown (ByIndex 1)),
                     Done (InputValue serviceDropdown)])"
  using assms
  by (simp add: selectServiceType_def isVisible_def evaluateOptions_def selectOption_def
      inputValue_def hasOption_def perform_ok run_simps faultless_def secondOptionCalls_def)

lemma service_absent:
  assumes "serviceType data = []" "visible pg serviceDropdown"
    and "faultless pg (secondOptionCalls serviceDropdown)"
    and "1 < length (optionsOf pg serviceDropdown)"
  shows "selectServiceType pg data = (Inr (), secondOptionEvents serviceDropdown)"
  using assms selectSecondOption_ok[of pg serviceDropdown]
  by (simp add: selectServiceType_def run_simps)

lemma time_absent:
  assumes "appointmentTime data = []" "visible pg firstDropdown"
    and "faultless pg (secondOptionCalls firstDropdown)"
    and "1 < length (optionsOf pg firstDropdown)"
  shows "selectAppointmentTime pg data = (Inr (), secondOptionEvents firstDropdown)"
  using assms selectSecondOption_ok[of pg firstDropdown]
  by (simp add: selectAppointmentTime_def run_simps)

lemma time_by_label:
  assumes "appointmentTime data \<noteq> []" "visible pg timeDropdown"
    and "faultless pg [IsVisible timeDropdown,
                       SelectOption timeDropdown (ByLabel (appointmentTime data))]"
    and "appointmentTime data \<in> set (map optionText (optionsOf pg timeDropdown))"
  shows "selectAppointmentTime pg data =
           (Inr (), [Done (IsVisible timeDropdown),
                     Done (SelectOption timeDropdown (ByLabel (appointmentTime data)))])"
  using assms
  by (simp add: selectAppointmentTime_def isVisible_def selectOption_def hasOption_def
      perform_ok run_simps faultless_def)

lemma time_defaulted:
  assumes "appointmentTime data \<noteq> []" "visible pg timeDropdown"
    and "fault pg (IsVisible timeDropdown) = None"
    and "appointmentTime data \<notin> set (map optionText (optionsOf pg timeDropdown))"
    and "visible pg firstDropdown" "faultless pg (secondOptionCalls firstDropdown)"
    and "1 < length (optionsOf pg firstDropdown)"
  shows "selectAppointmentTime pg data =
           (Inr (), [Done (IsVisible timeDropdown),
                     Failed (SelectOption timeDropdown (ByLabel (appointmentTime data)))]
                    @ secondOptionEvents firstDropdown)"
proof -
  have "io_bind (isVisible pg timeDropdown) (\<lambda>shown.
             if shown then selectOption pg timeDropdown (ByLabel (appointmentTime data))
             else io_return ())
        = (Inl optionNotFound, [Done (IsVisible timeDropdown),
             Failed (SelectOption timeDropdown (ByLabel (appointmentTime data)))])"
    using assms(2,3,4)
    by (simp add: isVisible_def selectOption_def hasOption_def perform_ok run_simps)
  with assms(1) selectSecondOption_ok[OF assms(6,5,7)] show ?thesis
    by (simp add: selectAppointmentTime_def run_simps)
qed

subsection \<open>Dropdowns of the dentist page\<close>

lemma dentist_dropdowns:
  "visible dentistPage timeDropdown" "visible dentistPage firstDropdown"
  "visible dentistPage serviceDropdown" "fault dentistPage c = None"
  "optionsOf dentistPage timeDropdown = timeOptions"
  "optionsOf dentistPage firstDropdown = timeOptions"
  "optionsOf dentistPage serviceDropdown = serviceOptions"
  by (simp_all add: dentistPage_def visibleOnDentistPage_def timeDropdown_def firstDropdown_def
      serviceDropdown_def)

lemma dentist_values:
  "serviceType hardcodedData = ''Checkup''" "appointmentTime hardcodedData = ''10:00 AM''"
  "serviceType whiteningData = ''Whitening''" "serviceType noValuesData = []"
  "appointmentTime noValuesData = []" "appointmentTime shortTimeData = ''10:00''"
  "appointmentTime lowerCaseTimeData = ''10:00 am''"
  by (simp_all add: hardcodedData_def whiteningData_def noValuesData_def shortTimeData_def
      lowerCaseTimeData_def)

lemma checkup_matches:
  "\<not> matchesOption ''Checkup'' (serviceOptions ! 0)"
  "\<not> matchesOption ''Checkup'' (serviceOptions ! 1)"
  "matchesOption ''Checkup'' (serviceOptions ! 2)"
  by (simp_all add: matchesOption_def serviceOptions_def toLowerCase_def toLowerChar_def
      sublist_Cons_right)

lemma whitening_matches:
  "\<not> matchesOption ''Whitening'' (serviceOptions ! 0)"
  "\<not> matchesOption ''Whitening'' (serviceOptions ! 1)"
  "\<not> matchesOption ''Whitening'' (serviceOptions ! 2)"
  by (simp_all add: matchesOption_def serviceOptions_def toLowerCase_def toLowerChar_def
      sublist_Cons_right)

lemma short_time_matches:
  "\<not> matchesOption ''10:00'' (timeOptions ! 0)"
  "\<not> matchesOption ''10:00'' (timeOptions ! 1)"
  "matchesOption ''10:00'' (timeOptions ! 2)"
  "matchesOption ''10:00 am'' (timeOptions ! 2)"
  by (simp_all add: matchesOption_def timeOptions_def toLowerCase_def toLowerChar_def
      sublist_Cons_right)

lemma time_labels:
  "''10:00 AM'' \<in> set (map optionText timeOptions)"
  "''10:00'' \<notin> set (map optionText timeOptions)"
  "''10:00 am'' \<notin> set (map optionText timeOptions)"
  "length timeOptions = 3" "length serviceOptions = 3"
  by (simp_all add: timeOptions_def serviceOptions_def)

lemma faultless_dentist: "faultless dentistPage calls"
  by (simp add: faultless_def dentist_dropdowns list_all_iff)

lemma less_3_cases: "(\<forall>j<3::nat. P j) \<longleftrightarrow> P 0 \<and> P 1 \<and> P 2"
proof -
  have "j < 3 \<longleftrightarrow> j = 0 \<or> j = 1 \<or> j = 2" for j :: nat by arith
  then show ?thesis by auto
qed

lemma less_2_cases: "(\<forall>j<2::nat. P j) \<longleftrightarrow> P 0 \<and> P 1"
proof -
  have "j < 2 \<longleftrightarrow> j = 0 \<or> j = 1" for j :: nat by arith
  then show ?thesis by auto
qed

lemma whitening_no_match: "\<forall>opt \<in> set serviceOptions. \<not> matchesOption ''Whitening'' opt"
  using whitening_matches by (simp add: all_set_conv_all_nth time_labels less_3_cases)

subsection \<open>A cascade that cannot click\<close>

lemma tryButton_not_clicked:
  "\<not> visible pg (First (Css s)) \<or> fault pg (Click (First (Css s))) \<noteq> None \<Longrightarrow>
   \<exists>w. tryButton pg s = (Inr False, w)"
  by (auto simp: tryButton_def Let_def isVisible_def scrollIntoViewIfNeeded_def
      waitForTimeout_def click_def perform_def run_simps split: option.splits)

lemma trySelectors_not_clicked:
  "list_all (\<lambda>s. \<not> visible pg (First (Css s)) \<or> fault pg (Click (First (Css s))) \<noteq> None) ss \<Longrightarrow>
   \<exists>w. trySelectors pg ss = (Inr False, w)"
proof (induction ss)
  case Nil
  show ?case by (simp add: io_return_pair)
next
  case (Cons s ss)
  from Cons.prems tryButton_not_clicked[of pg s] obtain w1 where
    "tryButton pg s = (Inr False, w1)" by auto
  moreover from Cons obtain w2 where "trySelectors pg ss = (Inr False, w2)" by auto
  ultimately show ?case by (simp add: run_simps)
qed

lemma last_formButtons:
  "0 < countOf pg l \<Longrightarrow> last (map (Nth l) [0..<countOf pg l]) = Nth l (countOf pg l - 1)"
  by (cases "countOf pg l") (simp_all add: last_map)

lemma strategy3_not_clicked:
  assumes "countOf pg (Css ''form button'') \<noteq> 0 \<longrightarrow> fault pg (Click (lastFormButton pg)) \<noteq> None"
  shows "strategy3 pg \<noteq> (Inr True, w)"
proof (cases "countOf pg (Css ''form button'') = 0")
  case True
  then show ?thesis
    by (auto simp: strategy3_def allOf_def perform_def run_simps split: option.splits)
next
  case False
  with assms obtain e where e: "fault pg (Click (lastFormButton pg)) = Some e" by auto
  from False have l: "last (map (Nth (Css ''form button'')) [0..<countOf pg (Css ''form button'')])
      = lastFormButton pg"
    by (simp add: last_formButtons lastFormButton_def)
  have c: "click pg (lastFormButton pg) = (Inl e, [Failed (Click (lastFormButton pg))])"
    by (simp add: click_def perform_fault e)
  have "fst (io_then (io_seq [textContent pg b, scrollIntoViewIfNeeded pg b,
                           waitForTimeout pg 300, click pg (lastFormButton pg)])
            (io_return True)) \<noteq> Inr True" for b
    by (auto simp: c textContent_def scrollIntoViewIfNeeded_def waitForTimeout_def perform_def
        run_simps split: option.splits)
  then have "fst (strategy3 pg) \<noteq> Inr True"
    using False l
    by (auto simp: strategy3_def allOf_def Let_def perform_def run_simps split: option.splits)
  then show ?thesis by auto
qed

lemma strategy4_not_clicked:
  "clickSubmitScript (firstFormButtons pg) = None \<or> fault pg EvaluateClickSubmit \<noteq> None \<Longrightarrow>
   strategy4 pg \<noteq> (Inr True, w)"
  by (auto simp: strategy4_def evaluateClickSubmit_def perform_def run_simps
      split: option.splits)

lemma strategy3_throws:
  assumes "countOf pg (Css ''form button'') \<noteq> 0" "strategy3 pg \<noteq> (Inr True, w)"
    and "strategy3 pg = (r, w)"
  shows "\<exists>e. r = Inl e"
proof (cases r)
  case (Inl e)
  then show ?thesis by simp
next
  case (Inr b)
  with assms(3) have "strategy3 pg = (Inr b, w)" by simp
  with assms(1) have "b"
    by (auto simp: strategy3_def allOf_def Let_def io_bind_returns io_then_returns io_return_pair
        perform_def split: option.splits if_splits)
  with Inr assms(2,3) show ?thesis by simp
qed

lemma firstSuccess_True_member:
  "firstSuccess ss = (Inr True, w) \<Longrightarrow> \<exists>s \<in> set ss. \<exists>w'. s = (Inr True, w')"
proof (induction ss arbitrary: w)
  case Nil
  then show ?case by (simp add: io_return_pair)
next
  case (Cons s ss)
  from Cons.prems obtain x w1 w2 where t: "s = (Inr x, w1)"
    and k: "(if x then io_return True else firstSuccess ss) = (Inr True, w2)"
    by (auto simp: io_bind_returns)
  show ?case
  proof (cases x)
    case True
    with t show ?thesis by auto
  next
    case False
    with k have "firstSuccess ss = (Inr True, w2)" by simp
    from Cons.IH[OF this] show ?thesis by auto
  qed
qed

lemma submitForm_True_cascade:
  assumes "submitForm pg = (Inr True, w)"
  shows "\<exists>w1. submitCascade pg = (Inr True, w1)"
proof (cases "submitCascade pg")
  case (Pair r w1)
  show ?thesis
  proof (cases r)
    case (Inl e)
    with Pair assms show ?thesis by (simp add: submitForm_def run_simps)
  next
    case (Inr b)
    show ?thesis
    proof (cases b)
      case True
      with Pair Inr show ?thesis by simp
    next
      case False
      with Pair Inr assms show ?thesis by (simp add: submitForm_def run_simps)
    qed
  qed
qed

lemma firstSuccess_four:
  "firstSuccess [s1, s2, s3, s4] = (Inr True, w) \<Longrightarrow>
     (\<exists>w'. s1 = (Inr True, w')) \<or> (\<exists>w'. s2 = (Inr True, w')) \<or> (\<exists>w'. s3 = (Inr True, w'))
     \<or> ((\<exists>w3. s3 = (Inr False, w3)) \<and> (\<exists>w'. s4 = (Inr True, w')))"
  by (auto simp: io_bind_returns io_return_pair split: if_splits)

lemma no_control_false:
  assumes "noControlClicks pg"
  shows "\<exists>w. submitForm pg = (Inr False, w)"
proof -
  from assms have sel:
    "list_all (\<lambda>s. \<not> visible pg (First (Css s)) \<or> fault pg (Click (First (Css s))) \<noteq> None)
       submitSelectors"
    "list_all (\<lambda>s. \<not> visible pg (First (Css s)) \<or> fault pg (Click (First (Css s))) \<noteq> None)
       textButtons"
    by (simp_all add: noControlClicks_def)
  from assms have third:
    "countOf pg (Css ''form button'') \<noteq> 0 \<longrightarrow> fault pg (Click (lastFormButton pg)) \<noteq> None"
    and fourth: "countOf pg (Css ''form button'') = 0 \<Longrightarrow>
      clickSubmitScript (firstFormButtons pg) = None \<or> fault pg EvaluateClickSubmit \<noteq> None"
    by (simp_all add: noControlClicks_def split: if_splits)
  from submitForm_returns[of pg] obtain b w where s: "submitForm pg = (Inr b, w)" by blast
  have "\<not> b"
  proof
    assume b
    with s submitForm_True_cascade[of pg w] obtain w1 where
      "submitCascade pg = (Inr True, w1)" by auto
    then have "firstSuccess [strategy1 pg, strategy2 pg, strategy3 pg, strategy4 pg]
                 = (Inr True, w1)"
      by (simp only: submitCascade_firstSuccess)
    from firstSuccess_four[OF this]
    consider w' where "strategy1 pg = (Inr True, w')" | w' where "strategy2 pg = (Inr True, w')"
      | w' where "strategy3 pg = (Inr True, w')"
      | w3 w' where "strategy3 pg = (Inr False, w3)" "strategy4 pg = (Inr True, w')"
      by blast
    then show False
    proof cases
      case 1
      with trySelectors_not_clicked[OF sel(1)] show False by (auto simp: strategy1_def)
    next
      case 2
      with trySelectors_not_clicked[OF sel(2)] show False by (auto simp: strategy2_def)
    next
      case 3
      with strategy3_not_clicked[OF third] show False by blast
    next
      case 4
      show False
      proof (cases "countOf pg (Css ''form button'') = 0")
        case True
        from strategy4_not_clicked[OF fourth[OF True]] 4(2) show False by blast
      next
        case False
        from strategy3_throws[OF False strategy3_not_clicked[OF third] 4(1)] show False by simp
      qed
    qed
  qed
  with s show ?thesis by auto
qed

subsection \<open>The writes of the guarded blocks\<close>

lemma guardedWrites_in_fields:
  assumes "fillFields config pg data = (Inr (), w0)"
  shows "set (guardedWrites pg data) \<subseteq> set w0"
proof -
  from assms obtain w1 w2 w3 w4 w5 w6 w7 w8 w9 where
    d: "fillAppointmentDate pg data = (Inr (), w5)"
    and t: "selectAppointmentTime pg data = (Inr (), w6)"
    and s: "selectServiceType pg data = (Inr (), w7)"
    and w: "w0 = w1 @ w2 @ w3 @ w4 @ w5 @ w6 @ w7 @ w8 @ w9"
    unfolding fillFields_def io_seq_Cons_returns by (auto simp: io_return_pair)
  have "Done (Fill dateInput (appointmentDate data)) \<in> set w5"
    if "appointmentDate data \<noteq> []" "visible pg dateInput"
      "faultless pg [IsVisible dateInput, Fill dateInput (appointmentDate data)]"
  proof -
    from that have "fillAppointmentDate pg data
        = (Inr (), [Done (IsVisible dateInput), Done (Fill dateInput (appointmentDate data))])"
      by (simp add: fillAppointmentDate_def fillIfVisible_ok faultless_def run_simps)
    with d have "w5 = [Done (IsVisible dateInput), Done (Fill dateInput (appointmentDate data))]"
      by simp
    then show ?thesis by simp
  qed
  moreover have "Done (SelectOption timeDropdown (ByLabel (appointmentTime data))) \<in> set w6"
    if "appointmentTime data \<noteq> []" "visible pg timeDropdown"
      "appointmentTime data \<in> set (map optionText (optionsOf pg timeDropdown))"
      "faultless pg [IsVisible timeDropdown,
                     SelectOption timeDropdown (ByLabel (appointmentTime data))]"
  proof -
    from time_by_label[OF that(1,2,4,3)] t
    have "w6 = [Done (IsVisible timeDropdown),
                Done (SelectOption timeDropdown (ByLabel (appointmentTime data)))]"
      by simp
    then show ?thesis by simp
  qed
  moreover have "Done (SelectOption serviceDropdown (ByIndex i)) \<in> set w7"
    if "findMatchingOption (serviceType data) 0 (optionsOf pg serviceDropdown) = Some i"
      "serviceType data \<noteq> []" "visible pg serviceDropdown"
      "faultless pg [IsVisible serviceDropdown, EvaluateOptions serviceDropdown,
                     SelectOption serviceDropdown (ByIndex i)]" for i
  proof -
    from service_selected[OF that(2,3,4,1)] s
    have "w7 = [Done (IsVisible serviceDropdown), Done (EvaluateOptions serviceDropdown),
                Done (SelectOption serviceDropdown (ByIndex i))]"
      by simp
    then show ?thesis by simp
  qed
  ultimately show ?thesis
    by (auto simp: guardedWrites_def w split: option.splits if_splits)
qed

subsection \<open>Pages with one way to submit\<close>

lemma faultless_page: "(\<And>c. fault pg c = None) \<Longrightarrow> faultless pg calls"
  by (simp add: faultless_def list_all_iff)








subsection \<open>Pages on which nothing can be clicked\<close>

lemma noButton_noControl: "noControlClicks noButtonPage"
  using noButton_hidden
  by (simp add: noControlClicks_def list_all_iff noButton_page clickSubmitScript_def)

lemma disabledSubmit_noControl: "noControlClicks disabledSubmitPage"
  by (simp add: noControlClicks_def list_all_iff disabledSubmit_fault disabledSubmit_page)

lemma noButton_writes:
  "textWrites noButtonPage hardcodedData =
     [Done (Fill nameField ''Hitesh Jain''), Done (Fill phoneField ''1234567890''),
      Done (Fill emailField ''hitesh@gmail.com''),
      Done (Fill commentsField ''I have a toothache'')]"
  "guardedWrites noButtonPage hardcodedData =
     [Done (Fill dateInput ''2025-10-10''),
      Done (SelectOption timeDropdown (ByLabel ''10:00 AM'')),
      Done (SelectOption serviceDropdown (ByIndex 2))]"
proof -
  have v: "visible noButtonPage nameField" "visible noButtonPage phoneField"
    "visible noButtonPage emailField" "visible noButtonPage commentsField"
    "visible noButtonPage dateInput" "visible noButtonPage timeDropdown"
    "visible noButtonPage serviceDropdown"
    by (simp_all add: noButton_page(2) visible_fields)
  show "textWrites noButtonPage hardcodedData =
     [Done (Fill nameField ''Hitesh Jain''), Done (Fill phoneField ''1234567890''),
      Done (Fill emailField ''hitesh@gmail.com''),
      Done (Fill commentsField ''I have a toothache'')]"
    by (simp add: textWrites_def v hardcodedData_def)
  have f: "faultless noButtonPage calls" for calls
    by (rule faultless_page) (simp add: noButton_page)
  show "guardedWrites noButtonPage hardcodedData =
     [Done (Fill dateInput ''2025-10-10''),
      Done (SelectOption timeDropdown (ByLabel ''10:00 AM'')),
      Done (SelectOption serviceDropdown (ByIndex 2))]"
    using time_labels(1)
    by (simp add: guardedWrites_def v f noButton_page(3,4) dentist_values
        findMatchingOption_checkup)
       (simp add: hardcodedData_def)
qed

subsection \<open>The order of the submission strategies\<close>




subsection \<open>No control to submit with\<close>

text \<open>
  C2.  In an invocation that reaches the submission stage (it does when the calls outside
  the \<open>try\<close> blocks of the field stage complete), \<open>fillAppointmentForm\<close> does not throw: it
  returns a boolean, and the events of the field stage come first in what it leaves
  behind.  The boolean is \<open>false\<close> when the submission stage has completed no click, and
  so it is on every page on which no strategy can locate and click a control.  The field
  stage has filled every text field (name, phone, e-mail, comments) with a value and a
  visible target, and has made the writes of the date, time and service blocks whose calls
  completed.
\<close>

theorem no_click_returns_false:
  "(fillFields config pg data = (Inr (), w0) \<longrightarrow>
      (\<exists>b w. fillAppointmentForm config (Some pg) data = (Inr b, w0 @ w)
             \<and> (filter isClick w = [] \<longrightarrow> b = False)
             \<and> (noControlClicks pg \<longrightarrow> b = False))
      \<and> set (textWrites pg data @ guardedWrites pg data) \<subseteq> set w0)
   \<and> (faultless pg (unguardedCalls config pg data) \<longrightarrow>
        (\<exists>w. fillFields config pg data = (Inr (), w)))"
proof (intro conjI impI)
  assume f: "fillFields config pg data = (Inr (), w0)"
  from submitForm_returns[of pg] obtain b w where s: "submitForm pg = (Inr b, w)" by blast
  have "filter isClick w = [] \<longrightarrow> b = False"
  proof (cases b)
    case True
    with s have "submitForm pg = (Inr True, w)" by simp
    from submitForm_True[OF this] obtain e where "e \<in> set w" "isClick e" by blast
    then have "filter isClick w \<noteq> []" by (auto simp: filter_empty_conv)
    then show ?thesis by simp
  next
    case False
    then show ?thesis by simp
  qed
  moreover have "noControlClicks pg \<longrightarrow> b = False"
    using no_control_false[of pg] s by auto
  moreover have "fillAppointmentForm config (Some pg) data = (Inr b, w0 @ w)"
    by (simp add: fillAppointmentForm_after_fields[OF f] s)
  ultimately show "\<exists>b w. fillAppointmentForm config (Some pg) data = (Inr b, w0 @ w)
             \<and> (filter isClick w = [] \<longrightarrow> b = False)
             \<and> (noControlClicks pg \<longrightarrow> b = False)"
    by blast
  show "set (textWrites pg data @ guardedWrites pg data) \<subseteq> set w0"
    using textWrites_in_fields[OF f] guardedWrites_in_fields[OF f] by simp
next
  assume "faultless pg (unguardedCalls config pg data)"
  then show "\<exists>w. fillFields config pg data = (Inr (), w)"
    by (rule fields_complete)
qed

text \<open>
  The theorem on the page without buttons and on the page whose only button is disabled.
\<close>

theorem no_click_returns_false_witness:
  "faultless noButtonPage (unguardedCalls dentistConfig noButtonPage hardcodedData)
   \<and> fillFields dentistConfig noButtonPage hardcodedData = (Inr (), dentistFieldEvents)
   \<and> noControlClicks noButtonPage
   \<and> fillAppointmentForm dentistConfig (Some noButtonPage) hardcodedData
       = (Inr False, dentistFieldEvents @ noButtonEvents)
   \<and> filter isClick noButtonEvents = []
   \<and> fillFields dentistConfig disabledSubmitPage hardcodedData = (Inr (), dentistFieldEvents)
   \<and> noControlClicks disabledSubmitPage
   \<and> fillAppointmentForm dentistConfig (Some disabledSubmitPage) hardcodedData
       = (Inr False, dentistFieldEvents @ disabledSubmitEvents)
   \<and> filter isClick disabledSubmitEvents = []
   \<and> set (textWrites noButtonPage hardcodedData @ guardedWrites noButtonPage hardcodedData)
       \<subseteq> set dentistFieldEvents
   \<and> Done (Fill nameField ''Hitesh Jain'') \<in> set (textWrites noButtonPage hardcodedData)
   \<and> Done (SelectOption serviceDropdown (ByIndex 2))
       \<in> set (guardedWrites noButtonPage hardcodedData)"
proof -
  note t = no_click_returns_false[where config = dentistConfig and data = hardcodedData
      and ?w0.0 = dentistFieldEvents]
  have u: "faultless noButtonPage (unguardedCalls dentistConfig noButtonPage hardcodedData)"
    by (rule faultless_page) (simp add: noButton_page)
  from t[where pg = noButtonPage] noButton_fields noButton_noControl obtain w where
    r: "fillAppointmentForm dentistConfig (Some noButtonPage) hardcodedData
          = (Inr False, dentistFieldEvents @ w)"
    and s: "set (textWrites noButtonPage hardcodedData @ guardedWrites noButtonPage hardcodedData)
              \<subseteq> set dentistFieldEvents"
    by blast
  have e: "fillAppointmentForm dentistConfig (Some noButtonPage) hardcodedData
       = (Inr False, dentistFieldEvents @ noButtonEvents)"
    by (simp add: fillAppointmentForm_after_fields[OF noButton_fields] noButton_submitForm)
  have c: "filter isClick noButtonEvents = []"
    by (simp add: noButtonEvents_def submitSelectors_def textButtons_def)
  from t[where pg = disabledSubmitPage] disabledSubmit_fields disabledSubmit_noControl
  obtain w' where
    r': "fillAppointmentForm dentistConfig (Some disabledSubmitPage) hardcodedData
          = (Inr False, dentistFieldEvents @ w')"
    by blast
  have e': "fillAppointmentForm dentistConfig (Some disabledSubmitPage) hardcodedData
       = (Inr False, dentistFieldEvents @ disabledSubmitEvents)"
    by (simp add: fillAppointmentForm_after_fields[OF disabledSubmit_fields]
        disabledSubmit_submitForm)
  have c': "filter isClick disabledSubmitEvents = []"
    by (simp add: disabledSubmitEvents_def disabledStrategy1Events_def
        disabledStrategy2Events_def disabledStrategy3Events_def)
  have n: "Done (Fill nameField ''Hitesh Jain'') \<in> set (textWrites noButtonPage hardcodedData)"
    "Done (SelectOption serviceDropdown (ByIndex 2))
       \<in> set (guardedWrites noButtonPage hardcodedData)"
    by (simp_all add: noButton_writes)
  show ?thesis
    apply (intro conjI)
    apply (rule u)
    apply (rule noButton_fields)
    apply (rule noButton_noControl)
    apply (rule e)
    apply (rule c)
    apply (rule disabledSubmit_fields)
    apply (rule disabledSubmit_noControl)
    apply (rule e')
    apply (rule c')
    apply (rule s)
    apply (rule n(1))
    apply (rule n(2))
    done
qed

subsection \<open>A field that rejects its value\<close>

lemma disabledName_page:
  "fault disabledNamePage (Fill nameField v) = Some fillTimeout"
  "fault disabledNamePage (Goto u) = None"
  "fault disabledNamePage (WaitForSelector s) = None"
  "fault disabledNamePage EvaluateScrollToForm = None"
  "fault disabledNamePage (WaitForTimeout n) = None"
  "fault disabledNamePage (IsVisible l) = None"
  "fault disabledNamePage EnsureDir = None"
  "fault disabledNamePage Screenshot = None"
  "visible disabledNamePage nameField"
  by (simp_all add: disabledNamePage_def dentistPage_def visibleOnDentistPage_def)

lemma fillTimeout_message:
  "''Failed to fill appointment form: '' @ message fillTimeout
     = ''Failed to fill appointment form: locator.fill: Timeout 30000ms exceeded.''"
  by (simp add: fillTimeout_def)

text \<open>
  C5 fails on the code for the name, phone, e-mail and comments fields, which have no
  \<open>try\<close> around them.  On the dentist page with the name input disabled, the rejected
  \<open>fill\<close> ends the invocation: it throws \<open>Failed to fill appointment form\<close>, and no later
  field and no submission strategy runs.  The date, time and service blocks, each inside
  its own \<open>try\<close>, always return.
\<close>

theorem name_fill_error_aborts:
  "fillAppointmentForm dentistConfig (Some disabledNamePage) hardcodedData
     = (Inl (Error ''Failed to fill appointment form: locator.fill: Timeout 30000ms exceeded.''),
        [Done (Goto ''https://dr-rajivs-smile-space.lovable.app/''), Done (WaitForSelector ''form''),
         Done EvaluateScrollToForm, Done (WaitForTimeout 500),
         Done (IsVisible nameField), Failed (Fill nameField ''Hitesh Jain''),
         Done EnsureDir, Done Screenshot])
   \<and> fst (fillAppointmentDate pg data) = Inr ()
   \<and> fst (selectAppointmentTime pg data) = Inr ()
   \<and> fst (selectServiceType pg data) = Inr ()"
proof -
  have o: "openForm dentistConfig disabledNamePage =
          (Inr (), [Done (Goto ''https://dr-rajivs-smile-space.lovable.app/''),
                    Done (WaitForSelector ''form''), Done EvaluateScrollToForm,
                    Done (WaitForTimeout 500)])"
    by (simp add: openForm_def waitForTimeout_def perform_ok disabledName_page run_simps
        dentistConfig_def)
  have n: "fillName disabledNamePage hardcodedData
             = (Inl fillTimeout, [Done (IsVisible nameField), Failed (Fill nameField ''Hitesh Jain'')])"
    by (simp add: fillName_def hardcodedData_def fillIfVisible_def isVisible_def fill_def
        perform_ok perform_fault disabledName_page run_simps)
  have s: "takeScreenshot disabledNamePage = (Inr (), [Done EnsureDir, Done Screenshot])"
    by (simp add: takeScreenshot_def perform_ok disabledName_page run_simps)
  have f: "fillFields dentistConfig disabledNamePage hardcodedData
             = (Inl fillTimeout,
                [Done (Goto ''https://dr-rajivs-smile-space.lovable.app/''),
                 Done (WaitForSelector ''form''), Done EvaluateScrollToForm,
                 Done (WaitForTimeout 500),
                 Done (IsVisible nameField), Failed (Fill nameField ''Hitesh Jain'')])"
    by (simp add: fillFields_def o n run_simps)
  have "fillAppointmentForm dentistConfig (Some disabledNamePage) hardcodedData
     = (Inl (Error ''Failed to fill appointment form: locator.fill: Timeout 30000ms exceeded.''),
        [Done (Goto ''https://dr-rajivs-smile-space.lovable.app/''), Done (WaitForSelector ''form''),
         Done EvaluateScrollToForm, Done (WaitForTimeout 500),
         Done (IsVisible nameField), Failed (Fill nameField ''Hitesh Jain''),
         Done EnsureDir, Done Screenshot])"
    unfolding fillAppointmentForm_def
    by (simp add: f s run_simps fillTimeout_message[symmetric] del: append.simps)
  then show ?thesis by (simp only: guarded_fields_return simp_thms)
qed

subsection \<open>The default date\<close>

lemma autumn_default: "defaultDateString pacificAutumn = ''2025-11-06''"
  by code_simp

lemma autumn_today:
  "isoDate (now pacificAutumn) = ''2025-10-29''"
  "isoDate (LocalTime pacificAutumn (now pacificAutumn)) = ''2025-10-29''"
  by code_simp+

lemma autumn_next_week:
  "isoDate (now pacificAutumn + 7 * msPerDay) = ''2025-11-05''"
  "isoDate (LocalTime pacificAutumn (now pacificAutumn) + 7 * msPerDay) = ''2025-11-05''"
  by code_simp+

lemma default_date_filled:
  assumes "appointmentDate data = []" "visible pg defaultDateInput"
    and "faultless pg [IsVisible defaultDateInput,
                       Fill defaultDateInput (defaultDateString (pageClock pg))]"
  shows "fillAppointmentDate pg data =
           (Inr (), [Done (IsVisible defaultDateInput),
                     Done (Fill defaultDateInput (defaultDateString (pageClock pg)))])"
  using assms
  by (simp add: fillAppointmentDate_def isVisible_def fill_def perform_ok run_simps
      faultless_def)

lemma autumn_page:
  "fault autumnPage c = None"
  "visible autumnPage l = (l \<in> set visibleOnDentistPage)"
  "optionsOf autumnPage timeDropdown = timeOptions"
  "optionsOf autumnPage serviceDropdown = serviceOptions"
  "pageClock autumnPage = pacificAutumn"
  by (simp_all add: autumnPage_def dentistPage_def timeDropdown_def firstDropdown_def
      serviceDropdown_def)

lemma noDate_values:
  "name noDateData = ''Hitesh Jain''" "phone noDateData = ''1234567890''"
  "email noDateData = ''hitesh@gmail.com''" "appointmentDate noDateData = []"
  "appointmentTime noDateData = ''10:00 AM''" "serviceType noDateData = ''Checkup''"
  "comments noDateData = Some ''I have a toothache''"
  by (simp_all add: noDateData_def hardcodedData_def)

lemma autumn_visible:
  "visible autumnPage nameField" "visible autumnPage phoneField" "visible autumnPage emailField"
  "visible autumnPage defaultDateInput" "visible autumnPage timeDropdown"
  "visible autumnPage serviceDropdown" "visible autumnPage commentsField"
  "visible autumnPage submitButton"
  by (simp_all add: autumn_page(2) visibleOnDentistPage_def)

lemma autumn_date:
  "fillAppointmentDate autumnPage noDateData =
     (Inr (), [Done (IsVisible defaultDateInput), Done (Fill defaultDateInput ''2025-11-06'')])"
  using default_date_filled[of noDateData autumnPage]
  by (simp add: autumn_page(1,5) autumn_visible noDate_values autumn_default faultless_def)

lemma autumn_fields:
  "fillFields dentistConfig autumnPage noDateData = (Inr (), take 21 autumnEvents)"
proof -
  note p = autumn_page(1) autumn_visible noDate_values
  have "openForm dentistConfig autumnPage =
          (Inr (), [Done (Goto ''https://dr-rajivs-smile-space.lovable.app/''),
                    Done (WaitForSelector ''form''), Done EvaluateScrollToForm,
                    Done (WaitForTimeout 500)])"
    by (simp add: openForm_def waitForTimeout_def perform_ok p run_simps dentistConfig_def)
  moreover have "fillName autumnPage noDateData
                   = (Inr (), [Done (IsVisible nameField), Done (Fill nameField ''Hitesh Jain'')])"
    by (simp add: fillName_def fillIfVisible_ok p)
  moreover have "fillPhone autumnPage noDateData
                   = (Inr (), [Done (IsVisible phoneField), Done (Fill phoneField ''1234567890'')])"
    by (simp add: fillPhone_def fillIfVisible_ok p)
  moreover have "fillEmail autumnPage noDateData
                   = (Inr (), [Done (IsVisible emailField),
                               Done (Fill emailField ''hitesh@gmail.com'')])"
    by (simp add: fillEmail_def fillIfVisible_ok p)
  moreover note autumn_date
  moreover have "selectAppointmentTime autumnPage noDateData
                   = (Inr (), [Done (IsVisible timeDropdown),
                               Done (SelectOption timeDropdown (ByLabel ''10:00 AM''))])"
    using time_by_label[of noDateData autumnPage]
    by (simp add: p autumn_page(3) timeOptions_def faultless_def)
  moreover have "selectServiceType autumnPage noDateData
                   = (Inr (), [Done (IsVisible serviceDropdown),
                               Done (EvaluateOptions serviceDropdown),
                               Done (SelectOption serviceDropdown (ByIndex 2))])"
    using service_selected[of noDateData autumnPage 2]
    by (simp add: p autumn_page(4) findMatchingOption_checkup faultless_def)
  moreover have "fillComments autumnPage noDateData
                   = (Inr (), [Done (IsVisible commentsField),
                               Done (Fill commentsField ''I have a toothache'')])"
    by (simp add: fillComments_def fillIfVisible_ok p)
  moreover have "takeScreenshot autumnPage = (Inr (), [Done EnsureDir, Done Screenshot])"
    by (simp add: takeScreenshot_def perform_ok p run_simps)
  ultimately show ?thesis
    by (simp add: fillFields_def run_simps autumnEvents_def)
qed

lemma autumn_submit:
  "submitForm autumnPage = (Inr True, drop 21 autumnEvents)"
proof -
  have "strategy1 autumnPage =
          (Inr True, [Done (IsVisible submitButton), Done (ScrollIntoViewIfNeeded submitButton),
                      Done (WaitForTimeout 300), Done (Click submitButton)])"
    by (rule strategy1_submitButton) (simp_all add: autumn_page(1) autumn_visible)
  then have "submitCascade autumnPage =
          (Inr True, [Done (IsVisible submitButton), Done (ScrollIntoViewIfNeeded submitButton),
                      Done (WaitForTimeout 300), Done (Click submitButton)])"
    by (simp add: submitCascade_def run_simps)
  moreover have "waitForTimeout autumnPage 2000 = (Inr (), [Done (WaitForTimeout 2000)])"
    by (simp add: waitForTimeout_def perform_ok autumn_page(1))
  moreover have "takeScreenshot autumnPage = (Inr (), [Done EnsureDir, Done Screenshot])"
    by (simp add: takeScreenshot_def perform_ok autumn_page(1) run_simps)
  ultimately show ?thesis
    by (simp add: submitForm_def run_simps autumnEvents_def)
qed

text \<open>
  C6 fails on the code.  The default date is computed by adding 7 to the day of the month
  in local time (\<open>getDate\<close>, \<open>setDate\<close>) and printed in UTC (\<open>toISOString\<close>).  On
  2025-10-29 at 16:30 US Pacific time the current date is 2025-10-29, locally and in UTC,
  and seven days later is 2025-11-05; the invocation, given no date, succeeds and fills
  2025-11-06 into the visible \<open>input[type="date"]\<close>.
\<close>

theorem default_date_off_by_one:
  "appointmentDate noDateData = [] \<and> visible autumnPage defaultDateInput
   \<and> toISOString (now (pageClock autumnPage)) = ''2025-10-29T23:30:00.000Z''
   \<and> localTZA (pageClock autumnPage) (now (pageClock autumnPage)) True = - 25200000
   \<and> fillAppointmentForm dentistConfig (Some autumnPage) noDateData = (Inr True, autumnEvents)
   \<and> Done (Fill defaultDateInput ''2025-11-06'') \<in> set autumnEvents
   \<and> fillAppointmentDate autumnPage noDateData =
       (Inr (), [Done (IsVisible defaultDateInput), Done (Fill defaultDateInput ''2025-11-06'')])
   \<and> isoDate (now pacificAutumn) = ''2025-10-29''
   \<and> isoDate (LocalTime pacificAutumn (now pacificAutumn)) = ''2025-10-29''
   \<and> isoDate (now pacificAutumn + 7 * msPerDay) = ''2025-11-05''
   \<and> isoDate (LocalTime pacificAutumn (now pacificAutumn) + 7 * msPerDay) = ''2025-11-05''"
proof -
  have c: "toISOString (now (pageClock autumnPage)) = ''2025-10-29T23:30:00.000Z''"
    unfolding autumn_page(5) by code_simp
  have z: "localTZA (pageClock autumnPage) (now (pageClock autumnPage)) True = - 25200000"
    by (simp add: autumn_page(5) pacificAutumn_def)
  have "fillAppointmentForm dentistConfig (Some autumnPage) noDateData
          = (Inr True, take 21 autumnEvents @ drop 21 autumnEvents)"
    by (simp add: fillAppointmentForm_after_fields[OF autumn_fields] autumn_submit)
  then have r: "fillAppointmentForm dentistConfig (Some autumnPage) noDateData
                  = (Inr True, autumnEvents)"
    by (simp only: append_take_drop_id)
  have m: "Done (Fill defaultDateInput ''2025-11-06'') \<in> set autumnEvents"
    by (simp add: autumnEvents_def)
  show ?thesis
    apply (intro conjI)
    apply (rule noDate_values(4))
    apply (rule autumn_visible(4))
    apply (rule c)
    apply (rule z)
    apply (rule r)
    apply (rule m)
    apply (rule autumn_date)
    apply (rule autumn_today(1))
    apply (rule autumn_today(2))
    apply (rule autumn_next_week(1))
    apply (rule autumn_next_week(2))
    done
qed

subsection \<open>Selection in the dropdowns\<close>

text \<open>
  C7, as amended.  The service dropdown (the second \<open>select\<close>) is searched as the spec says:
  when the first option whose text contains the supplied value, case-insensitively, is at
  index \<open>i\<close>, the option at index \<open>i\<close> is selected; when no option matches, and when no
  value is supplied, the option at index 1 is selected.  The time dropdown is not: a
  supplied time is selected through \<open>selectOption({ label })\<close>, that is only when it equals
  the text of an option; otherwise the call fails and the option at index 1 of the first
  \<open>select\<close> of the page is selected.  A missing time selects index 1 of the first
  \<open>select\<close> too.
\<close>

theorem dropdown_selection:
  "(serviceType data \<noteq> [] \<and> visible pg serviceDropdown \<longrightarrow>
      (i < length (optionsOf pg serviceDropdown)
         \<and> matchesOption (serviceType data) (optionsOf pg serviceDropdown ! i)
         \<and> (\<forall>j<i. \<not> matchesOption (serviceType data) (optionsOf pg serviceDropdown ! j))
         \<and> faultless pg [IsVisible serviceDropdown, EvaluateOptions serviceDropdown,
                          SelectOption serviceDropdown (ByIndex i)] \<longrightarrow>
       selectServiceType pg data =
         (Inr (), [Done (IsVisible serviceDropdown), Done (EvaluateOptions serviceDropdown),
                   Done (SelectOption serviceDropdown (ByIndex i))]))
    \<and> ((\<forall>opt \<in> set (optionsOf pg serviceDropdown). \<not> matchesOption (serviceType data) opt)
         \<and> 1 < length (optionsOf pg serviceDropdown)
         \<and> faultless pg (EvaluateOptions serviceDropdown # secondOptionCalls serviceDropdown) \<longrightarrow>
       selectServiceType pg data =
         (Inr (), [Done (IsVisible serviceDropdown), Done (EvaluateOptions serviceDropdown),
                   Done (SelectOption serviceDropdown (ByIndex 1)),
                   Done (InputValue serviceDropdown)])))
   \<and> (serviceType data = [] \<and> visible pg serviceDropdown
        \<and> 1 < length (optionsOf pg serviceDropdown)
        \<and> faultless pg (secondOptionCalls serviceDropdown) \<longrightarrow>
      selectServiceType pg data = (Inr (), secondOptionEvents serviceDropdown))
   \<and> (appointmentTime data = [] \<and> visible pg firstDropdown
        \<and> 1 < length (optionsOf pg firstDropdown)
        \<and> faultless pg (secondOptionCalls firstDropdown) \<longrightarrow>
      selectAppointmentTime pg data = (Inr (), secondOptionEvents firstDropdown))
   \<and> (appointmentTime data \<noteq> [] \<and> visible pg timeDropdown
        \<and> fault pg (IsVisible timeDropdown) = None \<longrightarrow>
      (appointmentTime data \<in> set (map optionText (optionsOf pg timeDropdown))
         \<and> fault pg (SelectOption timeDropdown (ByLabel (appointmentTime data))) = None \<longrightarrow>
       selectAppointmentTime pg data =
         (Inr (), [Done (IsVisible timeDropdown),
                   Done (SelectOption timeDropdown (ByLabel (appointmentTime data)))]))
    \<and> (appointmentTime data \<notin> set (map optionText (optionsOf pg timeDropdown))
         \<and> visible pg firstDropdown \<and> 1 < length (optionsOf pg firstDropdown)
         \<and> faultless pg (secondOptionCalls firstDropdown) \<longrightarrow>
       selectAppointmentTime pg data =
         (Inr (), [Done (IsVisible timeDropdown),
                   Failed (SelectOption timeDropdown (ByLabel (appointmentTime data)))]
                  @ secondOptionEvents firstDropdown)))"
proof (intro conjI impI)
  assume a: "serviceType data \<noteq> [] \<and> visible pg serviceDropdown"
    and b: "i < length (optionsOf pg serviceDropdown)
         \<and> matchesOption (serviceType data) (optionsOf pg serviceDropdown ! i)
         \<and> (\<forall>j<i. \<not> matchesOption (serviceType data) (optionsOf pg serviceDropdown ! j))
         \<and> faultless pg [IsVisible serviceDropdown, EvaluateOptions serviceDropdown,
                          SelectOption serviceDropdown (ByIndex i)]"
  from b have "findMatchingOption (serviceType data) 0 (optionsOf pg serviceDropdown) = Some i"
    by (simp add: findMatchingOption_Some)
  with a b show "selectServiceType pg data =
         (Inr (), [Done (IsVisible serviceDropdown), Done (EvaluateOptions serviceDropdown),
                   Done (SelectOption serviceDropdown (ByIndex i))])"
    using service_selected[of data pg i] by blast
next
  assume a: "serviceType data \<noteq> [] \<and> visible pg serviceDropdown"
    and b: "(\<forall>opt \<in> set (optionsOf pg serviceDropdown). \<not> matchesOption (serviceType data) opt)
         \<and> 1 < length (optionsOf pg serviceDropdown)
         \<and> faultless pg (EvaluateOptions serviceDropdown # secondOptionCalls serviceDropdown)"
  from b have "findMatchingOption (serviceType data) 0 (optionsOf pg serviceDropdown) = None"
    by (simp add: findMatchingOption_None)
  with a b show "selectServiceType pg data =
         (Inr (), [Done (IsVisible serviceDropdown), Done (EvaluateOptions serviceDropdown),
                   Done (SelectOption serviceDropdown (ByIndex 1)),
                   Done (InputValue serviceDropdown)])"
    using service_defaulted[of data pg] by blast
next
  assume "serviceType data = [] \<and> visible pg serviceDropdown
        \<and> 1 < length (optionsOf pg serviceDropdown)
        \<and> faultless pg (secondOptionCalls serviceDropdown)"
  then show "selectServiceType pg data = (Inr (), secondOptionEvents serviceDropdown)"
    using service_absent[of data pg] by blast
next
  assume "appointmentTime data = [] \<and> visible pg firstDropdown
        \<and> 1 < length (optionsOf pg firstDropdown)
        \<and> faultless pg (secondOptionCalls firstDropdown)"
  then show "selectAppointmentTime pg data = (Inr (), secondOptionEvents firstDropdown)"
    using time_absent[of data pg] by blast
next
  assume a: "appointmentTime data \<noteq> [] \<and> visible pg timeDropdown
        \<and> fault pg (IsVisible timeDropdown) = None"
    and b: "appointmentTime data \<in> set (map optionText (optionsOf pg timeDropdown))
         \<and> fault pg (SelectOption timeDropdown (ByLabel (appointmentTime data))) = None"
  then have "faultless pg [IsVisible timeDropdown,
                       SelectOption timeDropdown (ByLabel (appointmentTime data))]"
    by (simp add: faultless_def)
  with a b show "selectAppointmentTime pg data =
         (Inr (), [Done (IsVisible timeDropdown),
                   Done (SelectOption timeDropdown (ByLabel (appointmentTime data)))])"
    using time_by_label[of data pg] by blast
next
  assume a: "appointmentTime data \<noteq> [] \<and> visible pg timeDropdown
        \<and> fault pg (IsVisible timeDropdown) = None"
    and b: "appointmentTime data \<notin> set (map optionText (optionsOf pg timeDropdown))
         \<and> visible pg firstDropdown \<and> 1 < length (optionsOf pg firstDropdown)
         \<and> faultless pg (secondOptionCalls firstDropdown)"
  then show "selectAppointmentTime pg data =
         (Inr (), [Done (IsVisible timeDropdown),
                   Failed (SelectOption timeDropdown (ByLabel (appointmentTime data)))]
                  @ secondOptionEvents firstDropdown)"
    using time_defaulted[of data pg] by blast
qed

text \<open>The theorem on the dropdowns of the dentist page.\<close>

theorem dropdown_selection_witness:
  "matchesOption ''Checkup'' (optionsOf dentistPage serviceDropdown ! 2)
   \<and> \<not> matchesOption ''Checkup'' (optionsOf dentistPage serviceDropdown ! 0)
   \<and> \<not> matchesOption ''Checkup'' (optionsOf dentistPage serviceDropdown ! 1)
   \<and> selectServiceType dentistPage hardcodedData =
       (Inr (), [Done (IsVisible serviceDropdown), Done (EvaluateOptions serviceDropdown),
                 Done (SelectOption serviceDropdown (ByIndex 2))])
   \<and> list_all (\<lambda>opt. \<not> matchesOption ''Whitening'' opt) (optionsOf dentistPage serviceDropdown)
   \<and> selectServiceType dentistPage whiteningData =
       (Inr (), [Done (IsVisible serviceDropdown), Done (EvaluateOptions serviceDropdown),
                 Done (SelectOption serviceDropdown (ByIndex 1)),
                 Done (InputValue serviceDropdown)])
   \<and> serviceType noValuesData = [] \<and> appointmentTime noValuesData = []
   \<and> selectServiceType dentistPage noValuesData = (Inr (), secondOptionEvents serviceDropdown)
   \<and> selectAppointmentTime dentistPage noValuesData = (Inr (), secondOptionEvents firstDropdown)
   \<and> appointmentTime hardcodedData \<in> set (map optionText (optionsOf dentistPage timeDropdown))
   \<and> selectAppointmentTime dentistPage hardcodedData =
       (Inr (), [Done (IsVisible timeDropdown),
                 Done (SelectOption timeDropdown (ByLabel ''10:00 AM''))])
   \<and> appointmentTime shortTimeData \<notin> set (map optionText (optionsOf dentistPage timeDropdown))
   \<and> selectAppointmentTime dentistPage shortTimeData =
       (Inr (), [Done (IsVisible timeDropdown),
                 Failed (SelectOption timeDropdown (ByLabel ''10:00''))]
                @ secondOptionEvents firstDropdown)"
proof -
  note d = dentist_dropdowns dentist_values time_labels
  have service: "serviceType hardcodedData \<noteq> [] \<and> visible dentistPage serviceDropdown"
    by (simp add: d)
  have checkup: "2 < length (optionsOf dentistPage serviceDropdown)
         \<and> matchesOption (serviceType hardcodedData) (optionsOf dentistPage serviceDropdown ! 2)
         \<and> (\<forall>j<2. \<not> matchesOption (serviceType hardcodedData)
                        (optionsOf dentistPage serviceDropdown ! j))
         \<and> faultless dentistPage [IsVisible serviceDropdown, EvaluateOptions serviceDropdown,
                          SelectOption serviceDropdown (ByIndex 2)]"
    using checkup_matches by (simp add: d faultless_dentist less_2_cases)
  have whitening: "serviceType whiteningData \<noteq> [] \<and> visible dentistPage serviceDropdown"
    by (simp add: d)
  have none: "(\<forall>opt \<in> set (optionsOf dentistPage serviceDropdown).
                 \<not> matchesOption (serviceType whiteningData) opt)
         \<and> 1 < length (optionsOf dentistPage serviceDropdown)
         \<and> faultless dentistPage
             (EvaluateOptions serviceDropdown # secondOptionCalls serviceDropdown)"
    using whitening_no_match by (simp add: d faultless_dentist)
  have noService: "serviceType noValuesData = [] \<and> visible dentistPage serviceDropdown
        \<and> 1 < length (optionsOf dentistPage serviceDropdown)
        \<and> faultless dentistPage (secondOptionCalls serviceDropdown)"
    by (simp add: d faultless_dentist)
  have noTime: "appointmentTime noValuesData = [] \<and> visible dentistPage firstDropdown
        \<and> 1 < length (optionsOf dentistPage firstDropdown)
        \<and> faultless dentistPage (secondOptionCalls firstDropdown)"
    by (simp add: d faultless_dentist)
  have time: "appointmentTime hardcodedData \<noteq> [] \<and> visible dentistPage timeDropdown
        \<and> fault dentistPage (IsVisible timeDropdown) = None"
    by (simp add: d)
  have label: "appointmentTime hardcodedData \<in> set (map optionText (optionsOf dentistPage timeDropdown))
         \<and> fault dentistPage (SelectOption timeDropdown (ByLabel (appointmentTime hardcodedData)))
             = None"
    using time_labels(1) by (simp add: dentist_dropdowns dentist_values)
  have short: "appointmentTime shortTimeData \<noteq> [] \<and> visible dentistPage timeDropdown
        \<and> fault dentistPage (IsVisible timeDropdown) = None"
    by (simp add: d)
  have noLabel: "appointmentTime shortTimeData \<notin> set (map optionText (optionsOf dentistPage timeDropdown))
         \<and> visible dentistPage firstDropdown \<and> 1 < length (optionsOf dentistPage firstDropdown)
         \<and> faultless dentistPage (secondOptionCalls firstDropdown)"
    using time_labels(2) by (simp add: dentist_dropdowns dentist_values time_labels(4) faultless_dentist)
  note dropdown_selection[of hardcodedData dentistPage 2, THEN conjunct1, THEN mp, OF service,
      THEN conjunct1, THEN mp, OF checkup]
    dropdown_selection[of whiteningData dentistPage 0, THEN conjunct1, THEN mp, OF whitening,
      THEN conjunct2, THEN mp, OF none]
    dropdown_selection[of noValuesData dentistPage 0, THEN conjunct2, THEN conjunct1, THEN mp,
      OF noService]
    dropdown_selection[of noValuesData dentistPage 0, THEN conjunct2, THEN conjunct2,
      THEN conjunct1, THEN mp, OF noTime]
    dropdown_selection[of hardcodedData dentistPage 0, THEN conjunct2, THEN conjunct2,
      THEN conjunct2, THEN mp, OF time, THEN conjunct1, THEN mp, OF label]
    dropdown_selection[of shortTimeData dentistPage 0, THEN conjunct2, THEN conjunct2,
      THEN conjunct2, THEN mp, OF short, THEN conjunct2, THEN mp, OF noLabel]
  moreover note checkup_matches whitening_no_match time_labels(1,2)
  ultimately show ?thesis
    by (simp add: dentist_dropdowns dentist_values list_all_iff)
qed

text \<open>
  C7 as stated fails for the time dropdown.  The dentist page offers the times
  "Select time", "9:00 AM" and "10:00 AM".  The values "10:00" and "10:00 am" are contained,
  case-insensitively, in the text of the option at index 2 and of no earlier option, yet
  \<open>selectOption({ label })\<close> fails for both and the option at index 1, "9:00 AM", is
  selected.
\<close>

theorem time_dropdown_counterexample:
  "matchesOption (appointmentTime shortTimeData) (optionsOf dentistPage timeDropdown ! 2)
   \<and> selectAppointmentTime dentistPage shortTimeData =
       (Inr (), [Done (IsVisible timeDropdown),
                 Failed (SelectOption timeDropdown (ByLabel ''10:00'')),
                 Done (IsVisible firstDropdown), Done (SelectOption firstDropdown (ByIndex 1)),
                 Done (InputValue firstDropdown)])
   \<and> matchesOption (appointmentTime lowerCaseTimeData) (optionsOf dentistPage timeDropdown ! 2)
   \<and> selectAppointmentTime dentistPage lowerCaseTimeData =
       (Inr (), [Done (IsVisible timeDropdown),
                 Failed (SelectOption timeDropdown (ByLabel ''10:00 am'')),
                 Done (IsVisible firstDropdown), Done (SelectOption firstDropdown (ByIndex 1)),
                 Done (InputValue firstDropdown)])
   \<and> optionText (optionsOf dentistPage firstDropdown ! 1) = ''9:00 AM''"
proof -
  have "selectAppointmentTime dentistPage shortTimeData =
       (Inr (), [Done (IsVisible timeDropdown),
                 Failed (SelectOption timeDropdown (ByLabel (appointmentTime shortTimeData)))]
                @ secondOptionEvents firstDropdown)"
    using time_labels(2) faultless_dentist[of "secondOptionCalls firstDropdown"]
    by (intro time_defaulted) (simp_all add: dentist_dropdowns dentist_values time_labels(4))
  moreover have "selectAppointmentTime dentistPage lowerCaseTimeData =
       (Inr (), [Done (IsVisible timeDropdown),
                 Failed (SelectOption timeDropdown (ByLabel (appointmentTime lowerCaseTimeData)))]
                @ secondOptionEvents firstDropdown)"
    using time_labels(3) faultless_dentist[of "secondOptionCalls firstDropdown"]
    by (intro time_defaulted) (simp_all add: dentist_dropdowns dentist_values time_labels(4))
  moreover have "optionText (timeOptions ! 1) = ''9:00 AM''"
    by (simp add: timeOptions_def)
  ultimately show ?thesis
    by (simp add: dentist_dropdowns dentist_values short_time_matches secondOptionEvents_def)
qed

end
